(* ===== verification/Emb_Prelude.thy ===== *)
theory Emb_Prelude
  imports Main "HOL-Library.Word"
begin

text \<open>
  The prelude of the embARC development: the machine types the components share, the
  outcome of an operation that may never return, the byte-addressed memory the C code
  reads and writes through pointers, the bit-scan macros of \<open>include/embARC_toolchain.h\<close>,
  and the lemmas on words, lists and memory that the component theories use.

  The named collections: \<open>mem_simps\<close> rewrites loads over stores, \<open>res_simps\<close> decides
  the outcome of a sequence of fallible steps.
\<close>

unbundle bit_operations_syntax

type_synonym u8 = "8 word"
type_synonym u16 = "16 word"
type_synonym u32 = "32 word"

named_theorems mem_simps
named_theorems res_simps

section \<open>Operations that may not return\<close>

text \<open>
  A step either stops the program for ever (\<open>Inl\<close>, with the reason) or goes on with a
  value (\<open>Inr\<close>). \<open>res_bind\<close> runs a second step only after a first one that returned,
  which is what the sequencing of C statements does.
\<close>

definition res_bind :: "'e + 'a \<Rightarrow> ('a \<Rightarrow> 'e + 'b) \<Rightarrow> 'e + 'b" where
  "res_bind m f = (case m of Inl e \<Rightarrow> Inl e | Inr x \<Rightarrow> f x)"

lemma res_bind_Inl [simp]: "res_bind (Inl e) f = Inl e"
  by (simp add: res_bind_def)

lemma res_bind_Inr [simp]: "res_bind (Inr x) f = f x"
  by (simp add: res_bind_def)

lemma res_bind_eq_Inr [res_simps]:
  "(res_bind m f = Inr y) \<longleftrightarrow> (\<exists>x. m = Inr x \<and> f x = Inr y)"
  by (cases m) auto

lemma res_bind_eq_Inl [res_simps]:
  "(res_bind m f = Inl e) \<longleftrightarrow> m = Inl e \<or> (\<exists>x. m = Inr x \<and> f x = Inl e)"
  by (cases m) auto

lemma res_bind_cong [fundef_cong]:
  "m = m' \<Longrightarrow> (\<And>x. m' = Inr x \<Longrightarrow> f x = g x) \<Longrightarrow> res_bind m f = res_bind m' g"
  by (cases m') auto

text \<open>A \<open>for\<close> loop over a list of items, each step of which may stop the program.\<close>

fun res_fold :: "('a \<Rightarrow> 's \<Rightarrow> 'e + 's) \<Rightarrow> 'a list \<Rightarrow> 's \<Rightarrow> 'e + 's" where
  "res_fold f [] s = Inr s"
| "res_fold f (x # xs) s = res_bind (f x s) (res_fold f xs)"

lemma res_fold_invariant:
  assumes "res_fold f xs s = Inr t" and "P s"
    and "\<And>x s t. x \<in> set xs \<Longrightarrow> P s \<Longrightarrow> f x s = Inr t \<Longrightarrow> P t"
  shows "P t"
  using assms
proof (induction xs arbitrary: s)
  case Nil
  then show ?case by simp
next
  case (Cons x xs)
  from Cons.prems(1) obtain s' where s': "f x s = Inr s'" "res_fold f xs s' = Inr t"
    by (auto simp: res_simps)
  have "P s'" using Cons.prems(3)[OF _ Cons.prems(2) s'(1)] by simp
  then show ?case
    by (rule Cons.IH [OF s'(2)]) (use Cons.prems(3) in auto)
qed

section \<open>Bit scan and rounding to powers of two\<close>

text \<open>
  The number of significant bits. \<open>EMBARC_BITS\<close>, \<open>32 - EMBARC_CLZ\<close> and the \<open>fls\<close>
  instruction sequence of \<open>arc_find_msb\<close> all compute it.
\<close>

fun bit_length :: "nat \<Rightarrow> nat" where
  "bit_length n = (if n = 0 then 0 else Suc (bit_length (n div 2)))"

declare bit_length.simps [simp del]

lemma bit_length_0 [simp]: "bit_length 0 = 0"
  by (simp add: bit_length.simps)

lemma bit_length_bounds: "0 < n \<Longrightarrow> 2 ^ (bit_length n - 1) \<le> n \<and> n < 2 ^ bit_length n"
proof (induction n rule: bit_length.induct)
  case (1 n)
  have eq: "bit_length n = Suc (bit_length (n div 2))"
    using "1.prems" by (simp add: bit_length.simps [of n])
  show ?case
  proof (cases "n div 2 = 0")
    case True
    with "1.prems" have "n = 1" by simp
    then show ?thesis using True eq by simp
  next
    case False
    then have IH: "2 ^ (bit_length (n div 2) - 1) \<le> n div 2"
        "n div 2 < 2 ^ bit_length (n div 2)"
      using "1.IH" "1.prems" by auto
    have pos: "0 < bit_length (n div 2)"
      using False by (subst bit_length.simps) simp
    have "2 ^ bit_length (n div 2) = 2 * (2::nat) ^ (bit_length (n div 2) - 1)"
      using pos by (cases "bit_length (n div 2)") auto
    with IH have "2 ^ bit_length (n div 2) \<le> n" "n < 2 * 2 ^ bit_length (n div 2)"
      by linarith+
    with eq show ?thesis by simp
  qed
qed

lemma bit_length_le: "n < 2 ^ k \<Longrightarrow> bit_length n \<le> k"
proof (cases "n = 0")
  case False
  assume "n < 2 ^ k"
  with False have "(2::nat) ^ (bit_length n - 1) < 2 ^ k"
    using bit_length_bounds [of n] by linarith
  then have "bit_length n - 1 < k" by (simp add: power_strict_increasing_iff)
  then show ?thesis by simp
qed simp

lemma bit_length_pow2: "bit_length (2 ^ k) = Suc k"
proof -
  have a: "2 ^ (bit_length (2 ^ k) - 1) \<le> (2::nat) ^ k" "(2::nat) ^ k < 2 ^ bit_length (2 ^ k)"
    using bit_length_bounds [of "2 ^ k"] by auto
  then have "bit_length (2 ^ k) - 1 \<le> k" "k < bit_length (2 ^ k)"
    by (simp_all add: power_increasing_iff power_strict_increasing_iff)
  then show ?thesis by simp
qed

lemma bit_length_numeral [simp]:
  "bit_length (numeral k) = Suc (bit_length (numeral k div 2))" "bit_length (Suc 0) = Suc 0"
  by (simp_all add: bit_length.simps)

definition embarc_clz :: "u32 \<Rightarrow> nat" where
  "embarc_clz x = 32 - bit_length (unat x)"

definition embarc_bits :: "u32 \<Rightarrow> nat" where
  "embarc_bits x = 32 - embarc_clz x"

text \<open>
  \<open>EMBARC_POW2_CEIL\<close>. Its comment requires \<open>x > 0\<close>; a shift by \<open>-1\<close> (\<open>x = 0\<close>) or by
  32 (\<open>x > 2 ^ 31\<close>) is undefined in C, which is the value \<open>None\<close>.
\<close>

definition embarc_pow2_ceil :: "u32 \<Rightarrow> u32 option" where
  "embarc_pow2_ceil x =
     (if x = 0 then None
      else if push_bit (31 - embarc_clz x) 1 < x then
        (if embarc_clz x = 0 then None else Some (push_bit (31 - embarc_clz x + 1) 1))
      else Some (push_bit (31 - embarc_clz x) 1))"

lemma unat_lt_2p32: "unat (x :: u32) < 2 ^ 32"
  using unsigned_less [of x] by simp

lemma bit_length_u32: "bit_length (unat (x :: u32)) \<le> 32"
  by (rule bit_length_le) (rule unat_lt_2p32)

lemma embarc_bits_eq: "embarc_bits x = bit_length (unat x)"
  using bit_length_u32 [of x] by (simp add: embarc_bits_def embarc_clz_def)

lemma unat_of_nat_u32: "n < 2 ^ 32 \<Longrightarrow> unat (of_nat n :: u32) = n"
  by (simp add: unsigned_of_nat take_bit_nat_eq_self)

lemma unat_drop_bit_u32: "unat (drop_bit k (x :: u32)) = unat x div 2 ^ k"
  by (simp only: unat_drop_bit_eq) (simp only: drop_bit_eq_div)

lemma unat_add_u32: "unat x + unat y < 2 ^ 32 \<Longrightarrow> unat (x + y :: u32) = unat x + unat y"
  using unat_add_lem [of x y] by simp

lemma unat_sub_u32: "unat y \<le> unat x \<Longrightarrow> unat (x - y :: u32) = unat x - unat y"
  using unat_sub [of y x] by (simp add: word_le_nat_alt)

lemma unat_neg_u32: "0 < unat x \<Longrightarrow> unat (- x :: u32) = 2 ^ 32 - unat x"
  using unat_sub_if' [of 0 x] by (simp add: word_le_nat_alt)

lemma bit_lt_pow2:
  fixes n :: u32
  assumes "unat n < 2 ^ m" "bit n k"
  shows "k < m"
proof -
  have "bit (unat n) k"
    using assms(2) by (simp add: bit_unsigned_iff)
  then show ?thesis
    using assms(1) by (metis bit_take_bit_iff take_bit_nat_eq_self)
qed

lemma sint_small: "unat (x :: u32) < 2 ^ 31 \<Longrightarrow> sint x = int (unat x)"
proof -
  assume "unat x < 2 ^ 31"
  then have "int (unat x) < int (2 ^ 31)"
    by (simp only: of_nat_less_iff)
  moreover have "- (2 ^ 31) \<le> int (unat x)"
    by (rule order_trans [of _ 0]) simp_all
  ultimately have "signed_take_bit 31 (int (unat x)) = int (unat x)"
    by (intro signed_take_bit_int_eq_self) simp_all
  then show ?thesis
    by (simp add: sint_uint)
qed

lemma unat_pow2_u32: "k < 32 \<Longrightarrow> unat ((2 :: u32) ^ k) = 2 ^ k"
proof -
  assume "k < 32"
  then have "(2::nat) ^ k < 2 ^ 32" by (rule power_strict_increasing) simp
  then have "unat (of_nat (2 ^ k) :: u32) = 2 ^ k" by (rule unat_of_nat_u32)
  then show ?thesis by simp
qed

lemma unat_push_bit_1: "k < 32 \<Longrightarrow> unat (push_bit k (1 :: u32)) = 2 ^ k"
  by (simp add: push_bit_eq_mult unat_pow2_u32)

text \<open>What the macro promises: the least power of two that is not below its argument.\<close>

lemma embarc_pow2_ceil_Some:
  assumes "embarc_pow2_ceil x = Some r"
  shows "\<exists>k < 32. r = 2 ^ k \<and> unat r = 2 ^ k \<and> x \<le> r \<and> (0 < k \<longrightarrow> 2 ^ (k - 1) < unat x)"
proof -
  let ?b = "bit_length (unat x)"
  from assms have x0: "x \<noteq> 0" by (auto simp: embarc_pow2_ceil_def)
  then have ux: "0 < unat x" by (simp add: unat_gt_0)
  have bnd: "2 ^ (?b - 1) \<le> unat x" "unat x < 2 ^ ?b"
    using bit_length_bounds [OF ux] by auto
  have b32: "?b \<le> 32" by (rule bit_length_u32)
  have b0: "0 < ?b" using bnd(2) ux by (cases ?b) auto
  have sh: "31 - embarc_clz x = ?b - 1" using b32 b0 by (simp add: embarc_clz_def)
  have one: "unat (push_bit (?b - 1) (1 :: u32)) = 2 ^ (?b - 1)"
    by (rule unat_push_bit_1) (use b32 b0 in simp)
  show ?thesis
  proof (cases "push_bit (?b - 1) 1 < x")
    case True
    with assms x0 sh have clz: "embarc_clz x \<noteq> 0" and r: "r = push_bit ?b 1"
      using b0 by (auto simp: embarc_pow2_ceil_def split: if_splits)
    from clz b32 have "?b < 32" by (simp add: embarc_clz_def)
    moreover from this have ur: "unat r = 2 ^ ?b" unfolding r by (rule unat_push_bit_1)
    moreover from ur bnd(2) have "x \<le> r" by (simp add: word_le_nat_alt)
    moreover from True one have "2 ^ (?b - 1) < unat x" by (simp add: word_less_nat_alt)
    ultimately show ?thesis
      by (intro exI [of _ ?b]) (auto simp: r push_bit_eq_mult)
  next
    case False
    with assms x0 sh have r: "r = push_bit (?b - 1) 1"
      by (auto simp: embarc_pow2_ceil_def split: if_splits)
    from False one bnd(1) have eq: "unat x = 2 ^ (?b - 1)"
      by (simp add: word_less_nat_alt)
    have "x \<le> r" using one eq by (simp add: r word_le_nat_alt)
    moreover have "(2::nat) ^ (?b - 1 - 1) < unat x" if "0 < ?b - 1"
    proof -
      have "(2::nat) ^ (?b - 1 - 1) < 2 ^ (?b - 1)"
        by (rule power_strict_increasing) (use that in auto)
      then show ?thesis by (simp only: eq [symmetric])
    qed
    moreover have "?b - 1 < 32" "unat r = 2 ^ (?b - 1)" "r = 2 ^ (?b - 1)"
      using one b32 b0 by (auto simp: r push_bit_eq_mult)
    ultimately show ?thesis by (intro exI [of _ "?b - 1"]) simp
  qed
qed

section \<open>Byte-addressed memory\<close>

text \<open>
  The C code reads and writes 32-bit words through pointers into RAM and ROM. The memory is
  a function from byte addresses to bytes, and the core is little endian (the bit-field
  comment of \<open>arc_exception.c\<close>). Addresses wrap at 32 bits, as pointer arithmetic does on
  the machine.
\<close>

type_synonym mem = "u32 \<Rightarrow> u8"

definition ld32 :: "mem \<Rightarrow> u32 \<Rightarrow> u32" where
  "ld32 m a = ucast (m a) OR push_bit 8 (ucast (m (a + 1)))
     OR push_bit 16 (ucast (m (a + 2))) OR push_bit 24 (ucast (m (a + 3)))"

definition st32 :: "mem \<Rightarrow> u32 \<Rightarrow> u32 \<Rightarrow> mem" where
  "st32 m a v = m(a := ucast v, a + 1 := ucast (drop_bit 8 v),
     a + 2 := ucast (drop_bit 16 v), a + 3 := ucast (drop_bit 24 v))"

definition ld16 :: "mem \<Rightarrow> u32 \<Rightarrow> u16" where
  "ld16 m a = ucast (m a) OR push_bit 8 (ucast (m (a + 1)))"

text \<open>The \<open>memcpy\<close> and \<open>memset\<close> of the C library, on non-overlapping areas.\<close>

fun memcpy :: "mem \<Rightarrow> u32 \<Rightarrow> u32 \<Rightarrow> nat \<Rightarrow> mem" where
  "memcpy m d s 0 = m"
| "memcpy m d s (Suc n) = memcpy (m(d := m s)) (d + 1) (s + 1) n"

fun memset :: "mem \<Rightarrow> u32 \<Rightarrow> u8 \<Rightarrow> nat \<Rightarrow> mem" where
  "memset m d c 0 = m"
| "memset m d c (Suc n) = memset (m(d := c)) (d + 1) c n"

lemma ld32_st32_same [mem_simps]: "ld32 (st32 m a v) a = v"
proof -
  have ne: "a + 1 \<noteq> a" "a + 2 \<noteq> a" "a + 3 \<noteq> a" "a + 2 \<noteq> a + 1" "a + 3 \<noteq> a + 1" "a + 3 \<noteq> a + 2"
    by simp_all
  have "bit (ld32 (st32 m a v) a) n = bit v n" if "n < 32" for n
  proof -
    consider "n < 8" | "8 \<le> n" "n < 16" | "16 \<le> n" "n < 24" | "24 \<le> n"
      by linarith
    then show ?thesis
      using that ne by cases (auto simp: ld32_def st32_def bit_simps fun_upd_def)
  qed
  then show ?thesis by (intro bit_word_eqI) simp
qed

text \<open>
  Two words do not overlap when each starts at least four bytes after the other, counting
  forwards around the address space.
\<close>

definition word_apart :: "u32 \<Rightarrow> u32 \<Rightarrow> bool" where
  "word_apart a b \<longleftrightarrow> 4 \<le> unat (b - a) \<and> 4 \<le> unat (a - b)"

lemma word_apart_sym: "word_apart a b \<longleftrightarrow> word_apart b a"
  by (auto simp: word_apart_def)

lemma word_apart_bytes:
  assumes "word_apart a b" and "i < 4" and "j < 4"
  shows "b + of_nat i \<noteq> a + of_nat j"
proof
  assume eq: "b + of_nat i = a + of_nat j"
  show False
  proof (cases "i \<le> j")
    case True
    from eq have "b - a = of_nat j - of_nat i"
      by (simp add: algebra_simps)
    also have "\<dots> = of_nat (j - i)" using True by simp
    finally have "unat (b - a) = j - i"
      using assms(3) by (simp add: unat_of_nat_u32)
    with assms(1,3) show False by (auto simp: word_apart_def)
  next
    case False
    from eq have "a - b = of_nat i - of_nat j"
      by (simp add: algebra_simps)
    also have "\<dots> = of_nat (i - j)" using False by simp
    finally have "unat (a - b) = i - j"
      using assms(2) by (simp add: unat_of_nat_u32)
    with assms(1,2) show False by (auto simp: word_apart_def)
  qed
qed

lemma ld32_st32_apart [mem_simps]:
  assumes "word_apart a b"
  shows "ld32 (st32 m a v) b = ld32 m b"
proof -
  have byte: "st32 m a v (b + of_nat i) = m (b + of_nat i)" if "i < 4" for i
  proof -
    have "b + of_nat i \<noteq> a + of_nat j" if "j < 4" for j
      using word_apart_bytes [OF assms \<open>i < 4\<close> that] .
    from this [of 0] this [of 1] this [of 2] this [of 3] show ?thesis
      by (simp add: st32_def)
  qed
  from byte [of 0] byte [of 1] byte [of 2] byte [of 3] show ?thesis
    by (simp add: ld32_def)
qed

text \<open>Words at different positions of a small array do not overlap.\<close>

lemma word_apart_array:
  assumes "i \<noteq> j" "i < 1024" "j < 1024"
  shows "word_apart (a + 4 * of_nat i) (a + 4 * of_nat j)"
proof -
  have d: "(a + 4 * of_nat j) - (a + 4 * of_nat i) = 4 * (of_nat j - of_nat i :: u32)" for i j :: nat
    by (simp add: algebra_simps)
  have far: "4 \<le> unat ((a + 4 * of_nat j) - (a + 4 * of_nat i :: u32)) \<and>
      4 \<le> unat ((a + 4 * of_nat i) - (a + 4 * of_nat j :: u32))"
    if "i < j" "j < 1024" for i j :: nat
  proof -
    have e: "(of_nat j - of_nat i :: u32) = of_nat (j - i)"
      using that by simp
    have "4 * (of_nat j - of_nat i :: u32) = of_nat (4 * (j - i))"
      unfolding e by simp
    then have u: "unat (4 * (of_nat j - of_nat i :: u32)) = 4 * (j - i)"
      using that unat_of_nat_u32 [of "4 * (j - i)"] by simp
    have "4 * (of_nat i - of_nat j :: u32) = - (4 * (of_nat j - of_nat i))"
      by (simp add: algebra_simps)
    then have "unat (4 * (of_nat i - of_nat j :: u32)) = 2 ^ 32 - 4 * (j - i)"
      using u that unat_neg_u32 [of "4 * (of_nat j - of_nat i)"] by simp
    then show ?thesis
      unfolding d u using that by (intro conjI; simp; linarith?)
  qed
  show ?thesis
    using far [of i j] far [of j i] assms unfolding word_apart_def by (cases "i < j") auto
qed

section \<open>Lists as C arrays\<close>

text \<open>Reading and writing an array element; an index past the end is undefined in C.\<close>

definition arr_get :: "'a list \<Rightarrow> nat \<Rightarrow> 'a option" where
  "arr_get xs i = (if i < length xs then Some (xs ! i) else None)"

definition arr_set :: "'a list \<Rightarrow> nat \<Rightarrow> 'a \<Rightarrow> 'a list option" where
  "arr_set xs i v = (if i < length xs then Some (xs[i := v]) else None)"

lemma arr_get_Some [simp]: "arr_get xs i = Some v \<longleftrightarrow> i < length xs \<and> xs ! i = v"
  by (auto simp: arr_get_def)

lemma arr_set_Some [simp]: "arr_set xs i v = Some ys \<longleftrightarrow> i < length xs \<and> ys = xs[i := v]"
  by (auto simp: arr_set_def)

end
