(* ===== verification/Ringbuffer.thy ===== *)
theory Ringbuffer
  imports Emb_Prelude
begin

text \<open>
  The ring buffer of \<open>middleware/common/ringbuffer/ringbuffer.c\<close>. The indices and counters
  are 32-bit words, as \<open>unsigned int\<close> is on the ARC; a \<open>RINGBUFFER *\<close> is an option
  (\<open>None\<close> the null pointer), and an operation that would divide by zero or index outside
  the buffer has no result (\<open>None\<close> around the returned pair).

  The specification is a first-in first-out queue of bounded length: \<open>bounded_fifo\<close> states
  what a provider promises, the block operations are proved against it once, and the ring
  buffer is shown to provide it.
\<close>

section \<open>The C structure and its operations\<close>

record RINGBUFFER =
  rb_buf :: "u8 list"
  rb_wridx :: u32
  rb_rdidx :: u32
  rb_avail :: u32
  rb_size :: u32

text \<open>\<open>rb_init\<close>: the buffer is the array the caller passes, \<open>None\<close> for \<open>NULL\<close>.\<close>

definition rb_init :: "RINGBUFFER option \<Rightarrow> u8 list option \<Rightarrow> u32 \<Rightarrow> int \<times> RINGBUFFER option" where
  "rb_init rb buf item_cnt =
     (case (rb, buf) of
        (Some r, Some b) \<Rightarrow>
          if item_cnt = 0 then (-1, rb)
          else (0, Some \<lparr>rb_buf = b, rb_wridx = 0, rb_rdidx = 0,
                         rb_avail = item_cnt, rb_size = item_cnt\<rparr>)
      | _ \<Rightarrow> (-1, rb))"

definition rb_isfull :: "RINGBUFFER option \<Rightarrow> int" where
  "rb_isfull rb = (case rb of None \<Rightarrow> -1 | Some r \<Rightarrow> of_bool (rb_avail r = 0))"

definition rb_isempty :: "RINGBUFFER option \<Rightarrow> int" where
  "rb_isempty rb = (case rb of None \<Rightarrow> -1 | Some r \<Rightarrow> of_bool (rb_avail r = rb_size r))"

definition rb_add :: "RINGBUFFER option \<Rightarrow> u8 \<Rightarrow> (int \<times> RINGBUFFER option) option" where
  "rb_add rb item =
     (let ercd = rb_isfull rb in
      if ercd = -1 then Some (-1, rb)
      else if ercd = 1 then Some (-2, rb)
      else case rb of
          None \<Rightarrow> None
        | Some r \<Rightarrow>
            if rb_size r = 0 then None
            else let w = rb_wridx r mod rb_size r in
              (case arr_set (rb_buf r) (unat w) item of
                 None \<Rightarrow> None
               | Some b \<Rightarrow> Some (0, Some (r\<lparr>rb_buf := b, rb_wridx := w + 1,
                                          rb_avail := rb_avail r - 1\<rparr>))))"

text \<open>
  \<open>rb_remove\<close>: the flag says whether the caller passed a non-null \<open>item\<close> pointer; the byte
  stored through it is the second component of the result.
\<close>

definition rb_remove :: "RINGBUFFER option \<Rightarrow> bool \<Rightarrow> (int \<times> u8 option \<times> RINGBUFFER option) option" where
  "rb_remove rb item_ok =
     (let ercd = rb_isempty rb in
      if ercd = -1 then Some (-1, None, rb)
      else if ercd = 1 then Some (-2, None, rb)
      else if \<not> item_ok then Some (-3, None, rb)
      else case rb of
          None \<Rightarrow> None
        | Some r \<Rightarrow>
            if rb_size r = 0 then None
            else let i = rb_rdidx r mod rb_size r in
              (case arr_get (rb_buf r) (unat i) of
                 None \<Rightarrow> None
               | Some x \<Rightarrow> Some (0, Some x, Some (r\<lparr>rb_rdidx := i + 1,
                                                  rb_avail := rb_avail r + 1\<rparr>))))"

text \<open>
  \<open>rb_push\<close> and \<open>rb_pop\<close>: the loop over \<open>items\<close> stops at the first item that does not go
  in (or come out), and the count of those that did is returned.
\<close>

fun rb_push :: "RINGBUFFER option \<Rightarrow> u8 list \<Rightarrow> (nat \<times> RINGBUFFER option) option" where
  "rb_push rb [] = Some (0, rb)"
| "rb_push rb (x # xs) =
     (case rb_add rb x of
        None \<Rightarrow> None
      | Some (ercd, rb') \<Rightarrow>
          if ercd = 0 then map_option (\<lambda>(n, rb''). (Suc n, rb'')) (rb_push rb' xs)
          else Some (0, rb'))"

fun rb_pop :: "RINGBUFFER option \<Rightarrow> nat \<Rightarrow> (u8 list \<times> RINGBUFFER option) option" where
  "rb_pop rb 0 = Some ([], rb)"
| "rb_pop rb (Suc cnt) =
     (case rb_remove rb True of
        Some (ercd, Some x, rb') \<Rightarrow>
          if ercd = 0 then map_option (\<lambda>(xs, rb''). (x # xs, rb'')) (rb_pop rb' cnt)
          else Some ([], rb')
      | Some (ercd, None, rb') \<Rightarrow> Some ([], rb')
      | None \<Rightarrow> None)"

section \<open>Invariant and abstraction\<close>

definition rb_used :: "RINGBUFFER \<Rightarrow> nat" where
  "rb_used r = unat (rb_size r) - unat (rb_avail r)"

definition rb_inv :: "RINGBUFFER \<Rightarrow> bool" where
  "rb_inv r \<longleftrightarrow>
     0 < unat (rb_size r) \<and> unat (rb_size r) \<le> length (rb_buf r) \<and>
     unat (rb_avail r) \<le> unat (rb_size r) \<and>
     unat (rb_wridx r) \<le> unat (rb_size r) \<and> unat (rb_rdidx r) \<le> unat (rb_size r) \<and>
     unat (rb_wridx r) mod unat (rb_size r) =
       (unat (rb_rdidx r) + rb_used r) mod unat (rb_size r)"

text \<open>The queue a ring buffer holds, oldest byte first.\<close>

definition rb_contents :: "RINGBUFFER \<Rightarrow> u8 list" where
  "rb_contents r =
     map (\<lambda>i. rb_buf r ! ((unat (rb_rdidx r) + i) mod unat (rb_size r))) [0..<rb_used r]"

definition rb_capacity :: "RINGBUFFER \<Rightarrow> nat" where
  "rb_capacity r = unat (rb_size r)"

lemma length_rb_contents [simp]: "length (rb_contents r) = rb_used r"
  by (simp add: rb_contents_def)

lemma unat_mod_u32: "unat ((x :: u32) mod y) = unat x mod unat y"
  by (rule unat_mod)

lemma unat_suc_le: "unat (x :: u32) < unat (y :: u32) \<Longrightarrow> unat (x + 1) = Suc (unat x)"
  using unat_lt_2p32 [of y] by (simp add: unat_word_ariths)

lemma unat_pred: "x \<noteq> (0 :: u32) \<Longrightarrow> unat (x - 1) = unat x - 1"
  by (simp add: unat_minus_one)

lemma mod_add_inj:
  assumes "i < n" "j < n" "(a + i) mod n = (a + j) mod (n::nat)"
  shows "i = j"
proof -
  have *: "i = j" if "i \<le> j" "i < n" "j < n" "(a + i) mod n = (a + j) mod n" for i j
  proof -
    from that have "n dvd (a + j) - (a + i)" by (metis mod_eq_dvd_iff_nat add_left_mono)
    then have "n dvd j - i" by simp
    with that show ?thesis by (auto dest: dvd_imp_le)
  qed
  show ?thesis
    using *[of i j] *[of j i] assms by (cases "i \<le> j") auto
qed

lemma rb_used_le: "rb_used r \<le> unat (rb_size r)"
  by (simp add: rb_used_def)

lemma rb_full_iff: "rb_inv r \<Longrightarrow> rb_avail r = 0 \<longleftrightarrow> rb_used r = unat (rb_size r)"
  by (auto simp: rb_inv_def rb_used_def word_unat_eq_iff)

lemma rb_empty_iff: "rb_inv r \<Longrightarrow> rb_avail r = rb_size r \<longleftrightarrow> rb_used r = 0"
  by (auto simp: rb_inv_def rb_used_def word_unat_eq_iff)

lemma rb_add_ok:
  assumes inv: "rb_inv r" and room: "rb_used r < unat (rb_size r)"
  shows "\<exists>r'. rb_add (Some r) x = Some (0, Some r') \<and> rb_inv r' \<and> rb_size r' = rb_size r
            \<and> rb_contents r' = rb_contents r @ [x]"
proof -
  let ?n = "unat (rb_size r)" and ?w = "rb_wridx r mod rb_size r"
  let ?r' = "r\<lparr>rb_buf := (rb_buf r)[unat ?w := x], rb_wridx := ?w + 1, rb_avail := rb_avail r - 1\<rparr>"
  have n0: "0 < ?n" and len: "?n \<le> length (rb_buf r)" and av: "unat (rb_avail r) \<le> ?n"
    and rd: "unat (rb_rdidx r) \<le> ?n"
    and wr: "unat (rb_wridx r) mod ?n = (unat (rb_rdidx r) + rb_used r) mod ?n"
    using inv by (auto simp: rb_inv_def)
  have av0: "rb_avail r \<noteq> 0" using rb_full_iff [OF inv] room by simp
  have uw: "unat ?w = (unat (rb_rdidx r) + rb_used r) mod ?n"
    by (simp add: unat_mod_u32 wr)
  have wn: "unat ?w < ?n" using n0 by (simp add: uw)
  have sz0: "rb_size r \<noteq> 0" using n0 by (metis unat_0 less_irrefl)
  have add: "rb_add (Some r) x = Some (0, Some ?r')"
    using av0 sz0 wn len by (simp add: rb_add_def rb_isfull_def Let_def arr_set_def)
  have used': "rb_used ?r' = Suc (rb_used r)"
  proof -
    have "0 < unat (rb_avail r)" using av0 by (simp add: unat_gt_0)
    with av show ?thesis by (simp add: rb_used_def unat_pred [OF av0])
  qed
  have uw1: "unat (?w + 1) = Suc (unat ?w)"
    by (rule unat_suc_le [OF wn])
  have inv': "rb_inv ?r'"
    unfolding rb_inv_def used'
    using n0 len av rd wn av0 by (auto simp: uw1 unat_pred uw mod_Suc_eq)
  have "rb_buf ?r' ! ((unat (rb_rdidx r) + i) mod ?n) =
      (if i = rb_used r then x else rb_buf r ! ((unat (rb_rdidx r) + i) mod ?n))"
    if "i \<le> rb_used r" for i
  proof -
    have in_buf: "(unat (rb_rdidx r) + rb_used r) mod ?n < length (rb_buf r)"
      using wn len by (simp add: uw)
    show ?thesis
      using that room mod_add_inj [of i ?n "rb_used r" "unat (rb_rdidx r)"] in_buf
      by (auto simp: uw nth_list_update)
  qed
  then have "rb_contents ?r' = rb_contents r @ [x]"
    by (auto simp: rb_contents_def used')
  with add inv' show ?thesis by auto
qed

lemma rb_add_full:
  assumes "rb_inv r" and "rb_used r = unat (rb_size r)"
  shows "rb_add (Some r) x = Some (-2, Some r)"
  using assms rb_full_iff [OF assms(1)] by (simp add: rb_add_def rb_isfull_def)

lemma rb_remove_ok:
  assumes inv: "rb_inv r" and ne: "0 < rb_used r"
  shows "\<exists>r'. rb_remove (Some r) True = Some (0, Some (hd (rb_contents r)), Some r') \<and> rb_inv r'
            \<and> rb_size r' = rb_size r \<and> rb_contents r' = tl (rb_contents r)"
proof -
  let ?n = "unat (rb_size r)" and ?i = "rb_rdidx r mod rb_size r"
  let ?r' = "r\<lparr>rb_rdidx := ?i + 1, rb_avail := rb_avail r + 1\<rparr>"
  have n0: "0 < ?n" and len: "?n \<le> length (rb_buf r)" and av: "unat (rb_avail r) \<le> ?n"
    and wd: "unat (rb_wridx r) \<le> ?n"
    and wr: "unat (rb_wridx r) mod ?n = (unat (rb_rdidx r) + rb_used r) mod ?n"
    using inv by (auto simp: rb_inv_def)
  have avn: "unat (rb_avail r) < ?n" using ne by (simp add: rb_used_def)
  then have ne': "rb_avail r \<noteq> rb_size r" by auto
  have ui: "unat ?i = unat (rb_rdidx r) mod ?n" by (simp add: unat_mod_u32)
  have ilt: "unat ?i < ?n" using n0 by (simp add: ui)
  have sz0: "rb_size r \<noteq> 0" using n0 by (metis unat_0 less_irrefl)
  have hd: "rb_buf r ! unat ?i = hd (rb_contents r)"
    using ne by (simp add: rb_contents_def ui hd_map upt_rec)
  have rem: "rb_remove (Some r) True = Some (0, Some (hd (rb_contents r)), Some ?r')"
    using ne' sz0 ilt len hd by (simp add: rb_remove_def rb_isempty_def Let_def arr_get_def)
  have ua: "unat (rb_avail r + 1) = Suc (unat (rb_avail r))" by (rule unat_suc_le [OF avn])
  have ui1: "unat (?i + 1) = Suc (unat ?i)" by (rule unat_suc_le [OF ilt])
  have used': "rb_used ?r' = rb_used r - 1" by (simp add: rb_used_def ua)
  have shift: "(unat (?i + 1) + k) mod ?n = (unat (rb_rdidx r) + Suc k) mod ?n" for k
  proof -
    have "Suc (unat (rb_rdidx r) mod ?n + k) mod ?n = Suc ((unat (rb_rdidx r) mod ?n + k) mod ?n) mod ?n"
      by (simp only: mod_Suc_eq)
    also have "\<dots> = Suc ((unat (rb_rdidx r) + k) mod ?n) mod ?n"
      by (simp only: mod_add_left_eq)
    finally show ?thesis by (simp add: ui1 ui mod_Suc_eq)
  qed
  have inv': "rb_inv ?r'"
    unfolding rb_inv_def used' using n0 len avn wd ilt wr ne shift [of "rb_used r - 1"]
    by (simp add: ua ui1)
  have "rb_contents ?r' = tl (rb_contents r)"
    using ne by (intro nth_equalityI)
      (auto simp: rb_contents_def used' shift nth_tl simp del: upt_Suc)
  with rem inv' show ?thesis by auto
qed

lemma rb_remove_empty:
  assumes "rb_inv r" and "rb_used r = 0"
  shows "rb_remove (Some r) ok = Some (-2, None, Some r)"
  using assms rb_empty_iff [OF assms(1)] by (simp add: rb_remove_def rb_isempty_def)

section \<open>The interface: a bounded first-in first-out queue\<close>

text \<open>
  What a client of the ring buffer relies on. \<open>add\<close> gives \<open>None\<close> for a full queue and
  \<open>remove\<close> for an empty one; \<open>push_all\<close> and \<open>pop_some\<close> are the loops over them.
\<close>

fun push_all :: "('q \<Rightarrow> 'a \<Rightarrow> 'q option) \<Rightarrow> 'q \<Rightarrow> 'a list \<Rightarrow> nat \<times> 'q" where
  "push_all add q [] = (0, q)"
| "push_all add q (x # xs) =
     (case add q x of None \<Rightarrow> (0, q)
      | Some q' \<Rightarrow> (case push_all add q' xs of (n, q'') \<Rightarrow> (Suc n, q'')))"

fun pop_some :: "('q \<Rightarrow> ('a \<times> 'q) option) \<Rightarrow> 'q \<Rightarrow> nat \<Rightarrow> 'a list \<times> 'q" where
  "pop_some rem q 0 = ([], q)"
| "pop_some rem q (Suc n) =
     (case rem q of None \<Rightarrow> ([], q)
      | Some (x, q') \<Rightarrow> (case pop_some rem q' n of (xs, q'') \<Rightarrow> (x # xs, q'')))"

locale bounded_fifo =
  fixes add :: "'q \<Rightarrow> 'a \<Rightarrow> 'q option"
    and rem :: "'q \<Rightarrow> ('a \<times> 'q) option"
    and contents :: "'q \<Rightarrow> 'a list"
    and cap :: "'q \<Rightarrow> nat"
    and inv :: "'q \<Rightarrow> bool"
  assumes bounded: "inv q \<Longrightarrow> length (contents q) \<le> cap q"
    and add_room: "inv q \<Longrightarrow> length (contents q) < cap q \<Longrightarrow>
      \<exists>q'. add q x = Some q' \<and> inv q' \<and> cap q' = cap q \<and> contents q' = contents q @ [x]"
    and add_full: "inv q \<Longrightarrow> length (contents q) = cap q \<Longrightarrow> add q x = None"
    and rem_some: "inv q \<Longrightarrow> contents q \<noteq> [] \<Longrightarrow>
      \<exists>q'. rem q = Some (hd (contents q), q') \<and> inv q' \<and> cap q' = cap q \<and> contents q' = tl (contents q)"
    and rem_none: "inv q \<Longrightarrow> contents q = [] \<Longrightarrow> rem q = None"
begin

lemma push_all_spec:
  assumes "inv q"
  shows "\<exists>q'. push_all add q xs = (min (length xs) (cap q - length (contents q)), q') \<and> inv q'
           \<and> cap q' = cap q
           \<and> contents q' = contents q @ take (cap q - length (contents q)) xs"
  using assms
proof (induction xs arbitrary: q)
  case Nil
  then show ?case by simp
next
  case (Cons x xs)
  show ?case
  proof (cases "length (contents q) < cap q")
    case True
    from add_room [OF Cons.prems True, of x] obtain q1 where q1:
      "add q x = Some q1" "inv q1" "cap q1 = cap q" "contents q1 = contents q @ [x]" by auto
    from Cons.IH [OF q1(2)] q1 obtain q2 where q2:
      "push_all add q1 xs = (min (length xs) (cap q - Suc (length (contents q))), q2)"
      "inv q2" "cap q2 = cap q"
      "contents q2 = (contents q @ [x]) @ take (cap q - Suc (length (contents q))) xs"
      by auto
    from True have "cap q - length (contents q) = Suc (cap q - Suc (length (contents q)))"
      by simp
    with q1 q2 show ?thesis by simp
  next
    case False
    with bounded [OF Cons.prems] have eq: "length (contents q) = cap q" by simp
    with add_full [OF Cons.prems eq] Cons.prems show ?thesis by simp
  qed
qed

lemma pop_some_spec:
  assumes "inv q"
  shows "\<exists>q'. pop_some rem q n = (take n (contents q), q') \<and> inv q' \<and> cap q' = cap q
           \<and> contents q' = drop n (contents q)"
  using assms
proof (induction n arbitrary: q)
  case 0
  then show ?case by simp
next
  case (Suc n)
  show ?case
  proof (cases "contents q = []")
    case True
    with rem_none [OF Suc.prems True] Suc.prems show ?thesis by simp
  next
    case False
    from rem_some [OF Suc.prems False] obtain q1 where q1:
      "rem q = Some (hd (contents q), q1)" "inv q1" "cap q1 = cap q" "contents q1 = tl (contents q)"
      by auto
    from Suc.IH [OF q1(2)] q1 obtain q2 where q2:
      "pop_some rem q1 n = (take n (tl (contents q)), q2)" "inv q2" "cap q2 = cap q"
      "contents q2 = drop n (tl (contents q))" by auto
    from False obtain y ys where "contents q = y # ys" by (cases "contents q") auto
    with q1 q2 show ?thesis by simp
  qed
qed

text \<open>What goes in comes out, in order, after what was there before.\<close>

lemma push_pop:
  assumes "inv q" and "push_all add q xs = (n, q1)"
  shows "n = min (length xs) (cap q - length (contents q)) \<and>
         (\<exists>q2. pop_some rem q1 k = (take k (contents q @ take n xs), q2) \<and> inv q2 \<and>
               contents q2 = drop k (contents q @ take n xs))"
proof -
  from push_all_spec [OF assms(1), of xs] assms(2) have *:
    "n = min (length xs) (cap q - length (contents q))" "inv q1"
    "contents q1 = contents q @ take (cap q - length (contents q)) xs"
    by auto
  have "take (cap q - length (contents q)) xs = take n xs" by (simp add: *(1) min_def)
  with * pop_some_spec [OF *(2), of k] show ?thesis by auto
qed

end

section \<open>The ring buffer provides it\<close>

definition rb_add_q :: "RINGBUFFER \<Rightarrow> u8 \<Rightarrow> RINGBUFFER option" where
  "rb_add_q r x = (case rb_add (Some r) x of Some (c, Some r') \<Rightarrow> if c = 0 then Some r' else None | _ \<Rightarrow> None)"

definition rb_rem_q :: "RINGBUFFER \<Rightarrow> (u8 \<times> RINGBUFFER) option" where
  "rb_rem_q r = (case rb_remove (Some r) True of Some (c, Some x, Some r') \<Rightarrow> Some (x, r') | _ \<Rightarrow> None)"

interpretation rbq: bounded_fifo rb_add_q rb_rem_q rb_contents rb_capacity rb_inv
proof unfold_locales
  fix q :: RINGBUFFER and x
  assume inv: "rb_inv q"
  show "length (rb_contents q) \<le> rb_capacity q"
    by (simp add: rb_capacity_def rb_used_le)
  show "\<exists>q'. rb_add_q q x = Some q' \<and> rb_inv q' \<and> rb_capacity q' = rb_capacity q
          \<and> rb_contents q' = rb_contents q @ [x]" if "length (rb_contents q) < rb_capacity q"
    using rb_add_ok [OF inv, of x] that by (auto simp: rb_add_q_def rb_capacity_def)
  show "rb_add_q q x = None" if "length (rb_contents q) = rb_capacity q"
    using rb_add_full [OF inv] that by (simp add: rb_add_q_def rb_capacity_def)
  show "\<exists>q'. rb_rem_q q = Some (hd (rb_contents q), q') \<and> rb_inv q' \<and> rb_capacity q' = rb_capacity q
          \<and> rb_contents q' = tl (rb_contents q)" if "rb_contents q \<noteq> []"
  proof -
    from that have "0 < rb_used q" by (metis length_rb_contents length_greater_0_conv)
    from rb_remove_ok [OF inv this] show ?thesis by (auto simp: rb_rem_q_def rb_capacity_def)
  qed
  show "rb_rem_q q = None" if "rb_contents q = []"
    using rb_remove_empty [OF inv] that length_rb_contents [of q] by (simp add: rb_rem_q_def)
qed

text \<open>The C loops are the loops of the interface.\<close>

lemma rb_add_total:
  assumes "rb_inv r"
  shows "(\<exists>r'. rb_add (Some r) x = Some (0, Some r') \<and> rb_add_q r x = Some r' \<and> rb_inv r')
       \<or> rb_add (Some r) x = Some (-2, Some r) \<and> rb_add_q r x = None"
proof (cases "rb_used r < unat (rb_size r)")
  case True
  with rb_add_ok [OF assms, of x] show ?thesis by (auto simp: rb_add_q_def)
next
  case False
  with rb_used_le [of r] rb_add_full [OF assms, of x] show ?thesis by (simp add: rb_add_q_def)
qed

lemma rb_push_eq:
  "rb_inv r \<Longrightarrow> rb_push (Some r) xs = (case push_all rb_add_q r xs of (n, r') \<Rightarrow> Some (n, Some r'))"
proof (induction xs arbitrary: r)
  case Nil
  then show ?case by simp
next
  case (Cons x xs)
  from rb_add_total [OF Cons.prems, of x] show ?case
    using Cons.IH by (auto split: prod.splits)
qed

lemma rb_remove_total:
  assumes "rb_inv r"
  shows "(\<exists>x r'. rb_remove (Some r) True = Some (0, Some x, Some r') \<and> rb_rem_q r = Some (x, r') \<and> rb_inv r')
       \<or> rb_remove (Some r) True = Some (-2, None, Some r) \<and> rb_rem_q r = None"
proof (cases "rb_used r = 0")
  case True
  with rb_remove_empty [OF assms True] show ?thesis by (simp add: rb_rem_q_def)
next
  case False
  with rb_remove_ok [OF assms] show ?thesis by (auto simp: rb_rem_q_def)
qed

lemma rb_pop_eq:
  "rb_inv r \<Longrightarrow> rb_pop (Some r) n = (case pop_some rb_rem_q r n of (xs, r') \<Rightarrow> Some (xs, Some r'))"
proof (induction n arbitrary: r)
  case 0
  then show ?case by simp
next
  case (Suc n)
  from rb_remove_total [OF Suc.prems] show ?case
    using Suc.IH by (auto split: prod.splits)
qed

lemma rb_init_inv:
  assumes "0 < item_cnt" and "unat item_cnt \<le> length b"
  shows "\<exists>r'. rb_init (Some r) (Some b) item_cnt = (0, Some r') \<and> rb_inv r' \<and> rb_contents r' = []
           \<and> rb_capacity r' = unat item_cnt"
  using assms by (auto simp: rb_init_def rb_inv_def rb_contents_def rb_used_def rb_capacity_def
      word_less_nat_alt)

section \<open>Properties\<close>

text \<open>C20. A ring buffer is a bounded FIFO queue. On a buffer in a consistent state, pushing a
  list of bytes always returns, stores exactly as many of them as there is room for, in order, and
  leaves the buffer consistent; popping \<open>k\<close> bytes afterwards returns the oldest bytes first,
  what was in the buffer before the push ahead of what was pushed, and leaves exactly the rest.\<close>

theorem rb_push_pop_fifo:
  assumes "rb_inv r"
  shows "\<exists>n r1 r2. rb_push (Some r) xs = Some (n, Some r1)
           \<and> n = min (length xs) (rb_capacity r - length (rb_contents r))
           \<and> rb_inv r1 \<and> rb_capacity r1 = rb_capacity r
           \<and> rb_contents r1 = rb_contents r @ take n xs
           \<and> rb_pop (Some r1) k = Some (take k (rb_contents r @ take n xs), Some r2)
           \<and> rb_inv r2 \<and> rb_contents r2 = drop k (rb_contents r @ take n xs)"
proof -
  obtain n r1 where push: "push_all rb_add_q r xs = (n, r1)" by fastforce
  from rbq.push_all_spec [OF assms, of xs] push have r1: "rb_inv r1" "rb_capacity r1 = rb_capacity r"
      "rb_contents r1 = rb_contents r @ take (rb_capacity r - length (rb_contents r)) xs"
    by auto
  from rbq.push_pop [OF assms push, of k] obtain r2 where
    n: "n = min (length xs) (rb_capacity r - length (rb_contents r))" and
    r2: "pop_some rb_rem_q r1 k = (take k (rb_contents r @ take n xs), r2)" "rb_inv r2"
      "rb_contents r2 = drop k (rb_contents r @ take n xs)" by auto
  from n have "take (rb_capacity r - length (rb_contents r)) xs = take n xs" by (simp add: min_def)
  with r1 n r2 push rb_push_eq [OF assms, of xs] rb_pop_eq [OF r1(1), of k] show ?thesis by auto
qed

definition demo_rb :: RINGBUFFER where
  "demo_rb = the (snd (rb_init (Some \<lparr>rb_buf = [], rb_wridx = 0, rb_rdidx = 0, rb_avail = 0, rb_size = 0\<rparr>)
                               (Some [0, 0, 0]) 3))"

theorem rb_push_pop_fifo_witness:
  "\<exists>n r1 r2. rb_push (Some demo_rb) [7, 8, 9, 10] = Some (n, Some r1) \<and> n = 3
       \<and> rb_contents r1 = [7, 8, 9] \<and> rb_pop (Some r1) 2 = Some ([7, 8], Some r2) \<and> rb_contents r2 = [9]"
proof -
  have inv: "rb_inv demo_rb" and c: "rb_contents demo_rb = []" "rb_capacity demo_rb = 3"
    using rb_init_inv [of 3 "[0, 0, 0]" "\<lparr>rb_buf = [], rb_wridx = 0, rb_rdidx = 0, rb_avail = 0, rb_size = 0\<rparr>"]
    by (auto simp: demo_rb_def)
  from rb_push_pop_fifo [OF inv, of "[7, 8, 9, 10]" 2] c show ?thesis by (auto simp: numeral_eq_Suc)
qed

end
