(* ===== verification/Arc_Core.thy ===== *)
theory Arc_Core
  imports Emb_Prelude
begin

text \<open>
  The ARC core as the C code sees it: the auxiliary registers behind \<open>lr\<close> and \<open>sr\<close>
  (\<open>arc_aux_read\<close> and \<open>arc_aux_write\<close> of \<open>include/arc/arc_builtin.h\<close>), the interrupt
  registers that \<open>AUX_IRQ_SELECT\<close> selects, the memory, and the inline helpers of
  \<open>include/arc/arc_exception.h\<close> that are built from them; and the layout of the register
  frames that an exception leaves on the stack.

  A build of the platform fixes a number of parameters at compile time; they are the
  fields of \<open>build\<close>, and every definition that depends on one takes the build as its
  first argument.
\<close>

section \<open>Build parameters\<close>

record build =
  num_exc_int :: nat          \<comment> \<open>\<open>NUM_EXC_INT\<close>\<close>
  int_pri_min :: int          \<comment> \<open>\<open>INT_PRI_MIN\<close>, negative\<close>
  mpu_version :: nat          \<comment> \<open>\<open>ARC_FEATURE_MPU_VERSION\<close>: 2, 3 or 4\<close>
  mpu_regions :: nat          \<comment> \<open>\<open>ARC_FEATURE_MPU_REGIONS\<close>\<close>
  secureshield_version :: nat \<comment> \<open>\<open>SECURESHIELD_VERSION\<close>: 1, 2, or 0 when it is not defined\<close>
  feat_sec :: bool            \<comment> \<open>\<open>ARC_FEATURE_SEC_PRESENT\<close>\<close>
  feat_acc :: bool            \<comment> \<open>the frame has \<open>r58\<close> and \<open>r59\<close>\<close>
  feat_rf16 :: bool           \<comment> \<open>\<open>ARC_FEATURE_RF16\<close>\<close>
  feat_code_density :: bool   \<comment> \<open>\<open>ARC_FEATURE_CODE_DENSITY\<close>\<close>
  feat_fpu_dsp_ctx :: bool    \<comment> \<open>\<open>ARC_FEATURE_FPU_DSP_CONTEXT\<close>\<close>
  feat_dsp :: bool
  feat_dsp_complex :: bool
  feat_fpu :: bool
  feat_fpu_da :: bool
  feat_extra_callee :: bool   \<comment> \<open>\<open>ARC_ENABLE_EXTRA_CALLEE\<close>\<close>

abbreviation (input) NUM_EXC_CPU :: nat where "NUM_EXC_CPU \<equiv> 16"

abbreviation NUM_EXC_ALL :: "'b build_scheme \<Rightarrow> nat" where
  "NUM_EXC_ALL b \<equiv> NUM_EXC_CPU + num_exc_int b"

abbreviation (input) INT_PRI_MAX :: int where "INT_PRI_MAX \<equiv> -1"

section \<open>Auxiliary register addresses\<close>

abbreviation (input) "AUX_STATUS32 \<equiv> (0xa :: u32)"
abbreviation (input) "AUX_USER_SP \<equiv> (0xd :: u32)"
abbreviation (input) "AUX_IRQ_CTRL \<equiv> (0xe :: u32)"
abbreviation (input) "AUX_INT_VECT_BASE \<equiv> (0x25 :: u32)"
abbreviation (input) "AUX_INT_VECT_BASE_S \<equiv> (0x26 :: u32)"
abbreviation (input) "AUX_KERNEL_SP \<equiv> (0x38 :: u32)"
abbreviation (input) "AUX_SEC_K_SP \<equiv> (0x3a :: u32)"
abbreviation (input) "AUX_IRQ_ACT \<equiv> (0x43 :: u32)"
abbreviation (input) "AUX_IRQ_HINT \<equiv> (0x201 :: u32)"
abbreviation (input) "AUX_IRQ_PRIORITY \<equiv> (0x206 :: u32)"
abbreviation (input) "AUX_NSC_TABLE_TOP \<equiv> (0x268 :: u32)"
abbreviation (input) "AUX_NSC_TABLE_BASE \<equiv> (0x269 :: u32)"
abbreviation (input) "AUX_ERRET \<equiv> (0x400 :: u32)"
abbreviation (input) "AUX_ERSTATUS \<equiv> (0x402 :: u32)"
abbreviation (input) "AUX_ECR \<equiv> (0x403 :: u32)"
abbreviation (input) "AUX_EFA \<equiv> (0x404 :: u32)"
abbreviation (input) "AUX_SEC_EXCEPT \<equiv> (0x407 :: u32)"
abbreviation (input) "AUX_MPU_EN \<equiv> (0x409 :: u32)"
abbreviation (input) "AUX_IRQ_CAUSE \<equiv> (0x40a :: u32)"
abbreviation (input) "AUX_IRQ_SELECT \<equiv> (0x40b :: u32)"
abbreviation (input) "AUX_IRQ_ENABLE \<equiv> (0x40c :: u32)"
abbreviation (input) "AUX_IRQ_TRIGGER \<equiv> (0x40d :: u32)"
abbreviation (input) "AUX_IRQ_STATUS \<equiv> (0x40f :: u32)"
abbreviation (input) "AUX_IRQ_PLUSE_CLR \<equiv> (0x415 :: u32)"
abbreviation (input) "AUX_IRQ_PENDING \<equiv> (0x416 :: u32)"
abbreviation (input) "AUX_MPU_RDB0 \<equiv> (0x422 :: u32)"
abbreviation (input) "AUX_MPU_RDP0 \<equiv> (0x423 :: u32)"
abbreviation (input) "AUX_MPU_INDEX \<equiv> (0x448 :: u32)"
abbreviation (input) "AUX_MPU_RSTART \<equiv> (0x449 :: u32)"
abbreviation (input) "AUX_MPU_REND \<equiv> (0x44a :: u32)"
abbreviation (input) "AUX_MPU_RPER \<equiv> (0x44b :: u32)"
abbreviation (input) "AUX_MPU_PROBE \<equiv> (0x44c :: u32)"

abbreviation (input) "AUX_STATUS_MASK_U \<equiv> (0x80 :: u32)"
abbreviation (input) "AUX_STATUS_MASK_US \<equiv> (0x100000 :: u32)"
abbreviation (input) "AUX_STATUS_MASK_IE \<equiv> (0x80000000 :: u32)"
abbreviation (input) "AUX_IRQ_PRIORITY_MASK_S \<equiv> (0x100 :: u32)"

section \<open>The core's state\<close>

text \<open>
  \<open>irq_bank i r\<close> is the register \<open>r\<close> of interrupt \<open>i\<close>, reached through \<open>AUX_IRQ_SELECT\<close>;
  \<open>mpu_bank i r\<close> is the register \<open>r\<close> of entry \<open>i\<close> of a version 4 memory protection unit,
  reached through \<open>AUX_MPU_INDEX\<close>. \<open>sr\<close> cannot write \<open>AUX_STATUS32\<close>. \<open>sr_log\<close> is the
  history of the writes, latest first: some registers are commands, whose value is not kept
  (an invalidated cache line), and the history is what their writes leave behind.
\<close>

record arc_core =
  aux_regs :: "u32 \<Rightarrow> u32"
  irq_bank :: "u32 \<Rightarrow> u32 \<Rightarrow> u32"
  mpu_bank :: "u32 \<Rightarrow> u32 \<Rightarrow> u32"
  memory :: mem
  sr_log :: "(u32 \<times> u32) list"

definition irq_banked :: "u32 \<Rightarrow> bool" where
  "irq_banked r \<longleftrightarrow> r \<in> {AUX_IRQ_PRIORITY, AUX_IRQ_ENABLE, AUX_IRQ_TRIGGER, AUX_IRQ_STATUS,
     AUX_IRQ_PLUSE_CLR, AUX_IRQ_PENDING}"

definition mpu_banked :: "u32 \<Rightarrow> bool" where
  "mpu_banked r \<longleftrightarrow> r \<in> {AUX_MPU_RSTART, AUX_MPU_REND, AUX_MPU_RPER}"

definition arc_aux_read :: "'a arc_core_scheme \<Rightarrow> u32 \<Rightarrow> u32" where
  "arc_aux_read s r =
     (if irq_banked r then irq_bank s (aux_regs s AUX_IRQ_SELECT) r
      else if mpu_banked r then mpu_bank s (aux_regs s AUX_MPU_INDEX) r
      else aux_regs s r)"

definition arc_aux_write :: "u32 \<Rightarrow> u32 \<Rightarrow> 'a arc_core_scheme \<Rightarrow> 'a arc_core_scheme" where
  "arc_aux_write r v s =
     (let s = s\<lparr>sr_log := (r, v) # sr_log s\<rparr> in
      if r = AUX_STATUS32 then s
      else if irq_banked r then
        s\<lparr>irq_bank := (irq_bank s)(aux_regs s AUX_IRQ_SELECT :=
             (irq_bank s (aux_regs s AUX_IRQ_SELECT))(r := v))\<rparr>
      else if mpu_banked r then
        s\<lparr>mpu_bank := (mpu_bank s)(aux_regs s AUX_MPU_INDEX :=
             (mpu_bank s (aux_regs s AUX_MPU_INDEX))(r := v))\<rparr>
      else s\<lparr>aux_regs := (aux_regs s)(r := v)\<rparr>)"

text \<open>A small build and a core with all registers and all memory zero, to evaluate definitions on.\<close>

definition demo_build :: build where
  "demo_build = \<lparr>num_exc_int = 4, int_pri_min = -2, mpu_version = 2, mpu_regions = 8,
     secureshield_version = 1, feat_sec = False, feat_acc = False, feat_rf16 = True, feat_code_density = False,
     feat_fpu_dsp_ctx = False, feat_dsp = False, feat_dsp_complex = False, feat_fpu = False,
     feat_fpu_da = False, feat_extra_callee = True\<rparr>"

definition core_zero :: arc_core where
  "core_zero = \<lparr>aux_regs = \<lambda>_. 0, irq_bank = \<lambda>_ _. 0, mpu_bank = \<lambda>_ _. 0, memory = \<lambda>_. 0,
     sr_log = []\<rparr>"

text \<open>\<open>kflag\<close> writes the status register, which \<open>sr\<close> cannot.\<close>

definition arc_kflag :: "u32 \<Rightarrow> 'a arc_core_scheme \<Rightarrow> 'a arc_core_scheme" where
  "arc_kflag v s = s\<lparr>aux_regs := (aux_regs s)(AUX_STATUS32 := v)\<rparr>"

text \<open>
  \<open>clri\<close> returns the enable bit and the priority mask of the status register, with bit 5
  set, and clears the enable bit; \<open>seti\<close> puts back what such a key holds, or, without
  bit 5, only sets the enable bit (and the mask when bit 4 is set).
\<close>

definition arc_clri :: "'a arc_core_scheme \<Rightarrow> u32 \<times> 'a arc_core_scheme" where
  "arc_clri s =
     (let st = aux_regs s AUX_STATUS32 in
      (0x20 OR push_bit 4 (drop_bit 31 st) OR (drop_bit 1 st AND 0xf),
       arc_kflag (st AND NOT AUX_STATUS_MASK_IE) s))"

definition arc_seti :: "u32 \<Rightarrow> 'a arc_core_scheme \<Rightarrow> 'a arc_core_scheme" where
  "arc_seti key s =
     (let st = aux_regs s AUX_STATUS32;
          e = push_bit 1 (key AND 0xf);
          st_e = (st AND NOT 0x1e) OR e
      in if bit key 5
         then arc_kflag ((st_e AND NOT AUX_STATUS_MASK_IE) OR push_bit 31 (drop_bit 4 key AND 1)) s
         else arc_kflag ((if bit key 4 then st_e else st) OR AUX_STATUS_MASK_IE) s)"

section \<open>The inline interrupt helpers\<close>

definition arc_int_disable :: "u32 \<Rightarrow> 'a arc_core_scheme \<Rightarrow> 'a arc_core_scheme" where
  "arc_int_disable intno s =
     arc_aux_write AUX_IRQ_ENABLE 0 (arc_aux_write AUX_IRQ_SELECT intno s)"

definition arc_int_enable :: "u32 \<Rightarrow> 'a arc_core_scheme \<Rightarrow> 'a arc_core_scheme" where
  "arc_int_enable intno s =
     arc_aux_write AUX_IRQ_ENABLE 1 (arc_aux_write AUX_IRQ_SELECT intno s)"

definition arc_int_enabled :: "u32 \<Rightarrow> 'a arc_core_scheme \<Rightarrow> u32 \<times> 'a arc_core_scheme" where
  "arc_int_enabled intno s =
     (let s' = arc_aux_write AUX_IRQ_SELECT intno s in (arc_aux_read s' AUX_IRQ_ENABLE, s'))"

definition arc_int_ipm_get :: "'a arc_core_scheme \<Rightarrow> u32" where
  "arc_int_ipm_get s = drop_bit 1 (arc_aux_read s AUX_STATUS32) AND 0x0f"

definition arc_int_ipm_set :: "u32 \<Rightarrow> 'a arc_core_scheme \<Rightarrow> 'a arc_core_scheme" where
  "arc_int_ipm_set intpri s =
     (let status = arc_aux_read s AUX_STATUS32 AND NOT 0x1e;
          status = status OR (push_bit 1 intpri AND 0x1e)
      in arc_kflag status s)"

definition arc_int_pri_get :: "u32 \<Rightarrow> 'a arc_core_scheme \<Rightarrow> u32 \<times> 'a arc_core_scheme" where
  "arc_int_pri_get intno s =
     (let s' = arc_aux_write AUX_IRQ_SELECT intno s in (arc_aux_read s' AUX_IRQ_PRIORITY AND 0xf, s'))"

definition arc_int_pri_set :: "u32 \<Rightarrow> u32 \<Rightarrow> 'a arc_core_scheme \<Rightarrow> 'a arc_core_scheme" where
  "arc_int_pri_set intno intpri s =
     (let s' = arc_aux_write AUX_IRQ_SELECT intno s in
      arc_aux_write AUX_IRQ_PRIORITY (intpri OR (arc_aux_read s' AUX_IRQ_PRIORITY AND 0xfffffff0)) s')"

definition arc_int_secure_set :: "u32 \<Rightarrow> u32 \<Rightarrow> 'a arc_core_scheme \<Rightarrow> 'a arc_core_scheme" where
  "arc_int_secure_set intno secure s =
     (let s' = arc_aux_write AUX_IRQ_SELECT intno s in
      if secure \<noteq> 0
      then arc_aux_write AUX_IRQ_PRIORITY (arc_aux_read s' AUX_IRQ_PRIORITY OR AUX_IRQ_PRIORITY_MASK_S) s'
      else arc_aux_write AUX_IRQ_PRIORITY (arc_aux_read s' AUX_IRQ_PRIORITY AND 0xf) s')"

definition arc_int_probe :: "u32 \<Rightarrow> 'a arc_core_scheme \<Rightarrow> u32 \<times> 'a arc_core_scheme" where
  "arc_int_probe intno s =
     (let s' = arc_aux_write AUX_IRQ_SELECT intno s in (arc_aux_read s' AUX_IRQ_PENDING, s'))"

definition arc_int_sw_trigger :: "u32 \<Rightarrow> 'a arc_core_scheme \<Rightarrow> 'a arc_core_scheme" where
  "arc_int_sw_trigger intno s = arc_aux_write AUX_IRQ_HINT intno s"

definition arc_int_level_config :: "u32 \<Rightarrow> u32 \<Rightarrow> 'a arc_core_scheme \<Rightarrow> 'a arc_core_scheme" where
  "arc_int_level_config intno level s =
     arc_aux_write AUX_IRQ_TRIGGER level (arc_aux_write AUX_IRQ_SELECT intno s)"

definition arc_lock :: "'a arc_core_scheme \<Rightarrow> 'a arc_core_scheme" where
  "arc_lock s = snd (arc_clri s)"

definition arc_unlock :: "'a arc_core_scheme \<Rightarrow> 'a arc_core_scheme" where
  "arc_unlock s = arc_seti 0 s"

definition arc_lock_save :: "'a arc_core_scheme \<Rightarrow> u32 \<times> 'a arc_core_scheme" where
  "arc_lock_save s = arc_clri s"

definition arc_unlock_restore :: "u32 \<Rightarrow> 'a arc_core_scheme \<Rightarrow> 'a arc_core_scheme" where
  "arc_unlock_restore status s = arc_seti status s"

definition arc_locked :: "'a arc_core_scheme \<Rightarrow> bool" where
  "arc_locked s \<longleftrightarrow> arc_aux_read s AUX_STATUS32 AND AUX_STATUS_MASK_IE = 0"

definition arc_int_active :: "'a arc_core_scheme \<Rightarrow> bool" where
  "arc_int_active s \<longleftrightarrow> arc_aux_read s AUX_IRQ_ACT \<noteq> 0"

definition arc_find_msb :: "u32 \<Rightarrow> nat" where
  "arc_find_msb val = bit_length (unat val)"

section \<open>Laws of the register file\<close>

lemmas aux_defs = Let_def arc_aux_read_def arc_aux_write_def irq_banked_def mpu_banked_def

lemma memory_aux_write [simp]: "memory (arc_aux_write r v s) = memory s"
  by (simp add: arc_aux_write_def Let_def)

lemma sr_log_aux_write [simp]: "sr_log (arc_aux_write r v s) = (r, v) # sr_log s"
  by (simp add: arc_aux_write_def Let_def)

lemma arc_aux_write_more [simp]: "arc_core.more (arc_aux_write r v s) = arc_core.more s"
  by (simp add: arc_aux_write_def Let_def)

lemma arc_kflag_more [simp]: "arc_core.more (arc_kflag v s) = arc_core.more s"
  by (simp add: arc_kflag_def)

lemma aux_regs_aux_write:
  "aux_regs (arc_aux_write r v s) =
     (if r = AUX_STATUS32 \<or> irq_banked r \<or> mpu_banked r then aux_regs s else (aux_regs s)(r := v))"
  by (simp add: arc_aux_write_def Let_def)

lemma irq_bank_aux_write:
  "irq_bank (arc_aux_write r v s) =
     (if irq_banked r then (irq_bank s)(aux_regs s AUX_IRQ_SELECT :=
        (irq_bank s (aux_regs s AUX_IRQ_SELECT))(r := v)) else irq_bank s)"
  by (auto simp: arc_aux_write_def Let_def irq_banked_def)

lemma mpu_bank_aux_write:
  "mpu_bank (arc_aux_write r v s) =
     (if mpu_banked r then (mpu_bank s)(aux_regs s AUX_MPU_INDEX :=
        (mpu_bank s (aux_regs s AUX_MPU_INDEX))(r := v)) else mpu_bank s)"
  by (auto simp: arc_aux_write_def Let_def irq_banked_def mpu_banked_def)

lemma kflag_fields [simp]:
  "aux_regs (arc_kflag v s) = (aux_regs s)(AUX_STATUS32 := v)" "irq_bank (arc_kflag v s) = irq_bank s"
  "mpu_bank (arc_kflag v s) = mpu_bank s" "memory (arc_kflag v s) = memory s"
  "sr_log (arc_kflag v s) = sr_log s"
  by (simp_all add: arc_kflag_def)

lemmas aux_write_simps = aux_regs_aux_write irq_bank_aux_write mpu_bank_aux_write
  irq_banked_def mpu_banked_def

text \<open>An interrupt's own registers, after a helper has touched interrupt \<open>intno\<close>.\<close>

lemma irq_bank_select [simp]: "irq_bank (arc_aux_write AUX_IRQ_SELECT i s) = irq_bank s"
  by (simp add: aux_defs)

lemma aux_regs_select [simp]:
  "aux_regs (arc_aux_write AUX_IRQ_SELECT i s) = (aux_regs s)(AUX_IRQ_SELECT := i)"
  by (simp add: aux_defs)

lemma irq_bank_write:
  assumes "irq_banked r"
  shows "irq_bank (arc_aux_write r v s) =
    (irq_bank s)(aux_regs s AUX_IRQ_SELECT := (irq_bank s (aux_regs s AUX_IRQ_SELECT))(r := v))"
  using assms by (auto simp: aux_defs)

lemma irq_banked_simps [simp]:
  "irq_banked AUX_IRQ_PRIORITY" "irq_banked AUX_IRQ_ENABLE" "irq_banked AUX_IRQ_TRIGGER"
  "irq_banked AUX_IRQ_PENDING" "irq_banked AUX_IRQ_STATUS" "irq_banked AUX_IRQ_PLUSE_CLR"
  by (simp_all add: irq_banked_def)

lemma arc_aux_read_banked:
  "irq_banked r \<Longrightarrow> arc_aux_read s r = irq_bank s (aux_regs s AUX_IRQ_SELECT) r"
  by (simp add: arc_aux_read_def)

lemma irq_bank_int_enable:
  "irq_bank (arc_int_enable i s) = (irq_bank s)(i := (irq_bank s i)(AUX_IRQ_ENABLE := 1))"
  by (simp add: arc_int_enable_def irq_bank_write)

lemma irq_bank_int_disable:
  "irq_bank (arc_int_disable i s) = (irq_bank s)(i := (irq_bank s i)(AUX_IRQ_ENABLE := 0))"
  by (simp add: arc_int_disable_def irq_bank_write)

lemma irq_bank_int_pri_set:
  "irq_bank (arc_int_pri_set i p s) =
     (irq_bank s)(i := (irq_bank s i)(AUX_IRQ_PRIORITY :=
        p OR (irq_bank s i AUX_IRQ_PRIORITY AND 0xfffffff0)))"
  by (simp add: arc_int_pri_set_def Let_def irq_bank_write arc_aux_read_banked)

lemma irq_bank_int_level_config:
  "irq_bank (arc_int_level_config i l s) = (irq_bank s)(i := (irq_bank s i)(AUX_IRQ_TRIGGER := l))"
  by (simp add: arc_int_level_config_def irq_bank_write)

lemma irq_bank_int_secure_set:
  "irq_bank (arc_int_secure_set i sec s) =
     (irq_bank s)(i := (irq_bank s i)(AUX_IRQ_PRIORITY :=
        (if sec \<noteq> 0 then irq_bank s i AUX_IRQ_PRIORITY OR AUX_IRQ_PRIORITY_MASK_S
         else irq_bank s i AUX_IRQ_PRIORITY AND 0xf)))"
  by (simp add: arc_int_secure_set_def Let_def irq_bank_write arc_aux_read_banked)

lemma irq_bank_int_sw_trigger [simp]: "irq_bank (arc_int_sw_trigger i s) = irq_bank s"
  by (simp add: arc_int_sw_trigger_def aux_defs)

lemma irq_bank_int_probe: "fst (arc_int_probe i s) = irq_bank s i AUX_IRQ_PENDING"
  by (simp add: arc_int_probe_def Let_def arc_aux_read_banked)

lemma fst_arc_int_pri_get: "fst (arc_int_pri_get i s) = irq_bank s i AUX_IRQ_PRIORITY AND 0xf"
  by (simp add: arc_int_pri_get_def Let_def arc_aux_read_banked)

lemma fst_arc_int_enabled: "fst (arc_int_enabled i s) = irq_bank s i AUX_IRQ_ENABLE"
  by (simp add: arc_int_enabled_def Let_def arc_aux_read_banked)

text \<open>Locking and unlocking with the saved key puts the status register back.\<close>

lemma status_mask_bits:
  "bit (0x1e :: u32) n \<longleftrightarrow> 1 \<le> n \<and> n < 5"
  "bit (0xf :: u32) n \<longleftrightarrow> n < 4"
  "bit (0x20 :: u32) n \<longleftrightarrow> n = 5"
  "bit (0x80000000 :: u32) n \<longleftrightarrow> n = 31"
proof -
  have eqs: "(0x1e :: u32) = push_bit 1 (mask 4)" "(0xf :: u32) = mask 4"
    "(0x20 :: u32) = push_bit 5 (mask 1)" "(0x80000000 :: u32) = push_bit 31 (mask 1)"
    by (simp_all add: mask_eq_exp_minus_1 push_bit_eq_mult)
  show "bit (0x1e :: u32) n \<longleftrightarrow> 1 \<le> n \<and> n < 5" "bit (0xf :: u32) n \<longleftrightarrow> n < 4"
    "bit (0x20 :: u32) n \<longleftrightarrow> n = 5" "bit (0x80000000 :: u32) n \<longleftrightarrow> n = 31"
    unfolding eqs by (simp only: bit_push_bit_iff bit_mask_iff possible_bit_word; auto)+
qed

lemma key_status_bits:
  fixes st :: u32
  defines "key \<equiv> 0x20 OR push_bit 4 (drop_bit 31 st) OR (drop_bit 1 st AND 0xf)"
  shows "((((st AND NOT 0x80000000) AND NOT 0x1e) OR push_bit 1 (key AND 0xf)) AND NOT 0x80000000)
     OR push_bit 31 (drop_bit 4 key AND 1) = st" (is "?l = st")
proof (rule bit_word_eqI)
  fix n assume n: "n < LENGTH(32)"
  have key_bit: "bit key m \<longleftrightarrow> m = 5 \<or> (4 \<le> m \<and> bit st (31 + (m - 4))) \<or> (m < 4 \<and> bit st (m + 1))"
    if "m < 32" for m
    using that unfolding key_def
    by (auto simp: bit_or_iff bit_and_iff bit_push_bit_iff bit_drop_bit_eq status_mask_bits
        simp del: bit_numeral_word_iff)
  show "bit ?l n = bit st n"
    using n by (simp only: bit_or_iff bit_and_iff bit_not_iff bit_push_bit_iff bit_drop_bit_eq
        bit_1_iff status_mask_bits possible_bit_word comp_def)
      (cases "n = 31"; auto simp: key_bit)
qed

lemma lock_restore_status:
  assumes "arc_lock_save s = (key, s')" and "aux_regs s'' AUX_STATUS32 = aux_regs s' AUX_STATUS32"
  shows "aux_regs (arc_unlock_restore key s'') AUX_STATUS32 = aux_regs s AUX_STATUS32"
proof -
  let ?st = "aux_regs s AUX_STATUS32"
  have key: "key = 0x20 OR push_bit 4 (drop_bit 31 ?st) OR (drop_bit 1 ?st AND 0xf)"
    and st': "aux_regs s' AUX_STATUS32 = ?st AND NOT AUX_STATUS_MASK_IE"
    using assms(1) by (auto simp: arc_lock_save_def arc_clri_def Let_def arc_kflag_def)
  have k5: "bit key 5"
    unfolding key by (simp add: bit_or_iff status_mask_bits del: bit_numeral_word_iff)
  show ?thesis
    using k5 key_status_bits [of ?st]
    by (simp add: arc_unlock_restore_def arc_seti_def Let_def arc_kflag_def assms(2) st' key)
qed

end
