(* ===== verification/Arc_Cache.thy ===== *)
theory Arc_Cache
  imports Arc_Core
begin

text \<open>
  The cache driver, \<open>arc/arc_cache.c\<close> and \<open>include/arc/arc_cache.h\<close>, for a core without a
  second level cache. A cache command is a write to an auxiliary register, so what an
  operation does to the cache is what it adds to \<open>sr_log\<close>.

  The code waits for a data cache command by reading \<open>AUX_DC_CTRL\<close> until the flush status is
  clear. When that happens is hardware: the parameter \<open>busy\<close> says, for the command register
  and the value written, whether the n-th read still finds the status set. The waiting loop
  and the loops over the lines of a range may run forever, so they are partial functions
  with the result \<open>None\<close> when they do.
\<close>

abbreviation (input) "AUX_BCR_D_CACHE \<equiv> (0x72 :: u32)"
abbreviation (input) "AUX_BCR_I_CACHE \<equiv> (0x77 :: u32)"
abbreviation (input) "AUX_IC_IVIC \<equiv> (0x10 :: u32)"
abbreviation (input) "AUX_IC_CTRL \<equiv> (0x11 :: u32)"
abbreviation (input) "AUX_IC_LIL \<equiv> (0x13 :: u32)"
abbreviation (input) "AUX_IC_IVIL \<equiv> (0x19 :: u32)"
abbreviation (input) "AUX_IC_RAM_ADDR \<equiv> (0x1a :: u32)"
abbreviation (input) "AUX_IC_TAG \<equiv> (0x1b :: u32)"
abbreviation (input) "AUX_IC_DATA \<equiv> (0x1d :: u32)"
abbreviation (input) "AUX_DC_IVDC \<equiv> (0x47 :: u32)"
abbreviation (input) "AUX_DC_CTRL \<equiv> (0x48 :: u32)"
abbreviation (input) "AUX_DC_LDL \<equiv> (0x49 :: u32)"
abbreviation (input) "AUX_DC_IVDL \<equiv> (0x4a :: u32)"
abbreviation (input) "AUX_DC_FLSH \<equiv> (0x4b :: u32)"
abbreviation (input) "AUX_DC_FLDL \<equiv> (0x4c :: u32)"
abbreviation (input) "AUX_DC_RAM_ADDR \<equiv> (0x58 :: u32)"
abbreviation (input) "AUX_DC_TAG \<equiv> (0x59 :: u32)"
abbreviation (input) "AUX_DC_DATA \<equiv> (0x5b :: u32)"
abbreviation (input) "IC_CTRL_IC_ENABLE \<equiv> (0x0 :: u32)"
abbreviation (input) "IC_CTRL_IC_DISABLE \<equiv> (0x1 :: u32)"
abbreviation (input) "IC_CTRL_INDIRECT_ACCESS \<equiv> (0x20 :: u32)"
abbreviation (input) "IC_CTRL_OP_SUCCEEDED \<equiv> (0x8 :: u32)"
abbreviation (input) "DC_CTRL_DC_DISABLE \<equiv> (0x1 :: u32)"
abbreviation (input) "DC_CTRL_INVALID_FLUSH \<equiv> (0x40 :: u32)"
abbreviation (input) "DC_CTRL_DISABLE_FLUSH_LOCKED \<equiv> (0x0 :: u32)"
abbreviation (input) "DC_CTRL_INDIRECT_ACCESS \<equiv> (0x20 :: u32)"
abbreviation (input) "DC_CTRL_OP_SUCCEEDED \<equiv> (0x4 :: u32)"

type_synonym dc_busy = "u32 \<Rightarrow> u32 \<Rightarrow> nat \<Rightarrow> bool"

record cache_config =
  cfg_ver :: u32
  cfg_assoc :: u32
  cfg_line :: u32
  cfg_capacity :: u32

record cache_core = arc_core +
  icache_config :: cache_config
  dcache_config :: cache_config

section \<open>Operations on one line or on the whole cache\<close>

partial_function (option) wait_flush :: "(nat \<Rightarrow> bool) \<Rightarrow> nat \<Rightarrow> nat option" where
  "wait_flush busy n = (if busy n then wait_flush busy (n + 1) else Some n)"

definition dc_command :: "dc_busy \<Rightarrow> u32 \<Rightarrow> u32 \<Rightarrow> 'a arc_core_scheme \<Rightarrow> 'a arc_core_scheme option" where
  "dc_command busy cmd v s =
     (case wait_flush (busy cmd v) 0 of None \<Rightarrow> None | Some _ \<Rightarrow> Some (arc_aux_write cmd v s))"

definition dcache_available :: "'a arc_core_scheme \<Rightarrow> bool" where
  "dcache_available s \<longleftrightarrow> arc_aux_read s AUX_BCR_D_CACHE AND 0xF \<noteq> 0"

definition icache_available :: "'a arc_core_scheme \<Rightarrow> bool" where
  "icache_available s \<longleftrightarrow> arc_aux_read s AUX_BCR_I_CACHE AND 0xF \<noteq> 0"

definition icache_enable :: "u32 \<Rightarrow> 'a arc_core_scheme \<Rightarrow> 'a arc_core_scheme" where
  "icache_enable icache_en_mask s =
     (if \<not> icache_available s then s else arc_aux_write AUX_IC_CTRL icache_en_mask s)"

definition icache_enabled :: "'a arc_core_scheme \<Rightarrow> bool" where
  "icache_enabled s \<longleftrightarrow> arc_aux_read s AUX_IC_CTRL AND IC_CTRL_IC_DISABLE = 0"

definition icache_disable :: "'a arc_core_scheme \<Rightarrow> 'a arc_core_scheme" where
  "icache_disable s = arc_aux_write AUX_IC_CTRL IC_CTRL_IC_DISABLE s"

definition icache_invalidate :: "'a arc_core_scheme \<Rightarrow> 'a arc_core_scheme" where
  "icache_invalidate s = arc_aux_write AUX_IC_IVIC 0 s"

definition icache_invalidate_line :: "u32 \<Rightarrow> 'a arc_core_scheme \<Rightarrow> 'a arc_core_scheme" where
  "icache_invalidate_line address s = arc_aux_write AUX_IC_IVIL address s"

definition icache_access_mode :: "u32 \<Rightarrow> 'a arc_core_scheme \<Rightarrow> 'a arc_core_scheme" where
  "icache_access_mode mode s =
     (if mode \<noteq> 0 then arc_aux_write AUX_IC_CTRL (arc_aux_read s AUX_IC_CTRL OR IC_CTRL_INDIRECT_ACCESS) s
      else arc_aux_write AUX_IC_CTRL (arc_aux_read s AUX_IC_CTRL AND NOT IC_CTRL_INDIRECT_ACCESS) s)"

definition dcache_enable :: "u32 \<Rightarrow> 'a arc_core_scheme \<Rightarrow> 'a arc_core_scheme" where
  "dcache_enable dcache_en_mask s = arc_aux_write AUX_DC_CTRL dcache_en_mask s"

definition dcache_enabled :: "'a arc_core_scheme \<Rightarrow> bool" where
  "dcache_enabled s \<longleftrightarrow> arc_aux_read s AUX_DC_CTRL AND DC_CTRL_DC_DISABLE = 0"

definition dcache_disable :: "'a arc_core_scheme \<Rightarrow> 'a arc_core_scheme" where
  "dcache_disable s = arc_aux_write AUX_DC_CTRL DC_CTRL_DC_DISABLE s"

definition dcache_invalidate_line :: "u32 \<Rightarrow> 'a arc_core_scheme \<Rightarrow> 'a arc_core_scheme" where
  "dcache_invalidate_line address s = arc_aux_write AUX_DC_IVDL address s"

definition dcache_invalidate :: "dc_busy \<Rightarrow> 'a arc_core_scheme \<Rightarrow> 'a arc_core_scheme option" where
  "dcache_invalidate busy s =
     (let (status, s) = arc_lock_save s in
      map_option (arc_unlock_restore status) (dc_command busy AUX_DC_IVDC 1 s))"

definition dcache_flush :: "dc_busy \<Rightarrow> 'a arc_core_scheme \<Rightarrow> 'a arc_core_scheme option" where
  "dcache_flush busy s =
     (let (status, s) = arc_lock_save s in
      map_option (arc_unlock_restore status) (dc_command busy AUX_DC_FLSH 1 s))"

definition dcache_flush_line :: "dc_busy \<Rightarrow> u32 \<Rightarrow> 'a arc_core_scheme \<Rightarrow> 'a arc_core_scheme option" where
  "dcache_flush_line busy address s =
     (let (status, s) = arc_lock_save s in
      map_option (arc_unlock_restore status) (dc_command busy AUX_DC_FLDL address s))"

section \<open>Operations on a range of lines\<close>

text \<open>
  The body of the \<open>do ... while (start_addr <= end_addr)\<close> loops, over the operation that one
  round performs. The addition wraps at the end of the address space.
\<close>

partial_function (option) mlines_loop ::
    "(u32 \<Rightarrow> 's \<Rightarrow> 's option) \<Rightarrow> u32 \<Rightarrow> u32 \<Rightarrow> u32 \<Rightarrow> 's \<Rightarrow> 's option" where
  "mlines_loop line_op line_size end_addr start_addr s =
     (case line_op start_addr s of
        None \<Rightarrow> None
      | Some s' \<Rightarrow>
          if start_addr + line_size \<le> end_addr
          then mlines_loop line_op line_size end_addr (start_addr + line_size) s'
          else Some s')"

definition mlines :: "cache_config \<Rightarrow> (u32 \<Rightarrow> 'a arc_core_scheme \<Rightarrow> 'a arc_core_scheme option) \<Rightarrow>
    u32 \<Rightarrow> u32 \<Rightarrow> 'a arc_core_scheme \<Rightarrow> (int \<times> 'a arc_core_scheme) option" where
  "mlines cfg line_op start_addr sz s =
     (if sz = 0 \<or> cfg_capacity cfg < sz then Some (-1, s)
      else let line_size = cfg_line cfg;
               end_addr = start_addr + sz - 1;
               start_addr = start_addr AND NOT (line_size - 1);
               (status, s) = arc_lock_save s
           in case mlines_loop line_op line_size end_addr start_addr s of
                None \<Rightarrow> None
              | Some s \<Rightarrow> Some (0, arc_unlock_restore status s))"

definition icache_invalidate_mlines ::
    "u32 \<Rightarrow> u32 \<Rightarrow> 'a cache_core_scheme \<Rightarrow> (int \<times> 'a cache_core_scheme) option" where
  "icache_invalidate_mlines start_addr sz s =
     mlines (icache_config s) (\<lambda>a s. Some (arc_aux_write AUX_IC_IVIL a s)) start_addr sz s"

definition dcache_invalidate_mlines ::
    "dc_busy \<Rightarrow> u32 \<Rightarrow> u32 \<Rightarrow> 'a cache_core_scheme \<Rightarrow> (int \<times> 'a cache_core_scheme) option" where
  "dcache_invalidate_mlines busy start_addr sz s =
     mlines (dcache_config s) (dc_command busy AUX_DC_IVDL) start_addr sz s"

definition dcache_flush_mlines ::
    "dc_busy \<Rightarrow> u32 \<Rightarrow> u32 \<Rightarrow> 'a cache_core_scheme \<Rightarrow> (int \<times> 'a cache_core_scheme) option" where
  "dcache_flush_mlines busy start_addr sz s =
     mlines (dcache_config s) (dc_command busy AUX_DC_FLDL) start_addr sz s"

text \<open>
  Locking stops at the first line whose command fails; \<open>ok\<close> is the hardware's answer, the
  success bit that the control register shows after the command for that line.
\<close>

partial_function (option) lock_loop ::
    "u32 \<Rightarrow> (u32 \<Rightarrow> bool) \<Rightarrow> u32 \<Rightarrow> u32 \<Rightarrow> u32 \<Rightarrow> 'a arc_core_scheme \<Rightarrow> (int \<times> 'a arc_core_scheme) option" where
  "lock_loop cmd ok line_size end_addr start_addr s =
     (let s = arc_aux_write cmd start_addr s in
      if ok start_addr then
        if start_addr + line_size \<le> end_addr
        then lock_loop cmd ok line_size end_addr (start_addr + line_size) s
        else Some (0, s)
      else Some (-1, s))"

definition lock_mlines :: "cache_config \<Rightarrow> u32 \<Rightarrow> (u32 \<Rightarrow> bool) \<Rightarrow> u32 \<Rightarrow> u32 \<Rightarrow> 'a arc_core_scheme
    \<Rightarrow> (int \<times> 'a arc_core_scheme) option" where
  "lock_mlines cfg cmd ok start_addr sz s =
     (if sz = 0 \<or> cfg_capacity cfg < sz then Some (-1, s)
      else let line_size = cfg_line cfg;
               end_addr = start_addr + sz - 1;
               start_addr = start_addr AND NOT (line_size - 1);
               (status, s) = arc_lock_save s
           in case lock_loop cmd ok line_size end_addr start_addr s of
                None \<Rightarrow> None
              | Some (ercd, s) \<Rightarrow> Some (ercd, arc_unlock_restore status s))"

definition icache_lock_mlines ::
    "(u32 \<Rightarrow> bool) \<Rightarrow> u32 \<Rightarrow> u32 \<Rightarrow> 'a cache_core_scheme \<Rightarrow> (int \<times> 'a cache_core_scheme) option" where
  "icache_lock_mlines ok start_addr sz s = lock_mlines (icache_config s) AUX_IC_LIL ok start_addr sz s"

definition dcache_lock_mlines ::
    "(u32 \<Rightarrow> bool) \<Rightarrow> u32 \<Rightarrow> u32 \<Rightarrow> 'a cache_core_scheme \<Rightarrow> (int \<times> 'a cache_core_scheme) option" where
  "dcache_lock_mlines ok start_addr sz s = lock_mlines (dcache_config s) AUX_DC_LDL ok start_addr sz s"

section \<open>Direct access to the cache memories\<close>

text \<open>
  \<open>ram\<close> is the hardware's cache memory: the tag and the data it shows for an address written
  to the address register, or nothing when an indirect access does not hit.
\<close>

definition icache_direct_write :: "u32 \<Rightarrow> u32 \<Rightarrow> u32 \<Rightarrow> 'a arc_core_scheme \<Rightarrow> int \<times> 'a arc_core_scheme" where
  "icache_direct_write cache_addr tag data s =
     (if arc_aux_read s AUX_IC_CTRL AND IC_CTRL_INDIRECT_ACCESS \<noteq> 0 then (-1, s)
      else (0, arc_aux_write AUX_IC_DATA data (arc_aux_write AUX_IC_TAG tag
                 (arc_aux_write AUX_IC_RAM_ADDR cache_addr s))))"

definition dcache_direct_write :: "u32 \<Rightarrow> u32 \<Rightarrow> u32 \<Rightarrow> 'a arc_core_scheme \<Rightarrow> int \<times> 'a arc_core_scheme" where
  "dcache_direct_write cache_addr tag data s =
     (if arc_aux_read s AUX_DC_CTRL AND DC_CTRL_INDIRECT_ACCESS \<noteq> 0 then (-1, s)
      else (0, arc_aux_write AUX_DC_DATA data (arc_aux_write AUX_DC_TAG tag
                 (arc_aux_write AUX_DC_RAM_ADDR cache_addr s))))"

section \<open>Initialisation\<close>

definition arc_cache_init :: "dc_busy \<Rightarrow> 'a cache_core_scheme \<Rightarrow> 'a cache_core_scheme option" where
  "arc_cache_init busy s =
     (let build_cfg = arc_aux_read s AUX_BCR_D_CACHE;
          s = s\<lparr>dcache_config := (dcache_config s)\<lparr>cfg_ver := build_cfg AND 0xff\<rparr>\<rparr>;
          after_d =
            (if 0x04 \<le> cfg_ver (dcache_config s)
             then case dcache_invalidate busy (dcache_enable
                     (DC_CTRL_DISABLE_FLUSH_LOCKED OR DC_CTRL_INDIRECT_ACCESS OR DC_CTRL_INVALID_FLUSH) s) of
                    None \<Rightarrow> None
                  | Some s \<Rightarrow> Some (s\<lparr>dcache_config := (dcache_config s)\<lparr>
                      cfg_assoc := push_bit (unat (drop_bit 8 build_cfg AND 0xf)) 1 AND 0xff,
                      cfg_capacity := push_bit (unat (drop_bit 12 build_cfg AND 0xf)) 512,
                      cfg_line := push_bit (unat (drop_bit 16 build_cfg AND 0xf)) 16 AND 0xffff\<rparr>\<rparr>)
             else Some s)
      in case after_d of
           None \<Rightarrow> None
         | Some s \<Rightarrow>
             let build_cfg = arc_aux_read s AUX_BCR_I_CACHE;
                 s = s\<lparr>icache_config := (icache_config s)\<lparr>cfg_ver := build_cfg AND 0xff\<rparr>\<rparr>
             in Some (if 0x04 \<le> cfg_ver (icache_config s)
                then let s = s\<lparr>icache_config := (icache_config s)\<lparr>
                       cfg_assoc := push_bit (unat (drop_bit 8 build_cfg AND 0xf)) 1 AND 0xff,
                       cfg_capacity := push_bit (unat (drop_bit 12 build_cfg AND 0xf)) 512,
                       cfg_line := push_bit (unat (drop_bit 16 build_cfg AND 0xf)) 8 AND 0xffff\<rparr>\<rparr>
                     in icache_invalidate (icache_enable IC_CTRL_IC_ENABLE s)
                else s))"

section \<open>Reading the cache memories\<close>

definition icache_direct_read :: "(u32 \<Rightarrow> u32 \<times> u32) \<Rightarrow> u32 \<Rightarrow> 'a arc_core_scheme
    \<Rightarrow> (u32 \<times> u32) option \<times> 'a arc_core_scheme" where
  "icache_direct_read ram cache_addr s =
     (if arc_aux_read s AUX_IC_CTRL AND IC_CTRL_INDIRECT_ACCESS \<noteq> 0 then (None, s)
      else (Some (ram cache_addr), arc_aux_write AUX_IC_RAM_ADDR cache_addr s))"

definition icache_indirect_read :: "(u32 \<Rightarrow> (u32 \<times> u32) option) \<Rightarrow> u32 \<Rightarrow> 'a arc_core_scheme
    \<Rightarrow> (u32 \<times> u32) option \<times> 'a arc_core_scheme" where
  "icache_indirect_read ram mem_addr s =
     (if arc_aux_read s AUX_IC_CTRL AND IC_CTRL_INDIRECT_ACCESS = 0 then (None, s)
      else (ram mem_addr, arc_aux_write AUX_IC_RAM_ADDR mem_addr s))"

definition dcache_direct_read :: "(u32 \<Rightarrow> u32 \<times> u32) \<Rightarrow> u32 \<Rightarrow> 'a arc_core_scheme
    \<Rightarrow> (u32 \<times> u32) option \<times> 'a arc_core_scheme" where
  "dcache_direct_read ram cache_addr s =
     (if arc_aux_read s AUX_DC_CTRL AND DC_CTRL_INDIRECT_ACCESS \<noteq> 0 then (None, s)
      else (Some (ram cache_addr), arc_aux_write AUX_DC_RAM_ADDR cache_addr s))"

definition dcache_indirect_read :: "(u32 \<Rightarrow> (u32 \<times> u32) option) \<Rightarrow> u32 \<Rightarrow> 'a arc_core_scheme
    \<Rightarrow> (u32 \<times> u32) option \<times> 'a arc_core_scheme" where
  "dcache_indirect_read ram mem_addr s =
     (if arc_aux_read s AUX_DC_CTRL AND DC_CTRL_INDIRECT_ACCESS = 0 then (None, s)
      else (ram mem_addr, arc_aux_write AUX_DC_RAM_ADDR mem_addr s))"

section \<open>Termination and effect of the loops\<close>

lemma wait_flush_returns:
  assumes "\<not> busy n" "k \<le> n"
  shows "\<exists>m. wait_flush busy k = Some m"
  using assms(2)
proof (induction "n - k" arbitrary: k)
  case 0
  then have "k = n" by simp
  then show ?case using assms(1) by (subst wait_flush.simps) simp
next
  case (Suc d)
  then have "\<exists>m. wait_flush busy (k + 1) = Some m" by (intro Suc.hyps(1)) auto
  then show ?case by (subst wait_flush.simps) auto
qed

lemma dc_command_returns:
  assumes "\<not> busy cmd v n"
  shows "dc_command busy cmd v s = Some (arc_aux_write cmd v s)"
  using wait_flush_returns [where busy = "busy cmd v" and k = 0, OF assms] by (auto simp: dc_command_def)

definition line_addrs :: "u32 \<Rightarrow> u32 \<Rightarrow> nat \<Rightarrow> u32 list" where
  "line_addrs a line n = map (\<lambda>i. a + of_nat i * line) [0..<n]"

lemma line_addrs_Suc: "line_addrs a line (Suc n) = a # line_addrs (a + line) line n"
  by (simp add: line_addrs_def upt_conv_Cons map_Suc_upt [symmetric] algebra_simps del: upt_Suc)

lemma mlines_loop_spec:
  assumes "\<And>a s. line_op a s = Some (act a s)"
    and "unat a + n * unat line \<le> unat e" "unat e < unat a + (n + 1) * unat line"
    and "unat a + (n + 1) * unat line < 2 ^ 32"
  shows "mlines_loop line_op line e a s = Some (fold act (line_addrs a line (Suc n)) s)"
  using assms(2-)
proof (induction n arbitrary: a s)
  case 0
  have "unat (a + line) = unat a + unat line"
    using "0.prems"(3) unat_add_lem [of a line] by simp
  then have "\<not> a + line \<le> e"
    using "0.prems" by (simp add: word_le_nat_alt)
  then show ?case
    by (subst mlines_loop.simps) (simp add: assms(1) line_addrs_def)
next
  case (Suc n)
  have u: "unat (a + line) = unat a + unat line"
    using Suc.prems(3) unat_add_lem [of a line] by simp
  then have le: "a + line \<le> e"
    using Suc.prems by (simp add: word_le_nat_alt)
  have "mlines_loop line_op line e (a + line) (act a s) =
      Some (fold act (line_addrs (a + line) line (Suc n)) (act a s))"
    by (rule Suc.IH) (use Suc.prems u in \<open>simp_all add: algebra_simps\<close>)
  then show ?case
    using le by (subst mlines_loop.simps) (simp add: assms(1) line_addrs_Suc [of a line "Suc n"])
qed

lemma sr_log_fold_aux_write:
  "sr_log (fold (arc_aux_write cmd) as s) = rev (map (Pair cmd) as) @ sr_log s"
  by (induction as arbitrary: s) simp_all

lemma status_fold_aux_write:
  "aux_regs (fold (arc_aux_write cmd) as s) AUX_STATUS32 = aux_regs s AUX_STATUS32"
  by (induction as arbitrary: s) (simp_all add: aux_regs_aux_write)

lemma unat_align_down:
  fixes a line :: u32
  assumes "unat line = 2 ^ k"
  shows "unat (a AND NOT (line - 1)) = unat a div 2 ^ k * 2 ^ k"
proof -
  have "(2::nat) ^ k < 2 ^ 32"
    using assms unat_lt_2p32 [of line] by simp
  then have k: "k < 32"
    by (simp only: power_strict_increasing_iff)
  have line: "line = 2 ^ k"
    using assms k by (simp add: word_unat_eq_iff unat_pow2_u32)
  have "a AND NOT (line - 1) = push_bit k (drop_bit k a)"
    unfolding line mask_eq_exp_minus_1 [symmetric]
    by (rule bit_word_eqI) (auto simp: bit_and_iff bit_not_iff bit_mask_iff bit_push_bit_iff bit_drop_bit_eq)
  also have "\<dots> = of_nat (unat a div 2 ^ k * 2 ^ k)"
    by (simp add: push_bit_eq_mult flip: unat_drop_bit_u32)
  finally have eq: "a AND NOT (line - 1) = of_nat (unat a div 2 ^ k * 2 ^ k)" .
  show ?thesis
    unfolding eq using unat_lt_2p32 [of a] div_times_less_eq_dividend [of "unat a" "2 ^ k"]
    by (intro unat_of_nat_u32) linarith
qed

text \<open>The lines that a range of \<open>sz\<close> bytes at \<open>start\<close> touches.\<close>

definition lines_of_range :: "cache_config \<Rightarrow> u32 \<Rightarrow> u32 \<Rightarrow> u32 list" where
  "lines_of_range cfg start sz =
     line_addrs (start AND NOT (cfg_line cfg - 1)) (cfg_line cfg)
       (Suc ((unat start + unat sz - 1) div unat (cfg_line cfg) - unat start div unat (cfg_line cfg)))"

lemma mlines_loop_range:
  assumes op: "\<And>a s. line_op a s = Some (act a s)"
    and line: "unat (cfg_line cfg) = 2 ^ k" and sz: "0 < sz"
    and fits: "unat start + unat sz + unat (cfg_line cfg) \<le> 2 ^ 32"
  shows "mlines_loop line_op (cfg_line cfg) (start + sz - 1) (start AND NOT (cfg_line cfg - 1)) s =
    Some (fold act (lines_of_range cfg start sz) s)"
proof -
  let ?L = "(2::nat) ^ k" and ?e = "unat start + unat sz - 1"
  have sz1: "1 \<le> unat sz"
    using sz by (simp add: word_less_nat_alt)
  have "unat (start + sz) = unat start + unat sz"
    using fits line zero_less_power [of "2::nat" k] by (intro unat_add_u32) linarith
  then have e: "unat (start + sz - 1) = ?e"
    using sz1 unat_sub [of 1 "start + sz"] by (simp add: word_le_nat_alt)
  have le: "unat start div ?L \<le> ?e div ?L"
    using sz1 by (intro div_le_mono) simp
  have n: "unat start div ?L * ?L + (?e div ?L - unat start div ?L) * ?L = ?e div ?L * ?L"
    using le by (metis add_mult_distrib le_add_diff_inverse)
  have "?e div ?L * ?L \<le> ?e" "?e < ?e div ?L * ?L + ?L"
    using div_times_less_eq_dividend [of ?e ?L] dividend_less_div_times [of ?L ?e] by simp_all
  then show ?thesis
    unfolding lines_of_range_def line
    using n sz1 fits line e
    by (intro mlines_loop_spec op) (simp_all only: unat_align_down [OF line] add_mult_distrib mult_1, linarith+)
qed

text \<open>
  C19. A call of \<open>icache_invalidate_mlines\<close> with a non-empty range that fits the cache and ends
  before the last line of the address space returns 0. It gives one invalidate command for
  each line that the range touches, in ascending order, and leaves the interrupt enable and
  the priority mask as they were.
\<close>

theorem icache_invalidate_mlines_ok:
  assumes "unat (cfg_line (icache_config s)) = 2 ^ k" "0 < sz" "sz \<le> cfg_capacity (icache_config s)"
    and "unat start + unat sz + unat (cfg_line (icache_config s)) \<le> 2 ^ 32"
  shows "\<exists>s'. icache_invalidate_mlines start sz s = Some (0, s') \<and>
    sr_log s' = rev (map (Pair AUX_IC_IVIL) (lines_of_range (icache_config s) start sz)) @ sr_log s \<and>
    aux_regs s' AUX_STATUS32 = aux_regs s AUX_STATUS32"
proof -
  obtain key s1 where lock: "arc_lock_save s = (key, s1)"
    by (cases "arc_lock_save s")
  have log: "sr_log s1 = sr_log s"
    using lock by (auto simp: arc_lock_save_def arc_clri_def Let_def)
  let ?s2 = "fold (arc_aux_write AUX_IC_IVIL) (lines_of_range (icache_config s) start sz) s1"
  have "icache_invalidate_mlines start sz s = Some (0, arc_unlock_restore key ?s2)"
    using assms lock mlines_loop_range [OF refl assms(1,2,4), of "arc_aux_write AUX_IC_IVIL" s1]
    by (auto simp: icache_invalidate_mlines_def mlines_def Let_def)
  moreover have "aux_regs (arc_unlock_restore key ?s2) AUX_STATUS32 = aux_regs s AUX_STATUS32"
    using lock by (rule lock_restore_status) (rule status_fold_aux_write)
  moreover have "sr_log (arc_unlock_restore key ?s2) = sr_log ?s2"
    by (simp add: arc_unlock_restore_def arc_seti_def Let_def)
  ultimately show ?thesis
    by (simp add: sr_log_fold_aux_write log)
qed

definition demo_cache :: cache_core where
  "demo_cache = arc_core.extend core_zero
     (cache_core.fields \<lparr>cfg_ver = 4, cfg_assoc = 2, cfg_line = 32, cfg_capacity = 0x1000\<rparr>
        \<lparr>cfg_ver = 4, cfg_assoc = 2, cfg_line = 32, cfg_capacity = 0x1000\<rparr>)"

lemma demo_cache_simps:
  "icache_config demo_cache = \<lparr>cfg_ver = 4, cfg_assoc = 2, cfg_line = 32, cfg_capacity = 0x1000\<rparr>"
  "sr_log demo_cache = []" "aux_regs demo_cache = (\<lambda>_. 0)"
  by (simp_all add: demo_cache_def core_zero_def arc_core.defs cache_core.defs)

theorem icache_invalidate_mlines_ok_witness:
  "\<exists>s'. icache_invalidate_mlines 0x1010 0x20 demo_cache = Some (0, s') \<and>
     sr_log s' = [(AUX_IC_IVIL, 0x1020), (AUX_IC_IVIL, 0x1000)]"
  using icache_invalidate_mlines_ok [of demo_cache 5 "0x20" "0x1010"]
  by (auto simp: demo_cache_simps lines_of_range_def line_addrs_def)

lemma aligned_next:
  fixes a line e :: u32
  assumes "unat line = 2 ^ k" "unat a mod 2 ^ k = 0" "unat e + 2 ^ k \<ge> 2 ^ 32"
  shows "a + line \<le> e \<and> unat (a + line) mod 2 ^ k = 0"
proof -
  have "(2::nat) ^ k < 2 ^ 32"
    using assms(1) unat_lt_2p32 [of line] by simp
  then have k: "k < 32"
    by (simp only: power_strict_increasing_iff)
  then have dvd: "(2::nat) ^ k dvd 2 ^ 32"
    by (intro le_imp_power_dvd) simp
  have u: "unat (a + line) = (unat a + 2 ^ k) mod 2 ^ 32"
    using assms(1) by (simp add: unat_word_ariths)
  have "unat (a + line) mod 2 ^ k = (unat a + 2 ^ k) mod 2 ^ k"
    unfolding u using dvd by (rule mod_mod_cancel)
  then have al: "unat (a + line) mod 2 ^ k = 0"
    using assms(2) by simp
  have "unat (a + line) + 2 ^ k \<le> 2 ^ 32"
  proof -
    obtain q r where "unat (a + line) = 2 ^ k * q" "2 ^ 32 = (2::nat) ^ k * r"
      using al dvd by (metis mod_0_imp_dvd dvd_def)
    moreover from this have "q < r"
      using unat_lt_2p32 [of "a + line"] by (metis nat_mult_less_cancel_disj)
    ultimately show ?thesis
      by (metis Suc_leI mult_Suc_right mult_le_mono2 add.commute)
  qed
  then show ?thesis
    using assms(3) al by (simp add: word_le_nat_alt)
qed

lemma mlines_loop_returns:
  assumes "mlines_loop line_op line e a s = Some s'" "unat line = 2 ^ k" "unat a mod 2 ^ k = 0"
  shows "unat e + 2 ^ k < 2 ^ 32"
proof -
  let ?P = "\<lambda>line_op (line :: u32) (e :: u32) (a :: u32) s s'.
    unat line = 2 ^ k \<longrightarrow> unat a mod 2 ^ k = 0 \<longrightarrow> unat e + 2 ^ k < 2 ^ 32"
  have "?P line_op line e a s s'"
  proof (rule mlines_loop.raw_induct [where P = ?P, OF _ assms(1)])
    fix f line_op and line e a :: u32 and s s'
    assume IH: "\<And>line_op (line :: u32) (e :: u32) (a :: u32) s y. f line_op line e a s = Some y \<Longrightarrow>
        unat line = 2 ^ k \<longrightarrow> unat a mod 2 ^ k = 0 \<longrightarrow> unat e + 2 ^ k < 2 ^ 32"
      and body: "(case line_op a s of None \<Rightarrow> None
        | Some t \<Rightarrow> if a + line \<le> e then f line_op line e (a + line) t else Some t) = Some s'"
    show "unat line = 2 ^ k \<longrightarrow> unat a mod 2 ^ k = 0 \<longrightarrow> unat e + 2 ^ k < 2 ^ 32"
    proof (intro impI, rule ccontr)
      assume k: "unat line = 2 ^ k" "unat a mod 2 ^ k = 0" and "\<not> unat e + 2 ^ k < 2 ^ 32"
      then have next_line: "a + line \<le> e" "unat (a + line) mod 2 ^ k = 0"
        using aligned_next [of line k a e] by (simp_all only: not_less)
      with body obtain t where "f line_op line e (a + line) t = Some s'"
        by (cases "line_op a s") simp_all
      from IH [OF this] k next_line show False
        using \<open>\<not> unat e + 2 ^ k < 2 ^ 32\<close> by blast
    qed
  qed
  then show ?thesis
    using assms by simp
qed

text \<open>
  C39. When the range ends in the last line of the address space, \<open>icache_invalidate_mlines\<close> does
  not return: the address of the next line wraps to zero, which is again not above the end of
  the range.
\<close>

theorem icache_invalidate_mlines_wraps:
  assumes "unat (cfg_line (icache_config s)) = 2 ^ k" "0 < sz" "sz \<le> cfg_capacity (icache_config s)"
    and "unat start + unat sz \<le> 2 ^ 32"
    and "2 ^ 32 < unat start + unat sz + unat (cfg_line (icache_config s))"
  shows "icache_invalidate_mlines start sz s = None"
proof -
  let ?cfg = "icache_config s"
  have sz1: "1 \<le> unat sz"
    using assms(2) by (simp add: word_less_nat_alt)
  have "unat (sz - 1) = unat sz - 1"
    using sz1 unat_sub_u32 [of 1 sz] by simp
  then have "unat (start + (sz - 1)) = unat start + unat sz - 1"
    using assms(4) sz1 unat_add_u32 [of start "sz - 1"] by simp
  then have e: "unat (start + sz - 1) = unat start + unat sz - 1"
    by (simp add: algebra_simps)
  have al: "unat (start AND NOT (cfg_line ?cfg - 1)) mod 2 ^ k = 0"
    by (simp add: unat_align_down [OF assms(1)])
  have "mlines_loop op (cfg_line ?cfg) (start + sz - 1) (start AND NOT (cfg_line ?cfg - 1)) t = None"
    for op and t :: "'a cache_core_scheme"
  proof (rule ccontr)
    assume "mlines_loop op (cfg_line ?cfg) (start + sz - 1) (start AND NOT (cfg_line ?cfg - 1)) t \<noteq> None"
    then obtain t' where
      "mlines_loop op (cfg_line ?cfg) (start + sz - 1) (start AND NOT (cfg_line ?cfg - 1)) t = Some t'"
      by auto
    then have "unat (start + sz - 1) + 2 ^ k < 2 ^ 32"
      using assms(1) al by (rule mlines_loop_returns)
    then show False
      unfolding e using assms(1,5) sz1 by linarith
  qed
  then show ?thesis
    using assms(2,3) by (auto simp: icache_invalidate_mlines_def mlines_def Let_def split: prod.splits)
qed

theorem icache_invalidate_mlines_wraps_witness:
  "icache_invalidate_mlines 0xFFFFFFF0 0x10 demo_cache = None"
  using icache_invalidate_mlines_wraps [of demo_cache 5 "0x10" "0xFFFFFFF0"]
  by (simp add: demo_cache_simps)

end
