(* ===== verification/Arc_Exception.thy ===== *)
theory Arc_Exception
  imports Arc_Cache
begin

text \<open>
  Exception and interrupt management, \<open>arc/arc_exception.c\<close>: the table of handlers, the vector
  table in memory, and the checked operations on the interrupt controller. Handlers and
  entries are addresses, with 0 for \<open>NULL\<close>; the operations that return a status return it as
  an integer beside the new state.

  Not modelled: the default handlers, which print and stop the core, and the assembly that
  sets the stack pointer of the fast interrupt bank.
\<close>

record exc_core = arc_core +
  exc_int_handler_table :: "u32 list"

section \<open>Tables\<close>

definition vector_base :: "'b build_scheme \<Rightarrow> 'a arc_core_scheme \<Rightarrow> u32" where
  "vector_base b s =
     (if feat_sec b \<and> secureshield_version b < 2 then arc_aux_read s AUX_INT_VECT_BASE_S
      else arc_aux_read s AUX_INT_VECT_BASE)"

text \<open>\<open>exc_entry_install\<close>; \<open>None\<close> when the cache never finishes the flush.\<close>

definition exc_entry_install ::
    "'b build_scheme \<Rightarrow> dc_busy \<Rightarrow> u32 \<Rightarrow> u32 \<Rightarrow> 'a arc_core_scheme \<Rightarrow> (int \<times> 'a arc_core_scheme) option" where
  "exc_entry_install b busy excno entry s =
     (let slot = vector_base b s + 4 * excno in
      if excno < of_nat (NUM_EXC_ALL b) \<and> entry \<noteq> 0 \<and> ld32 (memory s) slot \<noteq> entry
      then let (status, s) = arc_lock_save s;
               s = s\<lparr>memory := st32 (memory s) slot entry\<rparr>
           in case (if 0x2 < arc_aux_read s AUX_BCR_D_CACHE then dcache_flush_line busy slot s else Some s) of
                None \<Rightarrow> None
              | Some s \<Rightarrow>
                  let s = (if 0x2 < arc_aux_read s AUX_BCR_D_CACHE then icache_invalidate_line slot s else s)
                  in Some (0, arc_unlock_restore status s)
      else Some (-1, s))"

definition exc_entry_get :: "'b build_scheme \<Rightarrow> u32 \<Rightarrow> u32 \<Rightarrow> 'a arc_core_scheme \<Rightarrow> u32" where
  "exc_entry_get b exc_entry_table excno s =
     (if excno < of_nat (NUM_EXC_ALL b) then ld32 (memory s) (exc_entry_table + 4 * excno) else 0)"

definition exc_handler_install ::
    "'b build_scheme \<Rightarrow> u32 \<Rightarrow> u32 \<Rightarrow> 'a exc_core_scheme \<Rightarrow> int \<times> 'a exc_core_scheme" where
  "exc_handler_install b excno handler s =
     (if excno < of_nat (NUM_EXC_ALL b) \<and> handler \<noteq> 0
      then (0, s\<lparr>exc_int_handler_table := (exc_int_handler_table s)[unat excno := handler]\<rparr>)
      else (-1, s))"

definition exc_handler_get :: "'b build_scheme \<Rightarrow> u32 \<Rightarrow> 'a exc_core_scheme \<Rightarrow> u32" where
  "exc_handler_get b excno s =
     (if excno < of_nat (NUM_EXC_ALL b) then exc_int_handler_table s ! unat excno else 0)"

definition int_handler_install ::
    "'b build_scheme \<Rightarrow> u32 \<Rightarrow> u32 \<Rightarrow> 'a exc_core_scheme \<Rightarrow> int \<times> 'a exc_core_scheme" where
  "int_handler_install b intno handler s =
     (if of_nat NUM_EXC_CPU \<le> intno then exc_handler_install b intno handler s else (-1, s))"

definition int_handler_get :: "'b build_scheme \<Rightarrow> u32 \<Rightarrow> 'a exc_core_scheme \<Rightarrow> u32" where
  "int_handler_get b intno s = (if of_nat NUM_EXC_CPU \<le> intno then exc_handler_get b intno s else 0)"

section \<open>The interrupt controller\<close>

definition int_in_range :: "'b build_scheme \<Rightarrow> u32 \<Rightarrow> bool" where
  "int_in_range b intno \<longleftrightarrow> of_nat NUM_EXC_CPU \<le> intno \<and> intno < of_nat (NUM_EXC_ALL b)"

definition int_disable :: "'b build_scheme \<Rightarrow> u32 \<Rightarrow> 'a arc_core_scheme \<Rightarrow> int \<times> 'a arc_core_scheme" where
  "int_disable b intno s = (if int_in_range b intno then (0, arc_int_disable intno s) else (-1, s))"

definition int_enable :: "'b build_scheme \<Rightarrow> u32 \<Rightarrow> 'a arc_core_scheme \<Rightarrow> int \<times> 'a arc_core_scheme" where
  "int_enable b intno s = (if int_in_range b intno then (0, arc_int_enable intno s) else (-1, s))"

definition int_enabled :: "'b build_scheme \<Rightarrow> u32 \<Rightarrow> 'a arc_core_scheme \<Rightarrow> int \<times> 'a arc_core_scheme" where
  "int_enabled b intno s =
     (if int_in_range b intno
      then let s = arc_aux_write AUX_IRQ_SELECT intno s in (sint (arc_aux_read s AUX_IRQ_ENABLE), s)
      else (-1, s))"


definition int_ipm_set :: "'b build_scheme \<Rightarrow> int \<Rightarrow> 'a arc_core_scheme \<Rightarrow> int \<times> 'a arc_core_scheme" where
  "int_ipm_set b intpri s =
     (if int_pri_min b \<le> intpri \<and> intpri \<le> INT_PRI_MAX
      then (0, arc_int_ipm_set (of_int (intpri - int_pri_min b)) s)
      else (-1, s))"

definition int_pri_get :: "'b build_scheme \<Rightarrow> u32 \<Rightarrow> 'a arc_core_scheme \<Rightarrow> int \<times> 'a arc_core_scheme" where
  "int_pri_get b intno s =
     (if int_in_range b intno
      then let (p, s) = arc_int_pri_get intno s in (sint p + int_pri_min b, s)
      else (0, s))"

definition cpu_lock_save :: "'a arc_core_scheme \<Rightarrow> u32 \<times> 'a arc_core_scheme" where
  "cpu_lock_save s = arc_lock_save s"

definition cpu_unlock_restore :: "u32 \<Rightarrow> 'a arc_core_scheme \<Rightarrow> 'a arc_core_scheme" where
  "cpu_unlock_restore status s = arc_unlock_restore status s"

definition cpu_lock :: "'a arc_core_scheme \<Rightarrow> 'a arc_core_scheme" where
  "cpu_lock s = arc_lock s"

definition cpu_unlock :: "'a arc_core_scheme \<Rightarrow> 'a arc_core_scheme" where
  "cpu_unlock s = arc_unlock s"

text \<open>The difference is computed in 32 bits: \<open>of_int\<close> reduces it, also where the \<open>int32_t\<close> overflows.\<close>

definition int_pri_set :: "'b build_scheme \<Rightarrow> u32 \<Rightarrow> int \<Rightarrow> 'a arc_core_scheme \<Rightarrow> int \<times> 'a arc_core_scheme" where
  "int_pri_set b intno intpri s =
     (if int_in_range b intno
      then let (status, s) = cpu_lock_save s;
               s = arc_int_pri_set intno (of_int (intpri - int_pri_min b)) s
           in (0, cpu_unlock_restore status s)
      else (-1, s))"

definition int_secure_set :: "'b build_scheme \<Rightarrow> u32 \<Rightarrow> u32 \<Rightarrow> 'a arc_core_scheme \<Rightarrow> int \<times> 'a arc_core_scheme" where
  "int_secure_set b intno secure s =
     (if int_in_range b intno then (0, arc_int_secure_set intno secure s) else (-1, s))"

definition int_probe :: "'b build_scheme \<Rightarrow> u32 \<Rightarrow> 'a arc_core_scheme \<Rightarrow> int \<times> 'a arc_core_scheme" where
  "int_probe b intno s =
     (if int_in_range b intno then let (p, s) = arc_int_probe intno s in (sint p, s) else (-1, s))"

definition int_sw_trigger :: "'b build_scheme \<Rightarrow> u32 \<Rightarrow> 'a arc_core_scheme \<Rightarrow> int \<times> 'a arc_core_scheme" where
  "int_sw_trigger b intno s = (if int_in_range b intno then (0, arc_int_sw_trigger intno s) else (-1, s))"

definition int_level_config ::
    "'b build_scheme \<Rightarrow> u32 \<Rightarrow> u32 \<Rightarrow> 'a arc_core_scheme \<Rightarrow> int \<times> 'a arc_core_scheme" where
  "int_level_config b intno level s =
     (if int_in_range b intno then (0, arc_int_level_config intno level s) else (-1, s))"

section \<open>Initialisation\<close>





section \<open>Lemmas\<close>

lemma lock_save_fields:
  assumes "arc_lock_save s = (key, s')"
  shows "irq_bank s' = irq_bank s" "memory s' = memory s" "sr_log s' = sr_log s"
    "arc_core.more s' = arc_core.more s" "r \<noteq> AUX_STATUS32 \<Longrightarrow> aux_regs s' r = aux_regs s r"
    "mpu_bank s' = mpu_bank s"
  using assms by (auto simp: arc_lock_save_def arc_clri_def Let_def)

lemma unlock_restore_fields [simp]:
  "irq_bank (arc_unlock_restore key s) = irq_bank s" "memory (arc_unlock_restore key s) = memory s"
  "arc_core.more (arc_unlock_restore key s) = arc_core.more s"
  "sr_log (arc_unlock_restore key s) = sr_log s" "mpu_bank (arc_unlock_restore key s) = mpu_bank s"
  "r \<noteq> AUX_STATUS32 \<Longrightarrow> aux_regs (arc_unlock_restore key s) r = aux_regs s r"
  by (simp_all add: arc_unlock_restore_def arc_seti_def Let_def)

lemma ipm_set_fields [simp]:
  "irq_bank (arc_int_ipm_set p s) = irq_bank s" "memory (arc_int_ipm_set p s) = memory s"
  "arc_core.more (arc_int_ipm_set p s) = arc_core.more s"
  "r \<noteq> AUX_STATUS32 \<Longrightarrow> aux_regs (arc_int_ipm_set p s) r = aux_regs s r"
  by (simp_all add: arc_int_ipm_set_def Let_def)




lemma of_int_small:
  fixes z :: int
  assumes "0 \<le> z" "z < 16"
  shows "unat (of_int z :: u32) = nat z" "(of_int z :: u32) AND 0xf = of_int z"
    "sint (of_int z :: u32) = z"
proof -
  have z: "(of_int z :: u32) = of_nat (nat z)"
    using assms by simp
  show u: "unat (of_int z :: u32) = nat z"
    unfolding z using assms by (intro unat_of_nat_u32) simp
  show "(of_int z :: u32) AND 0xf = of_int z"
  proof (rule bit_word_eqI)
    fix n
    show "bit ((of_int z :: u32) AND 0xf) n = bit (of_int z :: u32) n"
      using bit_lt_pow2 [of "of_int z" 4 n] u assms by (auto simp only: bit_and_iff status_mask_bits; simp)
  qed
  show "sint (of_int z :: u32) = z"
    using sint_small [of "of_int z"] u assms by simp
qed







lemma fst_int_pri_get:
  "int_in_range b intno \<Longrightarrow>
    fst (int_pri_get b intno t) = sint (irq_bank t intno AUX_IRQ_PRIORITY AND 0xf) + int_pri_min b"
  using fst_arc_int_pri_get [of intno t] by (auto simp: int_pri_get_def split: prod.splits)




lemma int_pri_set_spec:
  assumes "int_in_range b intno" "int_pri_min b \<le> p" "p \<le> INT_PRI_MAX" "-16 \<le> int_pri_min b"
  shows "let (r, s') = int_pri_set b intno p s in
    r = 0 \<and> fst (int_pri_get b intno s') = p \<and>
    irq_bank s' intno AUX_IRQ_PRIORITY AND AUX_IRQ_PRIORITY_MASK_S
      = irq_bank s intno AUX_IRQ_PRIORITY AND AUX_IRQ_PRIORITY_MASK_S \<and>
    (\<forall>j. j \<noteq> intno \<longrightarrow> irq_bank s' j = irq_bank s j) \<and>
    aux_regs s' AUX_STATUS32 = aux_regs s AUX_STATUS32"
proof -
  let ?p = "of_int (p - int_pri_min b) :: u32"
  have z: "0 \<le> p - int_pri_min b" "p - int_pri_min b < 16"
    using assms by auto
  note small = of_int_small [OF z]
  obtain key s1 where lock: "arc_lock_save s = (key, s1)"
    by (cases "arc_lock_save s")
  let ?s2 = "arc_int_pri_set intno ?p s1"
  have set: "int_pri_set b intno p s = (0, arc_unlock_restore key ?s2)"
    using assms(1) lock by (simp add: int_pri_set_def cpu_lock_save_def cpu_unlock_restore_def)
  have bank: "irq_bank ?s2 =
      (irq_bank s)(intno := (irq_bank s intno)(AUX_IRQ_PRIORITY :=
         ?p OR (irq_bank s intno AUX_IRQ_PRIORITY AND 0xfffffff0)))"
    by (simp add: irq_bank_int_pri_set lock_save_fields [OF lock])
  have "(?p OR (x AND 0xfffffff0)) AND 0xf = ?p" for x
    using small(2) by (simp add: and.assoc bit.conj_disj_distrib2)
  moreover have "(?p OR (x AND 0xfffffff0)) AND 0x100 = x AND 0x100" for x
  proof -
    have "?p AND 0x100 = (?p AND 0xf) AND 0x100"
      using small(2) by simp
    then have "?p AND 0x100 = 0"
      by (simp add: and.assoc)
    then show ?thesis
      by (simp add: and.assoc bit.conj_disj_distrib2)
  qed
  moreover have "aux_regs (arc_unlock_restore key ?s2) AUX_STATUS32 = aux_regs s AUX_STATUS32"
    using lock by (rule lock_restore_status) (simp add: arc_int_pri_set_def Let_def aux_write_simps)
  ultimately show ?thesis
    using small(3) by (simp add: set bank fst_int_pri_get [OF assms(1)] del: of_int_diff)
qed

text \<open>
  C16. \<open>int_pri_set\<close> followed by \<open>int_pri_get\<close> gives back any priority of the documented range,
  provided the range fits the four bits of the priority field. The secure bit of the
  interrupt, the registers of all other interrupts and the processor status are unchanged.
\<close>

theorem int_pri_set_get:
  assumes "int_in_range b intno" "int_pri_min b \<le> p" "p \<le> INT_PRI_MAX" "-16 \<le> int_pri_min b"
  shows "let (r, s') = int_pri_set b intno p s in
    r = 0 \<and> fst (int_pri_get b intno s') = p \<and>
    irq_bank s' intno AUX_IRQ_PRIORITY AND AUX_IRQ_PRIORITY_MASK_S
      = irq_bank s intno AUX_IRQ_PRIORITY AND AUX_IRQ_PRIORITY_MASK_S \<and>
    (\<forall>j. j \<noteq> intno \<longrightarrow> irq_bank s' j = irq_bank s j) \<and>
    aux_regs s' AUX_STATUS32 = aux_regs s AUX_STATUS32"
  using assms by (rule int_pri_set_spec)

theorem int_pri_set_get_witness:
  "fst (int_pri_get demo_build 17 (snd (int_pri_set demo_build 17 (-1) core_zero))) = -1"
  using int_pri_set_get [of demo_build 17 "-1" core_zero]
  by (simp add: demo_build_def int_in_range_def split: prod.splits)

section \<open>Tables of cells\<close>

text \<open>
  What callers rely on when they configure a table entry by entry: a cell that was set with
  a valid value reads back, and setting it leaves the other cells alone. The handler table
  and the priorities of the interrupt controller both promise this.
\<close>

locale cell_bank =
  fixes put :: "'k \<Rightarrow> 'v \<Rightarrow> 's \<Rightarrow> 's" and get :: "'k \<Rightarrow> 's \<Rightarrow> 'v"
    and ok :: "'s \<Rightarrow> bool" and vkey :: "'k \<Rightarrow> bool" and vval :: "'v \<Rightarrow> bool"
  assumes put_ok: "ok s \<Longrightarrow> vkey k \<Longrightarrow> vval v \<Longrightarrow> ok (put k v s)"
    and get_put: "ok s \<Longrightarrow> vkey k \<Longrightarrow> vval v \<Longrightarrow> vkey k' \<Longrightarrow>
      get k' (put k v s) = (if k' = k then v else get k' s)"
begin

lemma get_fold_put:
  assumes "ok s" "\<forall>(k, v) \<in> set kvs. vkey k \<and> vval v" "vkey k"
  shows "get k (fold (\<lambda>(k, v). put k v) kvs s) =
    (case map_of (rev kvs) k of None \<Rightarrow> get k s | Some v \<Rightarrow> v)"
  using assms
proof (induction kvs arbitrary: s)
  case (Cons kv kvs)
  obtain k0 v0 where kv: "kv = (k0, v0)" by force
  have "ok (put k0 v0 s)"
    using Cons.prems kv by (auto intro: put_ok)
  then have "get k (fold (\<lambda>(k, v). put k v) kvs (put k0 v0 s)) =
      (case map_of (rev kvs) k of None \<Rightarrow> get k (put k0 v0 s) | Some v \<Rightarrow> v)"
    using Cons.prems by (intro Cons.IH) auto
  then show ?case
    using Cons.prems kv by (auto simp: get_put map_add_def split: option.splits)
qed simp

lemma ok_fold_put:
  "ok s \<Longrightarrow> \<forall>(k, v) \<in> set kvs. vkey k \<and> vval v \<Longrightarrow> ok (fold (\<lambda>(k, v). put k v) kvs s)"
  by (induction kvs arbitrary: s) (auto intro: put_ok)

end

definition handler_table_ok :: "'b build_scheme \<Rightarrow> 'a exc_core_scheme \<Rightarrow> bool" where
  "handler_table_ok b s \<longleftrightarrow> length (exc_int_handler_table s) = NUM_EXC_ALL b \<and> num_exc_int b \<le> 240"

lemma excno_in_range:
  assumes "num_exc_int b \<le> 240"
  shows "n < (of_nat (NUM_EXC_ALL b) :: u32) \<longleftrightarrow> unat n < NUM_EXC_ALL b"
proof -
  have "unat (of_nat (NUM_EXC_ALL b) :: u32) = NUM_EXC_ALL b"
    using assms by (intro unat_of_nat_u32) simp
  then show ?thesis
    by (simp add: word_less_nat_alt)
qed

interpretation exc_handlers: cell_bank "\<lambda>k v s. snd (exc_handler_install b k v s)"
  "\<lambda>k s. exc_handler_get b k s" "handler_table_ok b" "\<lambda>k. k < of_nat (NUM_EXC_ALL b)" "\<lambda>v. v \<noteq> 0"
  for b :: "'b build_scheme"
proof
  fix s :: "'a exc_core_scheme" and k v k' :: u32
  assume "handler_table_ok b s" "k < of_nat (NUM_EXC_ALL b)" "v \<noteq> 0"
  then show "handler_table_ok b (snd (exc_handler_install b k v s))"
    by (simp add: handler_table_ok_def exc_handler_install_def)
  assume "k' < of_nat (NUM_EXC_ALL b)"
  with \<open>handler_table_ok b s\<close> \<open>k < of_nat (NUM_EXC_ALL b)\<close> \<open>v \<noteq> 0\<close>
  show "exc_handler_get b k' (snd (exc_handler_install b k v s)) =
      (if k' = k then v else exc_handler_get b k' s)"
    by (auto simp: handler_table_ok_def exc_handler_install_def exc_handler_get_def excno_in_range
        nth_list_update word_unat_eq_iff simp del: of_nat_add)
qed

definition pri_valid :: "'b build_scheme \<Rightarrow> int \<Rightarrow> bool" where
  "pri_valid b p \<longleftrightarrow> int_pri_min b \<le> p \<and> p \<le> INT_PRI_MAX \<and> -16 \<le> int_pri_min b"

interpretation int_pris: cell_bank "\<lambda>k p s. snd (int_pri_set b k p s)" "\<lambda>k s. fst (int_pri_get b k s)"
  "\<lambda>_. True" "int_in_range b" "pri_valid b" for b :: "'b build_scheme"
proof
  fix s :: "'a arc_core_scheme" and k k' :: u32 and p :: int
  assume k: "int_in_range b k" "pri_valid b p" "int_in_range b k'"
  then show "fst (int_pri_get b k' (snd (int_pri_set b k p s))) =
      (if k' = k then p else fst (int_pri_get b k' s))"
    using int_pri_set_spec [of b k p s]
    by (auto simp: pri_valid_def fst_int_pri_get split: prod.splits)
qed simp

text \<open>
  C17. However many handlers are installed, in whatever order, \<open>exc_handler_get\<close> returns for
  each exception the handler that was installed for it last, and the one it had before when
  none was.
\<close>

theorem exc_handler_last_installed:
  assumes "handler_table_ok b s" "\<forall>(n, h) \<in> set hs. n < of_nat (NUM_EXC_ALL b) \<and> h \<noteq> 0"
    and "n < of_nat (NUM_EXC_ALL b)"
  shows "exc_handler_get b n (fold (\<lambda>(n, h) s. snd (exc_handler_install b n h s)) hs s) =
    (case map_of (rev hs) n of None \<Rightarrow> exc_handler_get b n s | Some h \<Rightarrow> h)"
  using assms by (rule exc_handlers.get_fold_put)

definition demo_exc :: exc_core where
  "demo_exc = arc_core.extend core_zero (exc_core.fields (replicate 20 0x100))"

theorem exc_handler_last_installed_witness:
  "exc_handler_get demo_build 17
     (fold (\<lambda>(n, h) s. snd (exc_handler_install demo_build n h s)) [(17, 0x200), (18, 0x300), (17, 0x400)] demo_exc)
   = 0x400"
  using exc_handler_last_installed
    [of demo_build demo_exc "[(17, 0x200), (18, 0x300), (17, 0x400)]" 17]
  by (simp add: demo_build_def demo_exc_def handler_table_ok_def arc_core.defs exc_core.defs)

section \<open>The vector table\<close>

lemma dcache_flush_line_spec:
  assumes "\<not> busy AUX_DC_FLDL a n"
  shows "\<exists>s'. dcache_flush_line busy a s = Some s' \<and> memory s' = memory s \<and>
    aux_regs s' AUX_STATUS32 = aux_regs s AUX_STATUS32 \<and> arc_core.more s' = arc_core.more s"
proof -
  obtain key s1 where lock: "arc_lock_save s = (key, s1)"
    by (cases "arc_lock_save s")
  have "aux_regs (arc_unlock_restore key (arc_aux_write AUX_DC_FLDL a s1)) AUX_STATUS32 = aux_regs s AUX_STATUS32"
    using lock by (rule lock_restore_status) (simp add: aux_write_simps)
  then show ?thesis
    using assms lock lock_save_fields [OF lock]
    by (auto simp: dcache_flush_line_def dc_command_returns [where busy = busy and n = n])
qed

text \<open>
  C18. Provided the data cache finishes its flush, \<open>exc_entry_install\<close> of an entry that is not
  yet there returns 0, writes it to the vector table that the hardware uses and leaves the
  other entries and the processor status alone. When that table is \<open>exc_entry_table\<close>,
  \<open>exc_entry_get\<close> returns the entry.
\<close>

theorem exc_entry_install_ok:
  assumes "num_exc_int b \<le> 240" "excno < of_nat (NUM_EXC_ALL b)" "entry \<noteq> 0"
    and "ld32 (memory s) (vector_base b s + 4 * excno) \<noteq> entry"
    and "\<not> busy AUX_DC_FLDL (vector_base b s + 4 * excno) n"
  shows "\<exists>s'. exc_entry_install b busy excno entry s = Some (0, s') \<and>
    (\<forall>m. exc_entry_get b (vector_base b s) m s' =
      (if m = excno then entry else exc_entry_get b (vector_base b s) m s)) \<and>
    aux_regs s' AUX_STATUS32 = aux_regs s AUX_STATUS32"
proof -
  let ?slot = "vector_base b s + 4 * excno"
  obtain key s1 where lock: "arc_lock_save s = (key, s1)"
    by (cases "arc_lock_save s")
  let ?s2 = "s1\<lparr>memory := st32 (memory s1) ?slot entry\<rparr>"
  obtain s3 where s3: "(if 0x2 < arc_aux_read ?s2 AUX_BCR_D_CACHE then dcache_flush_line busy ?slot ?s2
      else Some ?s2) = Some s3" "memory s3 = st32 (memory s) ?slot entry"
      "aux_regs s3 AUX_STATUS32 = aux_regs s1 AUX_STATUS32"
  proof (cases "0x2 < arc_aux_read ?s2 AUX_BCR_D_CACHE")
    case True
    then show ?thesis
      using that dcache_flush_line_spec [where busy = busy and a = ?slot and n = n and s = ?s2]
        assms(5) lock_save_fields(2) [OF lock] by auto
  next
    case False
    then show ?thesis
      using that [of ?s2] lock_save_fields(2) [OF lock] by simp
  qed
  define s4 where "s4 = (if 0x2 < arc_aux_read s3 AUX_BCR_D_CACHE then icache_invalidate_line ?slot s3 else s3)"
  have s4: "memory s4 = st32 (memory s) ?slot entry" "aux_regs s4 AUX_STATUS32 = aux_regs s1 AUX_STATUS32"
    using s3 by (simp_all add: s4_def icache_invalidate_line_def aux_write_simps)
  have "exc_entry_install b busy excno entry s = Some (0, arc_unlock_restore key s4)"
    using assms(2-4) s3(1) by (simp add: exc_entry_install_def lock Let_def s4_def)
  moreover have "aux_regs (arc_unlock_restore key s4) AUX_STATUS32 = aux_regs s AUX_STATUS32"
    using lock s4(2) by (rule lock_restore_status)
  moreover have "exc_entry_get b (vector_base b s) m (arc_unlock_restore key s4) =
      (if m = excno then entry else exc_entry_get b (vector_base b s) m s)" for m
  proof -
    have "word_apart ?slot (vector_base b s + 4 * m)" if "m < of_nat (NUM_EXC_ALL b)" "m \<noteq> excno"
      using that assms(1,2) word_apart_array [of "unat excno" "unat m" "vector_base b s"]
      by (simp add: excno_in_range word_unat_eq_iff del: of_nat_add)
    then show ?thesis
      using assms(2) s4(1) by (auto simp: exc_entry_get_def ld32_st32_same ld32_st32_apart)
  qed
  ultimately show ?thesis
    by blast
qed

theorem exc_entry_install_ok_witness:
  "\<exists>s'. exc_entry_install demo_build (\<lambda>_ _ n. n < 3) 17 0x500 core_zero = Some (0, s') \<and>
     exc_entry_get demo_build 0 17 s' = 0x500"
proof -
  have v: "vector_base demo_build core_zero = 0"
    by (simp add: vector_base_def demo_build_def core_zero_def aux_defs)
  then show ?thesis
    using exc_entry_install_ok [of demo_build 17 "0x500" core_zero "\<lambda>_ _ n. n < 3" 3]
    by (auto simp: demo_build_def core_zero_def ld32_def)
qed

text \<open>
  C40. \<open>int_pri_set\<close> does not check the priority it is given: a value outside the documented
  range is accepted, and with the default range the value 254 marks the interrupt as secure.
\<close>

theorem int_pri_set_unchecked:
  assumes "int_in_range b intno" "int_pri_min b = -2"
  shows "let (r, s') = int_pri_set b intno 254 s in
    r = 0 \<and> irq_bank s' intno AUX_IRQ_PRIORITY AND AUX_IRQ_PRIORITY_MASK_S = AUX_IRQ_PRIORITY_MASK_S"
proof -
  obtain key s1 where lock: "arc_lock_save s = (key, s1)"
    by (cases "arc_lock_save s")
  have "(0x100 OR x) AND 0x100 = (0x100 :: u32)" for x
    by (simp add: bit.conj_disj_distrib2 and.commute)
  then show ?thesis
    using assms lock
    by (simp add: int_pri_set_def cpu_lock_save_def cpu_unlock_restore_def irq_bank_int_pri_set)
qed

theorem int_pri_set_unchecked_witness:
  "irq_bank (snd (int_pri_set demo_build 17 254 core_zero)) 17 AUX_IRQ_PRIORITY AND AUX_IRQ_PRIORITY_MASK_S
     = AUX_IRQ_PRIORITY_MASK_S"
  using int_pri_set_unchecked [of demo_build 17 core_zero]
  by (simp add: demo_build_def int_in_range_def split: prod.splits)

end
