(* ===== verification/Arc_Frame.thy ===== *)
theory Arc_Frame
  imports Arc_Core
begin

text \<open>
  The register frames of \<open>include/arc/arc_exception.h\<close>: which words \<open>INT_EXC_FRAME_T\<close>,
  \<open>CALLEE_FRAME_T\<close> and \<open>PROCESSOR_FRAME_T\<close> hold, in order, for each choice of build options.
  Every member is one word and the structures are packed, so a member's address is the
  frame's address plus four times its position. The lemmas show that the members of a
  frame do not overlap, so that a store to one leaves the others unchanged.
\<close>

datatype frame_field =
    Erbta | R30 | Ilink | Fp | Gp | R59 | R58 | R12 | Lp_end | Lp_start | Lp_count | Ei | Ldi | Jli
  | R0 | R1 | R2 | R3 | R4 | R5 | R6 | R7 | R8 | R9 | R10 | R11 | Blink | Ret | Sec_stat | Status32
  | Dsp_fft_ctrl | Dsp_bfly0 | Acc0_ghi | Acc0_hi | Acc0_glo | Acc0_lo | Dsp_ctrl
  | Dpfp2h | Dpfp2l | Dpfp1h | Dpfp1l | Fpu_status | Fpu_ctrl
  | Secure_kernel_sp | Kernel_sp | User_sp
  | R25 | R24 | R23 | R22 | R21 | R20 | R19 | R18 | R17 | R16 | R15 | R14 | R13

definition INT_EXC_FRAME_T :: "'b build_scheme \<Rightarrow> frame_field list" where
  "INT_EXC_FRAME_T b =
     (if feat_sec b
      then [Erbta, R30, Ilink, Fp, Gp]
        @ (if feat_acc b then [R59, R58] else [])
        @ [R12, Lp_end, Lp_start, Lp_count]
        @ (if feat_code_density b then [Ei, Ldi, Jli] else [])
        @ [R0, R1, R2, R3]
        @ (if feat_rf16 b then [] else [R4, R5, R6, R7, R8, R9])
        @ [R10, R11, Blink, Ret, Sec_stat, Status32]
      else [Erbta, R30, Ilink, Fp, Gp]
        @ (if feat_acc b then [R59, R58] else [])
        @ [R12, R0, R1, R2, R3]
        @ (if feat_rf16 b then [] else [R4, R5, R6, R7, R8, R9])
        @ [R10, R11, Blink, Lp_end, Lp_start, Lp_count]
        @ (if feat_code_density b then [Ei, Ldi, Jli] else [])
        @ [Ret, Status32])"

definition DSP_EXT_FRAME_T :: "'b build_scheme \<Rightarrow> frame_field list" where
  "DSP_EXT_FRAME_T b =
     (if feat_dsp_complex b then [Dsp_fft_ctrl, Dsp_bfly0] else [])
     @ [Acc0_ghi, Acc0_hi, Acc0_glo, Acc0_lo, Dsp_ctrl]"

definition FPU_EXT_FRAME_T :: "'b build_scheme \<Rightarrow> frame_field list" where
  "FPU_EXT_FRAME_T b =
     (if feat_fpu_da b then [Dpfp2h, Dpfp2l, Dpfp1h, Dpfp1l] else []) @ [Fpu_status, Fpu_ctrl]"

definition CALLEE_FRAME_T :: "'b build_scheme \<Rightarrow> frame_field list" where
  "CALLEE_FRAME_T b =
     (if feat_fpu_dsp_ctx b
      then (if feat_dsp b then DSP_EXT_FRAME_T b else []) @ (if feat_fpu b then FPU_EXT_FRAME_T b else [])
      else [])
     @ (if feat_extra_callee b
        then (if feat_sec b then [Secure_kernel_sp, Kernel_sp] else [User_sp])
        else [])
     @ (if feat_rf16 b then [] else [R25, R24, R23, R22, R21, R20, R19, R18, R17, R16])
     @ [R15, R14, R13]"

definition PROCESSOR_FRAME_T :: "'b build_scheme \<Rightarrow> frame_field list" where
  "PROCESSOR_FRAME_T b = CALLEE_FRAME_T b @ INT_EXC_FRAME_T b"

definition ARC_EXC_FRAME_T_SIZE :: "'b build_scheme \<Rightarrow> nat" where
  "ARC_EXC_FRAME_T_SIZE b = length (INT_EXC_FRAME_T b)"

definition ARC_CALLEE_FRAME_T_SIZE :: "'b build_scheme \<Rightarrow> nat" where
  "ARC_CALLEE_FRAME_T_SIZE b = length (CALLEE_FRAME_T b)"

definition ARC_PROCESSOR_FRAME_T_SIZE :: "'b build_scheme \<Rightarrow> nat" where
  "ARC_PROCESSOR_FRAME_T_SIZE b = length (PROCESSOR_FRAME_T b)"

text \<open>The position of a member, and the addresses of the members the code names.\<close>

fun field_index :: "frame_field list \<Rightarrow> frame_field \<Rightarrow> nat" where
  "field_index [] f = 0"
| "field_index (g # gs) f = (if f = g then 0 else Suc (field_index gs f))"

definition exc_at :: "'b build_scheme \<Rightarrow> u32 \<Rightarrow> frame_field \<Rightarrow> u32" where
  "exc_at b frame f = frame + 4 * of_nat (field_index (INT_EXC_FRAME_T b) f)"

definition exc_of_processor :: "'b build_scheme \<Rightarrow> u32 \<Rightarrow> u32" where
  "exc_of_processor b frame = frame + 4 * of_nat (ARC_CALLEE_FRAME_T_SIZE b)"

definition processor_of_exc :: "'b build_scheme \<Rightarrow> u32 \<Rightarrow> u32" where
  "processor_of_exc b frame = frame - 4 * of_nat (ARC_CALLEE_FRAME_T_SIZE b)"

section \<open>Layout\<close>

lemma processor_exc_inverse [simp]:
  "exc_of_processor b (processor_of_exc b a) = a" "processor_of_exc b (exc_of_processor b a) = a"
  by (simp_all add: exc_of_processor_def processor_of_exc_def)

lemma distinct_INT_EXC_FRAME_T: "distinct (INT_EXC_FRAME_T b)"
  by (auto simp: INT_EXC_FRAME_T_def)

lemma length_INT_EXC_FRAME_T: "length (INT_EXC_FRAME_T b) \<le> 32"
  by (simp add: INT_EXC_FRAME_T_def)

lemma length_CALLEE_FRAME_T: "length (CALLEE_FRAME_T b) \<le> 28"
  by (simp add: CALLEE_FRAME_T_def DSP_EXT_FRAME_T_def FPU_EXT_FRAME_T_def)

lemma INT_EXC_FRAME_T_members:
  "{Erbta, R30, Ilink, Fp, Gp, R12, R0, R1, R2, R3, R10, R11, Blink, Ret, Status32} \<subseteq> set (INT_EXC_FRAME_T b)"
  by (simp add: INT_EXC_FRAME_T_def)

lemma field_index_less: "f \<in> set gs \<Longrightarrow> field_index gs f < length gs"
  by (induction gs) auto

lemma nth_field_index: "f \<in> set gs \<Longrightarrow> gs ! field_index gs f = f"
  by (induction gs) auto

lemma field_index_nth: "distinct gs \<Longrightarrow> i < length gs \<Longrightarrow> field_index gs (gs ! i) = i"
  by (metis field_index_less nth_eq_iff_index_eq nth_field_index nth_mem)

lemma exc_fields_apart:
  assumes "f \<in> set (INT_EXC_FRAME_T b)" "g \<in> set (INT_EXC_FRAME_T b)" "f \<noteq> g"
  shows "word_apart (exc_at b a f) (exc_at b a g)"
proof -
  let ?F = "INT_EXC_FRAME_T b"
  have "field_index ?F f \<noteq> field_index ?F g"
    using assms by (metis nth_field_index)
  moreover have "field_index ?F f < 1024" "field_index ?F g < 1024"
    using field_index_less [OF assms(1)] field_index_less [OF assms(2)] length_INT_EXC_FRAME_T [of b]
    by simp_all
  ultimately show ?thesis
    unfolding exc_at_def by (rule word_apart_array)
qed

end
