(* ===== verification/Arc_Mpu.thy ===== *)
theory Arc_Mpu
  imports Arc_Core
begin

text \<open>
  The driver of the memory protection unit, \<open>arc/arc_mpu.c\<close> and \<open>include/arc/arc_mpu.h\<close>, for
  the three versions of the unit the code supports. An entry of a version 2 or 3 unit is the
  register pair \<open>RDP\<close>/\<open>RDB\<close>, with the region's size as a power of two in five bits of \<open>RDP\<close>;
  an entry of a version 4 unit has a start, an end and a permission register, selected by
  \<open>AUX_MPU_INDEX\<close>. What a version 4 unit answers to a probe is hardware, and a parameter.

  The lemmas show that the size field encodes and decodes, that configuring an entry makes it
  cover exactly the block that was asked for, and that it leaves the other entries alone.
\<close>

abbreviation (input) "AUX_MPU_VALID_MASK \<equiv> (0x1 :: u32)"
abbreviation (input) "AUX_MPU_EN_ENABLE \<equiv> (0x40000000 :: u32)"
abbreviation (input) "AUX_MPU_EN_DISABLE \<equiv> (0xBFFFFFFF :: u32)"
abbreviation (input) "AUX_MPU_RDP_SIZE_MASK \<equiv> (0xE03 :: u32)"
abbreviation (input) "AUX_MPU_RPER_ATTR_MASK \<equiv> (0x1FF :: u32)"
abbreviation (input) "AUX_MPU_ATTR_UE \<equiv> (0x008 :: u32)"
abbreviation (input) "AUX_MPU_ATTR_UW \<equiv> (0x010 :: u32)"
abbreviation (input) "AUX_MPU_ATTR_UR \<equiv> (0x020 :: u32)"
abbreviation (input) "AUX_MPU_ATTR_KE \<equiv> (0x040 :: u32)"
abbreviation (input) "AUX_MPU_ATTR_KW \<equiv> (0x080 :: u32)"
abbreviation (input) "AUX_MPU_ATTR_KR \<equiv> (0x100 :: u32)"
abbreviation (input) "AUX_MPU_ATTR_S \<equiv> (0x8000 :: u32)"
abbreviation (input) "AUX_MPU_ATTR_SID_OFFSET \<equiv> (16 :: nat)"
abbreviation (input) "AUX_MPU_INDEX_DEFAULT \<equiv> (0x80000000 :: u32)"
abbreviation (input) "AUX_MPU_INDEX_MULT \<equiv> (0x40000000 :: u32)"
abbreviation (input) "AUX_BCR_MPU \<equiv> (0x6d :: u32)"

definition AUX_MPU_ATTR_MASK :: "'b build_scheme \<Rightarrow> u32" where
  "AUX_MPU_ATTR_MASK b =
     (if mpu_version b = 2 then 0xFFB
      else if mpu_version b = 3 then 0x1F8
      else if mpu_version b = 4 then 0xFF81F9
      else 0xFFFFFFFF)"

definition mpu_alignment_bits :: "'b build_scheme \<Rightarrow> nat" where
  "mpu_alignment_bits b = (if mpu_version b = 2 then 11 else 5)"

definition mpu_alignment :: "'b build_scheme \<Rightarrow> u32" where
  "mpu_alignment b = push_bit (mpu_alignment_bits b) 1"

definition mpu_alignment_mask :: "'b build_scheme \<Rightarrow> u32" where
  "mpu_alignment_mask b = mpu_alignment b - 1"

definition ARC_MPU_REGION_ALL_ATTR :: u32 where
  "ARC_MPU_REGION_ALL_ATTR = AUX_MPU_ATTR_UW OR AUX_MPU_ATTR_UR OR AUX_MPU_ATTR_KW OR AUX_MPU_ATTR_KR
     OR AUX_MPU_ATTR_KE OR AUX_MPU_ATTR_UE"

definition AUX_MPU_ATTR_SID :: "u32 \<Rightarrow> u32" where
  "AUX_MPU_ATTR_SID x = push_bit AUX_MPU_ATTR_SID_OFFSET x"

definition AUX_MPU_RDP_REGION_SIZE :: "nat \<Rightarrow> u32" where
  "AUX_MPU_RDP_REGION_SIZE bits =
     (let n = of_nat bits - 1 :: u32 in (n AND 0x3) OR push_bit 7 (n AND 0x1C))"

section \<open>Operations\<close>

definition arc_mpu_regions :: "'a arc_core_scheme \<Rightarrow> u32" where
  "arc_mpu_regions s = drop_bit 8 (arc_aux_read s AUX_BCR_MPU AND 0xFF00) AND 0xFF"

definition arc_mpu_default :: "'b build_scheme \<Rightarrow> u32 \<Rightarrow> 'a arc_core_scheme \<Rightarrow> 'a arc_core_scheme" where
  "arc_mpu_default b region_attr s =
     (let val = arc_aux_read s AUX_MPU_EN AND NOT (AUX_MPU_ATTR_MASK b) in
      arc_aux_write AUX_MPU_EN ((region_attr AND AUX_MPU_ATTR_MASK b) OR val) s)"

definition arc_mpu_enable :: "'b build_scheme \<Rightarrow> 'a arc_core_scheme \<Rightarrow> 'a arc_core_scheme" where
  "arc_mpu_enable b s =
     (if mpu_version b = 2 \<or> mpu_version b = 3
      then arc_aux_write AUX_MPU_EN (arc_aux_read s AUX_MPU_EN OR AUX_MPU_EN_ENABLE) s
      else if mpu_version b = 4 then arc_mpu_default b 0 s
      else s)"

definition arc_mpu_disable :: "'b build_scheme \<Rightarrow> 'a arc_core_scheme \<Rightarrow> 'a arc_core_scheme" where
  "arc_mpu_disable b s =
     (if mpu_version b = 2 \<or> mpu_version b = 3
      then arc_aux_write AUX_MPU_EN (arc_aux_read s AUX_MPU_EN AND AUX_MPU_EN_DISABLE) s
      else if mpu_version b = 4
      then arc_mpu_default b (ARC_MPU_REGION_ALL_ATTR OR AUX_MPU_ATTR_S OR AUX_MPU_ATTR_SID 1) s
      else s)"

text \<open>
  The register values that \<open>arc_mpu_region_config\<close> computes before it writes them. The number of
  the highest bit, less one, is stored in eight bits, so that it is 255 for the size 0.
\<close>

definition mpu_size_bits :: "'b build_scheme \<Rightarrow> u32 \<Rightarrow> nat" where
  "mpu_size_bits b sz =
     (let bits = (arc_find_msb sz + 255) mod 256;
          bits = (if bits < mpu_alignment_bits b then mpu_alignment_bits b else bits)
      in if push_bit bits 1 < sz then bits + 1 else bits)"

definition mpu_rdp_rdb :: "'b build_scheme \<Rightarrow> u32 \<Rightarrow> u32 \<Rightarrow> u32 \<Rightarrow> u32 \<times> u32" where
  "mpu_rdp_rdb b base sz region_attr =
     (if 0 < sz
      then ((region_attr AND NOT AUX_MPU_RDP_SIZE_MASK) OR AUX_MPU_RDP_REGION_SIZE (mpu_size_bits b sz),
            base OR AUX_MPU_VALID_MASK)
      else (region_attr, 0))"

definition mpu_rend_rper :: "'b build_scheme \<Rightarrow> u32 \<Rightarrow> u32 \<Rightarrow> u32 \<Rightarrow> u32 \<times> u32" where
  "mpu_rend_rper b base sz region_attr =
     (let sz = (if sz < mpu_alignment b then mpu_alignment b else sz);
          region_attr = (if region_attr \<noteq> 0
            then (region_attr AND AUX_MPU_RPER_ATTR_MASK) OR AUX_MPU_VALID_MASK else region_attr)
      in (base + sz - mpu_alignment b, region_attr))"

definition arc_mpu_region_config ::
    "'b build_scheme \<Rightarrow> nat \<Rightarrow> u32 \<Rightarrow> u32 \<Rightarrow> u32 \<Rightarrow> 'a arc_core_scheme \<Rightarrow> 'a arc_core_scheme" where
  "arc_mpu_region_config b index base sz region_attr s =
     (if mpu_regions b \<le> index then s
      else let region_attr = region_attr AND AUX_MPU_ATTR_MASK b in
        if mpu_version b = 2 \<or> mpu_version b = 3
        then let (rdp, rdb) = mpu_rdp_rdb b base sz region_attr;
                 s = arc_aux_write (2 * of_nat index + AUX_MPU_RDP0) rdp s
             in arc_aux_write (2 * of_nat index + AUX_MPU_RDB0) rdb s
        else if mpu_version b = 4
        then let (rend, rper) = mpu_rend_rper b base sz region_attr;
                 s = arc_aux_write AUX_MPU_INDEX (of_nat index) s;
                 s = arc_aux_write AUX_MPU_RSTART base s;
                 s = arc_aux_write AUX_MPU_REND rend s
             in arc_aux_write AUX_MPU_RPER rper s
        else s)"

text \<open>
  The match of a version 2 or 3 entry as the code computes it; \<open>None\<close> where the code shifts
  by the width of the word, which the size field of a four gigabyte region makes it do.
\<close>

definition mpu_in_region_v23 ::
    "'b build_scheme \<Rightarrow> 'a arc_core_scheme \<Rightarrow> nat \<Rightarrow> u32 \<Rightarrow> u32 \<Rightarrow> bool option" where
  "mpu_in_region_v23 b s index start sz =
     (let r_addr_start = arc_aux_read s (AUX_MPU_RDB0 + 2 * of_nat index) AND NOT AUX_MPU_VALID_MASK;
          l = arc_aux_read s (AUX_MPU_RDP0 + 2 * of_nat index) AND AUX_MPU_ATTR_MASK b;
          r_size_lshift = unat ((l AND 0x3) OR (drop_bit 7 l AND 0x1C))
      in if r_size_lshift + 1 \<ge> 32 then None
         else Some (r_addr_start \<le> start \<and> start + sz < r_addr_start + push_bit (r_size_lshift + 1) 1))"

fun mpu_probe_v23 :: "'b build_scheme \<Rightarrow> 'a arc_core_scheme \<Rightarrow> u32 \<Rightarrow> nat list \<Rightarrow> int option" where
  "mpu_probe_v23 b s addr [] = Some (-1)"
| "mpu_probe_v23 b s addr (index # is) =
     (case mpu_in_region_v23 b s index addr 0 of
        None \<Rightarrow> None
      | Some True \<Rightarrow> Some (int index)
      | Some False \<Rightarrow> mpu_probe_v23 b s addr is)"

definition arc_mpu_probe ::
    "'b build_scheme \<Rightarrow> ('a arc_core_scheme \<Rightarrow> u32 \<Rightarrow> u32) \<Rightarrow> u32 \<Rightarrow> 'a arc_core_scheme
       \<Rightarrow> int option \<times> 'a arc_core_scheme" where
  "arc_mpu_probe b hw addr s =
     (if mpu_version b = 2 \<or> mpu_version b = 3
      then (mpu_probe_v23 b s addr [0..<mpu_regions b], s)
      else if mpu_version b = 4
      then let s1 = arc_aux_write AUX_MPU_PROBE addr s;
               s2 = arc_aux_write AUX_MPU_INDEX (hw s1 addr) s1;
               index = arc_aux_read s2 AUX_MPU_INDEX
           in (Some (if index AND (AUX_MPU_INDEX_DEFAULT OR AUX_MPU_INDEX_MULT) \<noteq> 0 then -1
                     else sint index), s2)
      else (Some (-2), s))"

definition arc_mpu_in_region ::
    "'b build_scheme \<Rightarrow> ('a arc_core_scheme \<Rightarrow> u32 \<Rightarrow> u32) \<Rightarrow> nat \<Rightarrow> u32 \<Rightarrow> u32 \<Rightarrow> 'a arc_core_scheme
       \<Rightarrow> bool option \<times> 'a arc_core_scheme" where
  "arc_mpu_in_region b hw index start sz s =
     (if mpu_version b = 2 \<or> mpu_version b = 3 then (mpu_in_region_v23 b s index start sz, s)
      else if mpu_version b = 4
      then let (p, s1) = arc_mpu_probe b hw start s in
           if map_option of_int p \<noteq> Some (of_nat index :: u32) then (Some False, s1)
           else let (q, s2) = arc_mpu_probe b hw (start + sz) s1
                in (Some (map_option of_int q = Some (of_nat index :: u32)), s2)
      else (Some False, s))"

section \<open>Entries\<close>

text \<open>
  The contents of an entry, what the code writes there, and the addresses the unit matches
  against it: version 2 and 3 compare the address bits above the region's size, version 4
  compares with the start and with the last granule.
\<close>

definition mpu_entry :: "'b build_scheme \<Rightarrow> 'a arc_core_scheme \<Rightarrow> nat \<Rightarrow> u32 \<times> u32 \<times> u32" where
  "mpu_entry b s i =
     (if mpu_version b = 4
      then (mpu_bank s (of_nat i) AUX_MPU_RSTART, mpu_bank s (of_nat i) AUX_MPU_REND,
            mpu_bank s (of_nat i) AUX_MPU_RPER)
      else (aux_regs s (2 * of_nat i + AUX_MPU_RDP0), aux_regs s (2 * of_nat i + AUX_MPU_RDB0), 0))"

definition mpu_encode :: "'b build_scheme \<Rightarrow> u32 \<Rightarrow> u32 \<Rightarrow> u32 \<Rightarrow> u32 \<times> u32 \<times> u32" where
  "mpu_encode b base sz attr =
     (let attr = attr AND AUX_MPU_ATTR_MASK b in
      if mpu_version b = 4
      then (base, mpu_rend_rper b base sz attr)
      else let (rdp, rdb) = mpu_rdp_rdb b base sz attr in (rdp, rdb, 0))"

definition mpu_size_field :: "u32 \<Rightarrow> nat" where
  "mpu_size_field rdp = unat ((rdp AND 0x3) OR (drop_bit 7 rdp AND 0x1C)) + 1"

definition mpu_entry_covers :: "'b build_scheme \<Rightarrow> u32 \<times> u32 \<times> u32 \<Rightarrow> u32 \<Rightarrow> bool" where
  "mpu_entry_covers b e addr =
     (case e of (x, y, z) \<Rightarrow>
        if mpu_version b = 4 then bit z 0 \<and> x \<le> addr \<and> addr \<le> y OR mpu_alignment_mask b
        else bit y 0 \<and> drop_bit (mpu_size_field x) addr = drop_bit (mpu_size_field x) y)"

text \<open>The units the driver is written for have at most 16 entries.\<close>

definition mpu_build_ok :: "'b build_scheme \<Rightarrow> bool" where
  "mpu_build_ok b \<longleftrightarrow> mpu_version b \<in> {2, 3, 4} \<and> mpu_regions b \<le> 16"

text \<open>A block that an entry can describe exactly.\<close>

definition mpu_block_ok :: "'b build_scheme \<Rightarrow> u32 \<Rightarrow> u32 \<Rightarrow> bool" where
  "mpu_block_ok b base sz \<longleftrightarrow>
     unat (mpu_alignment b) \<le> unat sz \<and> unat base + unat sz \<le> 2 ^ 32 \<and>
     (if mpu_version b = 4
      then unat base mod unat (mpu_alignment b) = 0 \<and> unat sz mod unat (mpu_alignment b) = 0
      else unat sz = 2 ^ (bit_length (unat sz) - 1) \<and> unat base mod unat sz = 0)"

section \<open>The size field\<close>

lemma size_mask_bits:
  "bit (0x3 :: u32) n \<longleftrightarrow> n < 2" "bit (0x1C :: u32) n \<longleftrightarrow> 2 \<le> n \<and> n < 5"
  "bit (0xE03 :: u32) n \<longleftrightarrow> n < 2 \<or> 9 \<le> n \<and> n < 12"
proof -
  have eqs: "(0x3 :: u32) = mask 2" "(0x1C :: u32) = push_bit 2 (mask 3)"
    "(0xE03 :: u32) = mask 2 OR push_bit 9 (mask 3)"
    by (simp_all add: mask_eq_exp_minus_1 push_bit_eq_mult)
  show "bit (0x3 :: u32) n \<longleftrightarrow> n < 2" "bit (0x1C :: u32) n \<longleftrightarrow> 2 \<le> n \<and> n < 5"
    "bit (0xE03 :: u32) n \<longleftrightarrow> n < 2 \<or> 9 \<le> n \<and> n < 12"
    unfolding eqs by (simp only: bit_push_bit_iff bit_or_iff bit_mask_iff possible_bit_word; auto)+
qed

lemma size_field_word:
  fixes n attr :: u32
  assumes "\<And>k. bit n k \<Longrightarrow> k < 5"
  defines "x \<equiv> (attr AND NOT 0xE03) OR ((n AND 0x3) OR push_bit 7 (n AND 0x1C))"
  shows "(x AND 0x3) OR (drop_bit 7 x AND 0x1C) = n"
proof (rule bit_word_eqI)
  fix k assume "k < LENGTH(32)"
  show "bit ((x AND 0x3) OR (drop_bit 7 x AND 0x1C)) k = bit n k"
    using assms(1) [of k] \<open>k < LENGTH(32)\<close>
    unfolding x_def bit_or_iff bit_and_iff bit_not_iff bit_push_bit_iff bit_drop_bit_eq
      size_mask_bits possible_bit_word comp_def
    by auto
qed

lemma mpu_size_field_decode:
  assumes "1 \<le> bits" "bits \<le> 32"
  shows "mpu_size_field ((attr AND NOT AUX_MPU_RDP_SIZE_MASK) OR AUX_MPU_RDP_REGION_SIZE bits) = bits"
proof -
  let ?n = "of_nat bits - 1 :: u32"
  have n: "?n = of_nat (bits - 1)" and u: "unat ?n = bits - 1"
    using assms unat_of_nat_u32 [of "bits - 1"] by (simp_all add: of_nat_diff)
  have "unat ?n < 2 ^ 5"
    using u assms by simp
  then have small: "k < 5" if "bit ?n k" for k
    using bit_lt_pow2 that by blast
  let ?x = "(attr AND NOT 0xE03) OR ((?n AND 0x3) OR push_bit 7 (?n AND 0x1C))"
  have "(?x AND 0x3) OR (drop_bit 7 ?x AND 0x1C) = ?n"
    by (rule size_field_word) (rule small)
  then show ?thesis
    unfolding mpu_size_field_def AUX_MPU_RDP_REGION_SIZE_def Let_def using u assms by (simp only:)
qed

lemma mpu_alignment_bits_le: "5 \<le> mpu_alignment_bits b" "mpu_alignment_bits b \<le> 11"
  by (simp_all add: mpu_alignment_bits_def)

lemma unat_mpu_alignment: "unat (mpu_alignment b) = 2 ^ mpu_alignment_bits b"
  by (simp add: mpu_alignment_def mpu_alignment_bits_def)

lemma msb_minus_1: "0 < n \<Longrightarrow> n \<le> 32 \<Longrightarrow> (n + 255) mod 256 = n - (1 :: nat)"
  by (cases n) simp_all

lemma mpu_size_bits_pow2:
  assumes "unat sz = 2 ^ k" "mpu_alignment_bits b \<le> k"
  shows "mpu_size_bits b sz = k" and "k < 32"
proof -
  have "(2::nat) ^ k < 2 ^ 32"
    using assms(1) unat_lt_2p32 [of sz] by simp
  then show k: "k < 32"
    by (simp only: power_strict_increasing_iff)
  have "unat (push_bit k 1 :: u32) = 2 ^ k"
    using k by (rule unat_push_bit_1)
  then have "\<not> (push_bit k 1 :: u32) < sz"
    using assms(1) by (simp add: word_less_nat_alt)
  then show "mpu_size_bits b sz = k"
    using assms k msb_minus_1 [of "Suc k"] by (simp add: mpu_size_bits_def arc_find_msb_def bit_length_pow2 Let_def)
qed

lemma mpu_size_bits_bounds:
  assumes "0 < sz"
  shows "mpu_alignment_bits b \<le> mpu_size_bits b sz" "mpu_size_bits b sz \<le> 32"
    "unat sz \<le> 2 ^ mpu_size_bits b sz"
proof -
  let ?l = "bit_length (unat sz)"
  let ?m = "max (mpu_alignment_bits b) (?l - 1)"
  have l: "2 ^ (?l - 1) \<le> unat sz" "unat sz < 2 ^ ?l" "?l \<le> 32"
    using bit_length_bounds [of "unat sz"] bit_length_u32 [of sz] assms
    by (auto simp: word_less_nat_alt)
  have bits: "mpu_size_bits b sz = (if push_bit ?m 1 < sz then ?m + 1 else ?m)"
    using msb_minus_1 [of ?l] l(2,3) assms
    by (cases "?l = 0") (simp_all add: mpu_size_bits_def arc_find_msb_def Let_def max_def word_less_nat_alt)
  have m: "?m < 32"
    using l(3) mpu_alignment_bits_le [of b] by simp
  then have pm: "unat (push_bit ?m 1 :: u32) = 2 ^ ?m"
    by (rule unat_push_bit_1)
  show "mpu_alignment_bits b \<le> mpu_size_bits b sz" "mpu_size_bits b sz \<le> 32"
    unfolding bits using m by auto
  have "(2::nat) ^ ?l \<le> 2 ^ (?m + 1)"
    by (rule power_increasing) auto
  with l(2) have "unat sz \<le> 2 ^ (?m + 1)"
    by linarith
  then show "unat sz \<le> 2 ^ mpu_size_bits b sz"
    unfolding bits using pm by (auto simp: word_less_nat_alt not_less)
qed

section \<open>Configuring one entry\<close>

lemma unat_mpu_reg:
  assumes "i < 16" "c \<in> {0x422, 0x423}"
  shows "unat (2 * of_nat i + c :: u32) = 2 * i + unat c"
proof -
  have "(2 * of_nat i + c :: u32) = of_nat (2 * i + unat c)"
    by simp
  moreover have "2 * i + unat c < 2 ^ 32"
    using assms by auto
  ultimately show ?thesis
    using unat_of_nat_u32 by metis
qed

lemma mpu_reg_eq_iff:
  assumes "i < 16" "j < 16" "c \<in> {0x422, 0x423}" "d \<in> {0x422, 0x423}"
  shows "(2 * of_nat i + c :: u32) = 2 * of_nat j + d \<longleftrightarrow> i = j \<and> c = d"
proof -
  have "(2 * of_nat i + c :: u32) = 2 * of_nat j + d \<longleftrightarrow> 2 * i + unat c = 2 * j + unat d"
    using assms by (simp only: word_unat_eq_iff unat_mpu_reg)
  moreover have "unat c \<in> {0x422, 0x423}" "unat d \<in> {0x422, 0x423}"
    using assms by auto
  ultimately show ?thesis
    by (auto simp: word_unat_eq_iff) presburger+
qed

lemma mpu_reg_not_banked:
  assumes "i < 16" "c \<in> {0x422, 0x423}"
  shows "\<not> irq_banked (2 * of_nat i + c)" "\<not> mpu_banked (2 * of_nat i + c)"
    "2 * of_nat i + c \<noteq> AUX_STATUS32"
proof -
  have range: "\<not> irq_banked r \<and> \<not> mpu_banked r \<and> r \<noteq> AUX_STATUS32"
    if "0x422 \<le> unat r" "unat r \<le> 0x441" for r
    using that by (auto simp: irq_banked_def mpu_banked_def)
  have "0x422 \<le> unat (2 * of_nat i + c :: u32)" "unat (2 * of_nat i + c :: u32) \<le> 0x441"
    using assms by (auto simp: unat_mpu_reg)
  then show "\<not> irq_banked (2 * of_nat i + c)" "\<not> mpu_banked (2 * of_nat i + c)"
      "2 * of_nat i + c \<noteq> AUX_STATUS32"
    using range by blast+
qed

lemma mpu_reg_plain:
  assumes "i < 16" "c \<in> {0x422, 0x423}"
  shows "arc_aux_write (2 * of_nat i + c) v s =
    s\<lparr>sr_log := (2 * of_nat i + c, v) # sr_log s, aux_regs := (aux_regs s)(2 * of_nat i + c := v)\<rparr>"
  by (simp add: arc_aux_write_def mpu_reg_not_banked [OF assms])

lemma mpu_reg_read:
  assumes "i < 16" "c \<in> {0x422, 0x423}"
  shows "arc_aux_read s (c + 2 * of_nat i) = aux_regs s (2 * of_nat i + c)"
  using mpu_reg_not_banked [OF assms] by (simp add: arc_aux_read_def add.commute)

lemma of_nat_u32_eq_iff: "i < 16 \<Longrightarrow> j < 16 \<Longrightarrow> (of_nat i :: u32) = of_nat j \<longleftrightarrow> i = j"
proof -
  assume "i < 16" "j < 16"
  then have "unat (of_nat i :: u32) = i" "unat (of_nat j :: u32) = j"
    using unat_of_nat_u32 [of i] unat_of_nat_u32 [of j] by simp_all
  then show ?thesis
    by metis
qed

lemma twice_of_nat_u32_eq_iff:
  "i < 16 \<Longrightarrow> j < 16 \<Longrightarrow> (2 * of_nat i :: u32) = 2 * of_nat j \<longleftrightarrow> i = j"
  using mpu_reg_eq_iff [of i j "0x422" "0x422"] by simp

lemma mpu_entry_config:
  assumes "mpu_build_ok b" "i < mpu_regions b" "j < 16"
  shows "mpu_entry b (arc_mpu_region_config b i base sz attr s) j =
    (if j = i then mpu_encode b base sz attr else mpu_entry b s j)"
proof -
  have i: "i < 16"
    using assms(1,2) by (simp add: mpu_build_ok_def)
  show ?thesis
  proof (cases "mpu_version b = 4")
    case True
    then show ?thesis
      using assms i of_nat_u32_eq_iff [OF i assms(3)]
      by (auto simp: arc_mpu_region_config_def mpu_entry_def mpu_encode_def Let_def
          aux_write_simps split: prod.splits)
  next
    case False
    then show ?thesis
      using assms i
      by (auto simp: arc_mpu_region_config_def mpu_entry_def mpu_encode_def Let_def mpu_reg_plain
          mpu_reg_eq_iff twice_of_nat_u32_eq_iff mpu_build_ok_def split: prod.splits)
  qed
qed

lemma drop_bit_block_iff:
  fixes a c :: u32
  assumes "unat c mod 2 ^ k = 0"
  shows "drop_bit k a = drop_bit k c \<longleftrightarrow> unat c \<le> unat a \<and> unat a < unat c + 2 ^ k"
proof -
  obtain q where q: "unat c = q * 2 ^ k"
    using assms by (metis mod_0_imp_dvd dvd_def mult.commute)
  have "drop_bit k a = drop_bit k c \<longleftrightarrow> unat a div 2 ^ k = q"
    unfolding word_unat_eq_iff unat_drop_bit_u32 q by simp
  also have "\<dots> \<longleftrightarrow> q * 2 ^ k \<le> unat a \<and> unat a < (q + 1) * 2 ^ k"
    using div_nat_eqI [of "2 ^ k" q "unat a"] div_times_less_eq_dividend [of "unat a" "2 ^ k"]
      dividend_less_times_div [of "2 ^ k" "unat a"] by (auto simp: algebra_simps)
  finally show ?thesis
    by (simp add: q algebra_simps)
qed

lemma drop_bit_or_1: "0 < k \<Longrightarrow> drop_bit k (x OR 1 :: u32) = drop_bit k x"
  by (rule bit_word_eqI) (auto simp: bit_drop_bit_eq bit_or_iff bit_1_iff)

lemma encode_covers_v23:
  assumes "mpu_version b \<noteq> 4" "mpu_block_ok b base sz"
  shows "mpu_entry_covers b (mpu_encode b base sz attr) addr \<longleftrightarrow>
    unat base \<le> unat addr \<and> unat addr < unat base + unat sz"
proof -
  define k where "k = bit_length (unat sz) - 1"
  have sz: "unat sz = 2 ^ k" and base: "unat base mod 2 ^ k = 0"
    and al: "(2::nat) ^ mpu_alignment_bits b \<le> 2 ^ k"
    using assms by (simp_all add: mpu_block_ok_def k_def unat_mpu_alignment)
  have ka: "mpu_alignment_bits b \<le> k"
    using al by (simp only: power_increasing_iff)
  have bits: "mpu_size_bits b sz = k" "k < 32"
    using mpu_size_bits_pow2 [OF sz ka] by auto
  have k: "1 \<le> k" "k \<le> 32"
    using ka bits(2) mpu_alignment_bits_le [of b] by auto
  have pos: "0 < sz"
    using sz by (simp add: word_less_nat_alt)
  obtain rdp where "mpu_encode b base sz attr = (rdp, base OR 1, 0)" "mpu_size_field rdp = k"
    using assms(1) pos k mpu_size_field_decode [of k]
    by (simp only: mpu_encode_def mpu_rdp_rdb_def Let_def bits if_False if_True prod.case)
  then show ?thesis
    using assms(1) drop_bit_block_iff [OF base, of addr] k
    by (simp add: mpu_entry_covers_def drop_bit_or_1 sz bit_or_iff)
qed

lemma or_mask_block_end:
  assumes "unat y mod 32 = 0"
  shows "unat (y OR 0x1F :: u32) = unat y + 31"
proof -
  have "unat (take_bit 5 y) = 0"
    using assms by (simp add: take_bit_eq_mod unat_mod)
  then have "y AND mask 5 = 0"
    by (simp add: take_bit_eq_mask unat_eq_zero)
  then have "y AND 0x1F = 0"
    by (simp add: mask_eq_exp_minus_1)
  then have or: "y OR 0x1F = y + 0x1F"
    by (simp add: disjunctive_add_eq_or)
  obtain q where q: "unat y = 32 * q"
    using assms by (metis mod_0_imp_dvd dvd_def)
  have "unat y + 31 < 2 ^ 32"
    using unat_lt_2p32 [of y] q by simp
  then show ?thesis
    unfolding or using unat_add_lem [of y "0x1F"] by simp
qed

lemma encode_covers_v4:
  assumes v: "mpu_version b = 4" and ok: "mpu_block_ok b base sz"
    and attr: "attr AND AUX_MPU_ATTR_MASK b \<noteq> 0"
  shows "mpu_entry_covers b (mpu_encode b base sz attr) addr \<longleftrightarrow>
    unat base \<le> unat addr \<and> unat addr < unat base + unat sz"
proof -
  have al: "mpu_alignment b = 0x20" "mpu_alignment_mask b = 0x1F"
    using v by (simp_all add: mpu_alignment_mask_def mpu_alignment_def mpu_alignment_bits_def)
  have blk: "32 \<le> unat sz" "unat base + unat sz \<le> 2 ^ 32" "unat base mod 32 = 0" "unat sz mod 32 = 0"
    using ok v by (simp_all add: mpu_block_ok_def al)
  have "unat (sz - 0x20) = unat sz - 32"
    using blk(1) unat_sub [of "0x20" sz] by (simp add: word_le_nat_alt)
  then have "unat (base + (sz - 0x20)) = unat base + (unat sz - 32)"
    using blk(1,2) unat_add_lem [of base "sz - 0x20"] by (simp, linarith)
  then have "unat (base + (sz - 0x20)) = unat base + unat sz - 32"
    using blk(1) by simp
  then have y: "unat (base + sz - 0x20) = unat base + unat sz - 32"
    by (simp add: algebra_simps)
  moreover have "(unat base + unat sz - 32) mod 32 = 0"
    using blk(1,3,4) by presburger
  ultimately have e: "unat (base + sz - 0x20 OR 0x1F) = unat base + unat sz - 1"
    using or_mask_block_end [of "base + sz - 0x20"] blk(1) by simp
  have "\<not> sz < 0x20"
    using blk(1) by (simp add: word_less_nat_alt)
  then show ?thesis
    using v attr e blk(1)
    by (auto simp: mpu_entry_covers_def mpu_encode_def mpu_rend_rper_def Let_def al bit_or_iff
        word_le_nat_alt)
qed

text \<open>
  C13. After \<open>arc_mpu_region_config\<close> has been asked for a block that an entry can describe
  exactly, with some access right, the unit matches an address against the entry exactly
  when it lies in the block; every other entry is as it was.
\<close>

theorem arc_mpu_region_config_covers:
  assumes "mpu_build_ok b" "i < mpu_regions b" "mpu_block_ok b base sz"
    and "attr AND AUX_MPU_ATTR_MASK b \<noteq> 0"
  shows "let s' = arc_mpu_region_config b i base sz attr s in
    (\<forall>addr. mpu_entry_covers b (mpu_entry b s' i) addr \<longleftrightarrow>
      unat base \<le> unat addr \<and> unat addr < unat base + unat sz) \<and>
    (\<forall>j < 16. j \<noteq> i \<longrightarrow> mpu_entry b s' j = mpu_entry b s j)"
proof -
  have "i < 16"
    using assms(1,2) by (simp add: mpu_build_ok_def)
  then show ?thesis
    using assms unfolding Let_def
    by (cases "mpu_version b = 4")
      (simp_all add: mpu_entry_config encode_covers_v23 encode_covers_v4)
qed

theorem arc_mpu_region_config_covers_witness:
  "mpu_entry_covers demo_build
     (mpu_entry demo_build (arc_mpu_region_config demo_build 3 0x20000000 0x1000 AUX_MPU_ATTR_UR core_zero) 3)
     0x20000FFF \<and>
   \<not> mpu_entry_covers demo_build
     (mpu_entry demo_build (arc_mpu_region_config demo_build 3 0x20000000 0x1000 AUX_MPU_ATTR_UR core_zero) 3)
     0x20001000"
  using arc_mpu_region_config_covers [of demo_build 3 "0x20000000" "0x1000" AUX_MPU_ATTR_UR core_zero]
  by (simp add: demo_build_def mpu_build_ok_def mpu_block_ok_def mpu_alignment_def
      mpu_alignment_bits_def AUX_MPU_ATTR_MASK_def Let_def)

section \<open>What configuring an entry leaves alone\<close>

lemma arc_mpu_region_config_frame [simp]:
  "memory (arc_mpu_region_config b i base sz attr s) = memory s"
  "arc_core.more (arc_mpu_region_config b i base sz attr s) = arc_core.more s"
  by (simp_all add: arc_mpu_region_config_def Let_def split: prod.splits)

lemma arc_mpu_region_config_out_of_range:
  "mpu_regions b \<le> i \<Longrightarrow> arc_mpu_region_config b i base sz attr s = s"
  by (simp add: arc_mpu_region_config_def)

section \<open>Looking an address up\<close>

lemma size_field_mask:
  "((x AND 0xFFB) AND 0x3) OR (drop_bit 7 (x AND 0xFFB) AND 0x1C) = (x AND 0x3) OR (drop_bit 7 x AND 0x1C)"
  for x :: u32
proof -
  have "(0xFFB :: u32) = mask 2 OR push_bit 3 (mask 9)"
    by (simp add: mask_eq_exp_minus_1 push_bit_eq_mult)
  then have m: "bit (0xFFB :: u32) n \<longleftrightarrow> n < 2 \<or> 3 \<le> n \<and> n < 12" for n
    by (simp only: bit_push_bit_iff bit_or_iff bit_mask_iff possible_bit_word) auto
  show ?thesis
    by (rule bit_word_eqI)
      (auto simp only: bit_or_iff bit_and_iff bit_drop_bit_eq size_mask_bits m comp_def)
qed

lemma mpu_in_region_config_v2:
  assumes b: "mpu_build_ok b" "mpu_version b = 2" "i < mpu_regions b"
    and ok: "mpu_block_ok b base sz"
  shows "mpu_in_region_v23 b (arc_mpu_region_config b i base sz attr s) i start n =
    Some (base \<le> start \<and> start + n < base + sz)"
proof -
  let ?s = "arc_mpu_region_config b i base sz attr s"
  define k where "k = bit_length (unat sz) - 1"
  have i: "i < 16"
    using b by (simp add: mpu_build_ok_def)
  have sz: "unat sz = 2 ^ k" and base: "unat base mod 2 ^ k = 0"
    and al: "(2::nat) ^ mpu_alignment_bits b \<le> 2 ^ k"
    using ok b by (simp_all add: mpu_block_ok_def k_def unat_mpu_alignment)
  have ka: "mpu_alignment_bits b \<le> k"
    using al by (simp only: power_increasing_iff)
  note bits = mpu_size_bits_pow2 [OF sz ka]
  have k: "1 \<le> k" "k \<le> 32"
    using ka bits(2) mpu_alignment_bits_le [of b] by auto
  have pos: "0 < sz"
    using sz by (simp add: word_less_nat_alt)
  have sz': "push_bit k 1 = sz"
    using sz unat_push_bit_1 [OF bits(2)] by (simp add: word_unat_eq_iff)
  have ent: "mpu_entry b ?s i = mpu_encode b base sz attr"
    using b i by (simp add: mpu_entry_config)
  have rdb: "aux_regs ?s (2 * of_nat i + AUX_MPU_RDB0) = base OR 1"
    and fld: "mpu_size_field (aux_regs ?s (2 * of_nat i + AUX_MPU_RDP0)) = k"
    using ent b pos mpu_size_field_decode [OF k]
    by (simp_all add: mpu_entry_def mpu_encode_def mpu_rdp_rdb_def bits Let_def)
  have "2 dvd (2::nat) ^ k"
    using k by simp
  then have "even (unat base)"
    using base by (meson dvd_trans mod_0_imp_dvd)
  then have "\<not> bit base 0"
    using bit_unsigned_iff [where 'a = nat and w = base and n = 0] by (simp add: bit_0)
  then have "(base OR 1) AND NOT 1 = base"
    by (intro bit_word_eqI) (auto simp: bit_or_iff bit_and_iff bit_not_iff bit_1_iff intro!: gr0I)
  moreover have "arc_aux_read ?s (AUX_MPU_RDB0 + 2 * of_nat i) = base OR 1"
    "mpu_size_field (arc_aux_read ?s (AUX_MPU_RDP0 + 2 * of_nat i)) = k"
    using rdb fld by (simp_all add: mpu_reg_read [OF i])
  moreover have "AUX_MPU_ATTR_MASK b = 0xFFB"
    using b by (simp add: AUX_MPU_ATTR_MASK_def)
  ultimately show ?thesis
    using bits(2) sz'
    by (simp only: mpu_in_region_v23_def Let_def size_field_mask mpu_size_field_def) simp
qed

lemma attr_mask_bits:
  "bit (0x1F8 :: u32) n \<longleftrightarrow> 3 \<le> n \<and> n < 9" "bit (0x1FF :: u32) n \<longleftrightarrow> n < 9"
  "bit (0xFF8000 :: u32) n \<longleftrightarrow> 15 \<le> n \<and> n < 24"
proof -
  have eqs: "(0x1F8 :: u32) = push_bit 3 (mask 6)" "(0x1FF :: u32) = mask 9"
    "(0xFF8000 :: u32) = push_bit 15 (mask 9)"
    by (simp_all add: mask_eq_exp_minus_1 push_bit_eq_mult)
  show "bit (0x1F8 :: u32) n \<longleftrightarrow> 3 \<le> n \<and> n < 9" "bit (0x1FF :: u32) n \<longleftrightarrow> n < 9"
    "bit (0xFF8000 :: u32) n \<longleftrightarrow> 15 \<le> n \<and> n < 24"
    unfolding eqs by (simp only: bit_push_bit_iff bit_mask_iff possible_bit_word; auto)+
qed

text \<open>
  C14. On a version 2 unit \<open>arc_mpu_in_region\<close>, asked about an entry that was configured with a
  block it can describe, answers whether the unit matches every address from \<open>start\<close> to
  \<open>start + n\<close>, both included, against the entry, provided that the range does not run over the
  end of the address space; only for a block that ends at the top of the address space, where the
  code's end address wraps to zero, it always answers no. It changes nothing.
\<close>

theorem arc_mpu_in_region_config:
  assumes "mpu_build_ok b" "mpu_version b = 2" "i < mpu_regions b" "mpu_block_ok b base sz"
    and "unat start + unat n < 2 ^ 32"
  shows "let s' = arc_mpu_region_config b i base sz attr s in
    arc_mpu_in_region b hw i start n s' =
      (Some (unat base + unat sz < 2 ^ 32 \<and>
         (\<forall>a. unat start \<le> unat a \<and> unat a \<le> unat start + unat n \<longrightarrow> mpu_entry_covers b (mpu_entry b s' i) a)), s')"
proof -
  let ?s = "arc_mpu_region_config b i base sz attr s"
  have "i < 16"
    using assms(1,3) by (simp add: mpu_build_ok_def)
  then have cov: "mpu_entry_covers b (mpu_entry b ?s i) a \<longleftrightarrow> unat base \<le> unat a \<and> unat a < unat base + unat sz" for a
    using assms by (simp add: mpu_entry_config encode_covers_v23)
  have sum: "unat (start + n) = unat start + unat n"
    by (rule unat_add_u32 [OF assms(5)])
  have eq: "(base \<le> start \<and> start + n < base + sz) = (unat base + unat sz < 2 ^ 32 \<and>
      (\<forall>a :: u32. unat start \<le> unat a \<and> unat a \<le> unat start + unat n \<longrightarrow> unat base \<le> unat a \<and> unat a < unat base + unat sz))"
  proof (cases "unat base + unat sz < 2 ^ 32")
    case True
    then have "unat (base + sz) = unat base + unat sz"
      by (rule unat_add_u32)
    moreover have "(\<forall>a :: u32. unat start \<le> unat a \<and> unat a \<le> unat start + unat n \<longrightarrow> unat base \<le> unat a \<and> unat a < unat base + unat sz)
        \<longleftrightarrow> unat base \<le> unat start \<and> unat start + unat n < unat base + unat sz" (is "(\<forall>a. ?P a) \<longleftrightarrow> ?Q")
    proof
      assume P: "\<forall>a. ?P a"
      show ?Q
        using spec [OF P, of start] spec [OF P, of "start + n"] sum by simp
    qed auto
    ultimately show ?thesis
      using True sum by (simp add: word_le_nat_alt word_less_nat_alt)
  next
    case False
    then have "unat base + unat sz = 2 ^ 32"
      using assms(4) by (simp add: mpu_block_ok_def)
    then have "unat (base + sz) = 0"
      by (simp add: unat_word_ariths)
    then have "base + sz = 0"
      by (simp only: unat_eq_zero)
    then show ?thesis
      using False by simp
  qed
  show ?thesis
    unfolding Let_def cov arc_mpu_in_region_def mpu_in_region_config_v2 [OF assms(1-4)] eq using assms(2) by simp
qed

theorem arc_mpu_in_region_config_witness:
  "\<exists>t. arc_mpu_in_region demo_build (\<lambda>_ _. 0) 3 0x20000FFE 1
     (arc_mpu_region_config demo_build 3 0x20000000 0x1000 AUX_MPU_ATTR_UR core_zero) = (Some True, t)"
proof -
  have ok: "mpu_build_ok demo_build" "mpu_version demo_build = 2" "3 < mpu_regions demo_build"
      "mpu_block_ok demo_build 0x20000000 0x1000" "unat (0x20000FFE :: u32) + unat (1 :: u32) < 2 ^ 32"
    by (simp_all add: demo_build_def mpu_build_ok_def mpu_block_ok_def mpu_alignment_def mpu_alignment_bits_def)
  then have cov: "mpu_entry_covers demo_build (mpu_entry demo_build
      (arc_mpu_region_config demo_build 3 0x20000000 0x1000 AUX_MPU_ATTR_UR core_zero) 3) a" if "0x20000FFE \<le> unat a" "unat a \<le> 0x20000FFF" for a
    using that by (simp add: mpu_entry_config encode_covers_v23)
  show ?thesis
    using arc_mpu_in_region_config [OF ok, of AUX_MPU_ATTR_UR core_zero "\<lambda>_ _. 0"] cov by (simp add: Let_def)
qed

text \<open>
  C37. On a version 3 unit the attribute mask removes the size field that \<open>arc_mpu_in_region\<close> is
  about to decode: whatever the entry's size, the function answers for a block of two bytes.
\<close>

theorem arc_mpu_in_region_v3_size_lost:
  assumes "mpu_version b = 3"
  shows "mpu_in_region_v23 b s i start n =
    (let base = arc_aux_read s (AUX_MPU_RDB0 + 2 * of_nat i) AND NOT AUX_MPU_VALID_MASK
     in Some (base \<le> start \<and> start + n < base + 2))"
proof -
  have mask: "AUX_MPU_ATTR_MASK b = 0x1F8"
    using assms by (simp add: AUX_MPU_ATTR_MASK_def)
  have "((l AND 0x1F8) AND 0x3) OR (drop_bit 7 (l AND 0x1F8) AND 0x1C) = 0" for l :: u32
    by (rule bit_word_eqI)
      (auto simp only: bit_or_iff bit_and_iff bit_drop_bit_eq size_mask_bits attr_mask_bits comp_def bit_0_eq)
  then show ?thesis
    by (simp only: mpu_in_region_v23_def Let_def mask) simp
qed

theorem arc_mpu_in_region_v3_size_lost_witness:
  "mpu_in_region_v23 (demo_build\<lparr>mpu_version := 3\<rparr>)
     (arc_mpu_region_config (demo_build\<lparr>mpu_version := 3\<rparr>) 3 0x20000000 0x1000 AUX_MPU_ATTR_UR core_zero)
     3 0x20000800 4 = Some False"
proof -
  let ?b = "demo_build\<lparr>mpu_version := 3\<rparr>"
  let ?s = "arc_mpu_region_config ?b 3 0x20000000 0x1000 AUX_MPU_ATTR_UR core_zero"
  have "mpu_entry ?b ?s 3 = mpu_encode ?b 0x20000000 0x1000 AUX_MPU_ATTR_UR"
    by (simp add: mpu_entry_config mpu_build_ok_def demo_build_def)
  then have "aux_regs ?s (2 * of_nat 3 + AUX_MPU_RDB0) = 0x20000001"
    by (simp add: mpu_entry_def mpu_encode_def mpu_rdp_rdb_def demo_build_def)
  then have "arc_aux_read ?s (AUX_MPU_RDB0 + 2 * of_nat 3) = 0x20000001"
    using mpu_reg_read [of 3 "0x422" ?s] by (simp del: of_nat_numeral)
  moreover have "mpu_version ?b = 3"
    by simp
  ultimately show ?thesis
    by (simp only: arc_mpu_in_region_v3_size_lost Let_def) simp
qed

text \<open>
  C38. On a version 4 unit the permission register that \<open>arc_mpu_region_config\<close> writes never has
  the secure bit or a secure identifier, whatever the attribute it is given: they are among
  the bits of \<open>AUX_MPU_ATTR_MASK\<close>, but \<open>AUX_MPU_RPER_ATTR_MASK\<close> removes them again.
\<close>

theorem arc_mpu_region_config_v4_drops_secure:
  assumes "mpu_build_ok b" "mpu_version b = 4" "i < mpu_regions b"
  shows "snd (snd (mpu_entry b (arc_mpu_region_config b i base sz attr s) i)) AND 0xFF8000 = 0"
proof -
  have i: "i < 16"
    using assms by (simp add: mpu_build_ok_def)
  have "((x AND 0x1FF) OR 1) AND 0xFF8000 = 0" for x :: u32
    by (rule bit_word_eqI)
      (auto simp only: bit_or_iff bit_and_iff attr_mask_bits bit_1_iff bit_0_eq)
  then show ?thesis
    using assms by (simp add: mpu_entry_config [OF assms(1,3) i] mpu_encode_def mpu_rend_rper_def Let_def)
qed

lemma and_secure_bit: "x AND 0xFF8000 = 0 \<Longrightarrow> x AND AUX_MPU_ATTR_S = 0" for x :: u32
  using and.assoc [of x "0xFF8000" "0x8000"] by simp

theorem arc_mpu_region_config_v4_drops_secure_witness:
  "snd (snd (mpu_entry (demo_build\<lparr>mpu_version := 4\<rparr>)
      (arc_mpu_region_config (demo_build\<lparr>mpu_version := 4\<rparr>) 3 0x20000000 0x1000
        (AUX_MPU_ATTR_UR OR AUX_MPU_ATTR_S) core_zero) 3)) AND AUX_MPU_ATTR_S = 0"
  by (rule and_secure_bit, rule arc_mpu_region_config_v4_drops_secure)
    (simp_all add: demo_build_def mpu_build_ok_def)

end
