(* ===== verification/Ss_State.thy ===== *)
theory Ss_State
  imports Arc_Frame Arc_Mpu
begin

text \<open>
  The data of the SecureShield runtime (\<open>library/secureshield/core\<close>): the configuration that the
  linker places in secure ROM, the runtime's global variables as one record on top of the
  core's state, and the two small components that all others use, the container stack
  (\<open>secureshield_container_stack.h\<close>) and the description of a container call
  (\<open>secureshield_container_call.h\<close>).

  Conventions. A pointer into one of the global arrays is an index, with \<open>None\<close> for \<open>NULL\<close>.
  Container identifiers, counters and array indices are natural numbers, addresses and
  register values 32-bit words. \<open>SECURESHIELD_HALT\<close> and a failing \<open>SECURESHIELD_ASSERT\<close> do
  not return, so an operation that reaches one has the result \<open>Inl\<close> with the reason; the
  reason \<open>Undefined\<close> stands for a step that C does not define (an index outside of an array, a
  null pointer, a shift by the width of the word).
\<close>

section \<open>Constants\<close>

abbreviation (input) SECURESHIELD_MAX_CONTAINERS :: nat where "SECURESHIELD_MAX_CONTAINERS \<equiv> 5"
abbreviation (input) STACK_MAX_DEPTH :: nat where "STACK_MAX_DEPTH \<equiv> 16"
abbreviation (input) MPU_REGION_COUNT :: nat where "MPU_REGION_COUNT \<equiv> 32"
abbreviation (input) ARC_MPU_RESERVED_REGIONS :: nat where "ARC_MPU_RESERVED_REGIONS \<equiv> 2"
abbreviation (input) CONTAINER_INTERFACE_COUNT :: nat where "CONTAINER_INTERFACE_COUNT \<equiv> 10"
abbreviation (input) CONTAINER_AUX_COUNT :: nat where "CONTAINER_AUX_COUNT \<equiv> 8"

abbreviation (input) "AC_UEXECUTE \<equiv> (0x0001 :: u32)"
abbreviation (input) "AC_UWRITE \<equiv> (0x0002 :: u32)"
abbreviation (input) "AC_UREAD \<equiv> (0x0004 :: u32)"
abbreviation (input) "AC_KEXECUTE \<equiv> (0x0008 :: u32)"
abbreviation (input) "AC_KWRITE \<equiv> (0x0010 :: u32)"
abbreviation (input) "AC_KREAD \<equiv> (0x0020 :: u32)"
abbreviation (input) "AC_EXECUTE \<equiv> (0x0009 :: u32)"
abbreviation (input) "AC_ACCESS \<equiv> (0x8000003F :: u32)"
abbreviation (input) "AC_MEMORY \<equiv> (0x0100 :: u32)"
abbreviation (input) "AC_INTERFACE \<equiv> (0x0800 :: u32)"
abbreviation (input) "AC_IRQ \<equiv> (0x1000 :: u32)"
abbreviation (input) "AC_AUX \<equiv> (0x2000 :: u32)"
abbreviation (input) "AC_SIZE_ROUND_UP \<equiv> (0x10000000 :: u32)"
abbreviation (input) "AC_SIZE_ROUND_DOWN \<equiv> (0x20000000 :: u32)"
abbreviation (input) "AC_SHARED \<equiv> (0x40000000 :: u32)"
abbreviation (input) "AC_SECURE \<equiv> (0x80000000 :: u32)"
abbreviation (input) "ACDEF_UROM \<equiv> (0x0124 :: u32)"
abbreviation (input) "ACDEF_URAM \<equiv> (0x0136 :: u32)"
abbreviation (input) "ACDEF_UTEXT \<equiv> (0x012D :: u32)"
abbreviation (input) "ACDEF_KROM \<equiv> (0x0120 :: u32)"
abbreviation (input) "ACDEF_KRAM \<equiv> (0x0130 :: u32)"
abbreviation (input) "ACDEF_KTEXT \<equiv> (0x0128 :: u32)"
abbreviation (input) "CONTAINER_MAGIC \<equiv> (0x42CFB66F :: u32)"
abbreviation (input) "CONTAINER_SECURE \<equiv> (1 :: u32)"
abbreviation (input) "CONTAINER_NORMAL \<equiv> (0 :: u32)"

section \<open>Outcomes\<close>

datatype ss_stop =
    Undefined
  | Halt_config_magic | Assert_failed
  | Halt_cfg_not_rom | Halt_cfg_magic | Halt_container_overflow | Halt_container_type
  | Halt_out_of_regions | Halt_region_conflict | Halt_unordered_region | Halt_shared_sid
  | Halt_size_not_rounded | Halt_round_down | Halt_base_size | Halt_base_align | Halt_size_align
  | Halt_ac_mismatch | Halt_no_sid | Halt_mpu_entries | Halt_dst_range | Halt_load_container
  | Halt_interface_background | Halt_interface_full | Halt_find_interface_background
  | Halt_aux_background | Halt_aux_full
  | Halt_stack_overflow | Halt_stack_underflow
  | Halt_call_opcode | Halt_call_magic | Halt_call_range | Halt_same_container | Halt_no_interface
  | Halt_int_handler | Halt_irq_owner | Halt_int_frame | Halt_exception

text \<open>An array access that C does not define stops the model.\<close>

definition get_or_undef :: "'x option \<Rightarrow> ss_stop + 'x" where
  "get_or_undef x = (case x of None \<Rightarrow> Inl Undefined | Some v \<Rightarrow> Inr v)"

text \<open>
  Following a pointer to a register frame that an entry point was given: C does not define it for
  the null pointer. Any other address is an address of memory.
\<close>

definition frame_ref :: "u32 \<Rightarrow> ss_stop + 'x \<Rightarrow> ss_stop + 'x" where
  "frame_ref frame m = (if frame = 0 then Inl Undefined else m)"

lemma frame_ref_nonnull [simp]: "frame \<noteq> 0 \<Longrightarrow> frame_ref frame m = m"
  by (simp add: frame_ref_def)

lemma frame_ref_eq_Inr [res_simps]: "frame_ref frame m = Inr x \<longleftrightarrow> frame \<noteq> 0 \<and> m = Inr x"
  by (simp add: frame_ref_def)

text \<open>
  The search loops of the runtime: the first of \<open>n\<close> array elements from index \<open>i\<close> on that
  satisfies a condition.
\<close>

fun array_scan :: "('x \<Rightarrow> bool) \<Rightarrow> 'x list \<Rightarrow> nat \<Rightarrow> nat \<Rightarrow> ss_stop + nat option" where
  "array_scan p xs i 0 = Inr None"
| "array_scan p xs i (Suc n) =
     (case arr_get xs i of
        None \<Rightarrow> Inl Undefined
      | Some x \<Rightarrow> if p x then Inr (Some i) else array_scan p xs (i + 1) n)"

text \<open>The same for a block of a global array that a container may not have.\<close>

definition block_scan :: "('x \<Rightarrow> bool) \<Rightarrow> 'x list \<Rightarrow> nat option \<Rightarrow> nat \<Rightarrow> ss_stop + nat option" where
  "block_scan p xs block n =
     (case block of
        None \<Rightarrow> if n = 0 then Inr None else Inl Undefined
      | Some i \<Rightarrow> array_scan p xs i n)"

section \<open>Configuration\<close>

record CONTAINER_AC_ITEM =
  ac_param1 :: u32
  ac_param2 :: u32
  ac_ac :: u32

record CONTAINER_CONFIG =
  cc_magic :: u32
  cc_type :: u32
  cc_stack_secure :: u32
  cc_stack_size :: u32
  cc_stack_area :: u32
  cc_ac_table :: "CONTAINER_AC_ITEM list option"
  cc_ac_count :: nat
  cc_text_start :: u32
  cc_text_end :: u32
  cc_rodata_start :: u32
  cc_rodata_end :: u32
  cc_data_start :: u32
  cc_data_end :: u32
  cc_data_load_start :: u32
  cc_bss_start :: u32
  cc_bss_end :: u32

text \<open>
  A build of the runtime: the parameters of the platform, the choice between the
  implementation with secure identifiers and the one without, the memory map, and
  \<open>__secureshield_config\<close>. The table of container configurations is the list of the pointers
  between \<open>cfgtbl_ptr_start\<close> and \<open>cfgtbl_ptr_end\<close>, each with the configuration it points to.
\<close>

record ss_build = build +
  ss_sid :: bool                 \<comment> \<open>\<open>ARC_FEATURE_MPU_BUILD_S == 1 && SECURESHIELD_USE_MPU_SID == 1\<close>\<close>
  ss_copy_gp :: bool             \<comment> \<open>\<open>!defined(__MW__) || !defined(_NO_SMALL_DATA_)\<close>\<close>
  status32_reset_value :: u32
  secure_rom_start_cfg :: u32    \<comment> \<open>\<open>SECURE_ROM_START\<close>\<close>
  secure_rom_size_cfg :: u32     \<comment> \<open>\<open>SECURE_ROM_SIZE\<close>\<close>
  secure_ram_start_cfg :: u32    \<comment> \<open>\<open>SECURE_RAM_START\<close>\<close>
  normal_rom_start_cfg :: u32
  normal_ram_start_cfg :: u32
  config_addr :: u32             \<comment> \<open>\<open>&__secureshield_config\<close>\<close>
  config_size :: u32             \<comment> \<open>\<open>sizeof(__secureshield_config)\<close>\<close>
  config_magic :: u32
  secure_rom_start :: u32
  secure_rom_end :: u32
  secure_ram_start :: u32
  secure_ram_end :: u32
  background_rom_start :: u32
  background_ram_start :: u32
  cfgtbl_ptr_start :: u32
  cfgtbl_ptr_end :: u32
  cfgtbl :: "(u32 \<times> CONTAINER_CONFIG) list"
  call_out_addr :: u32           \<comment> \<open>\<open>secureshield_secure_call_container_out\<close>\<close>
  exc_table_addr :: u32          \<comment> \<open>\<open>secureshield_exc_entry_table\<close>\<close>
  sjli_table_addr :: u32         \<comment> \<open>\<open>secureshield_sjli_entry_table\<close>\<close>
  num_sjli_entry :: nat          \<comment> \<open>\<open>NUM_SJLI_ENTRY\<close>\<close>

section \<open>Global variables\<close>

record MPU_REGION =
  rg_base :: u32
  rg_attr :: u32
  rg_size :: u32
  rg_ac :: u32

record MPU_CONTAINER =
  mc_region :: "nat option"
  mc_count :: nat

record CONTAINER_INTERFACE =
  if_func :: u32
  if_args_num :: u32

record INTERFACE_CONTAINER =
  ic_interface :: "nat option"
  ic_count :: nat

record CONTAINER_AUX =
  ca_start :: u32
  ca_end :: u32

record AUX_CONTAINER =
  ax_aux :: "nat option"
  ax_count :: nat

record CONTAINER_STACK_ITEM =
  cs_src_id :: nat
  cs_src_sp :: u32

record CONTAINER_CONTEXT =
  cx_cur_sp :: u32
  cx_normal_sp :: u32
  cx_cpu_status :: u32
  cx_cfg :: "CONTAINER_CONFIG option"

record INT_HANDLER_ENTRY =
  ih_handler :: u32
  ih_id :: nat
  ih_enabled :: bool

record ss_state = arc_core +
  g_vmpu_container_count :: nat
  g_active_container :: nat
  g_container_stack :: "CONTAINER_STACK_ITEM list"
  g_container_stack_ptr :: nat
  g_container_context :: "CONTAINER_CONTEXT list"
  g_container_stack_curr_id :: nat
  g_mpu_slot :: nat
  g_mpu_region_count :: nat
  g_mpu_list :: "MPU_REGION list"
  g_mpu_container :: "MPU_CONTAINER list"
  g_interface_count :: nat
  g_interface_list :: "CONTAINER_INTERFACE list"
  g_interface_container :: "INTERFACE_CONTAINER list"
  g_secure_sid_mask :: u32
  vmpu_load :: bool
  g_aux_count :: nat
  g_aux_list :: "CONTAINER_AUX list"
  g_aux_container :: "AUX_CONTAINER list"
  int_handler_table :: "INT_HANDLER_ENTRY list"
  dst_container_user_sp :: u32

text \<open>The runtime's variables do not change when only the core does.\<close>

lemma ss_fields_more:
  assumes "arc_core.more s = arc_core.more t"
  shows "g_vmpu_container_count s = g_vmpu_container_count t" "g_active_container s = g_active_container t"
    "g_container_stack s = g_container_stack t" "g_container_stack_ptr s = g_container_stack_ptr t"
    "g_container_context s = g_container_context t"
    "g_container_stack_curr_id s = g_container_stack_curr_id t"
    "g_mpu_slot s = g_mpu_slot t" "g_mpu_region_count s = g_mpu_region_count t"
    "g_mpu_list s = g_mpu_list t" "g_mpu_container s = g_mpu_container t"
    "g_interface_count s = g_interface_count t" "g_interface_list s = g_interface_list t"
    "g_interface_container s = g_interface_container t" "g_secure_sid_mask s = g_secure_sid_mask t"
    "vmpu_load s = vmpu_load t" "g_aux_count s = g_aux_count t" "g_aux_list s = g_aux_list t"
    "g_aux_container s = g_aux_container t" "int_handler_table s = int_handler_table t"
    "dst_container_user_sp s = dst_container_user_sp t"
  using assms by (cases s; cases t; simp)+

lemmas ss_fields_core [simp] =
  ss_fields_more [OF arc_aux_write_more] ss_fields_more [OF arc_kflag_more]
  ss_fields_more [OF arc_mpu_region_config_frame(2)]

section \<open>Members of frames in memory\<close>

definition exc_ld :: "'b build_scheme \<Rightarrow> ss_state \<Rightarrow> u32 \<Rightarrow> frame_field \<Rightarrow> u32" where
  "exc_ld b s frame f = ld32 (memory s) (exc_at b frame f)"

definition exc_st :: "'b build_scheme \<Rightarrow> u32 \<Rightarrow> frame_field \<Rightarrow> u32 \<Rightarrow> ss_state \<Rightarrow> ss_state" where
  "exc_st b frame f v s = s\<lparr>memory := st32 (memory s) (exc_at b frame f) v\<rparr>"

definition callee_st :: "'b build_scheme \<Rightarrow> u32 \<Rightarrow> frame_field \<Rightarrow> u32 \<Rightarrow> ss_state \<Rightarrow> ss_state" where
  "callee_st b frame f v s =
     s\<lparr>memory := st32 (memory s) (frame + 4 * of_nat (field_index (CALLEE_FRAME_T b) f)) v\<rparr>"

section \<open>The container stack\<close>

definition set_context :: "nat \<Rightarrow> (CONTAINER_CONTEXT \<Rightarrow> CONTAINER_CONTEXT) \<Rightarrow> ss_state \<Rightarrow> ss_stop + ss_state" where
  "set_context i f s =
     (case arr_get (g_container_context s) i of
        None \<Rightarrow> Inl Undefined
      | Some c \<Rightarrow> Inr (s\<lparr>g_container_context := (g_container_context s)[i := f c]\<rparr>))"

definition container_stack_push ::
    "nat \<Rightarrow> u32 \<Rightarrow> u32 \<Rightarrow> u32 \<Rightarrow> nat \<Rightarrow> ss_state \<Rightarrow> ss_stop + ss_state" where
  "container_stack_push src_id src_sp normal_sp status dst_id s =
     (if g_container_stack_ptr s = STACK_MAX_DEPTH then Inl Halt_stack_overflow
      else case arr_set (g_container_stack s) (g_container_stack_ptr s)
                  \<lparr>cs_src_id = src_id, cs_src_sp = src_sp\<rparr> of
        None \<Rightarrow> Inl Undefined
      | Some stack \<Rightarrow>
          res_bind (set_context src_id
              (\<lambda>c. c\<lparr>cx_cur_sp := src_sp, cx_normal_sp := normal_sp, cx_cpu_status := status\<rparr>)
              (s\<lparr>g_container_stack := stack, g_container_stack_ptr := g_container_stack_ptr s + 1\<rparr>))
            (\<lambda>s. Inr (s\<lparr>g_container_stack_curr_id := dst_id\<rparr>)))"

definition container_stack_pop :: "nat \<Rightarrow> u32 \<Rightarrow> u32 \<Rightarrow> u32 \<Rightarrow> ss_state \<Rightarrow> ss_stop + ss_state" where
  "container_stack_pop dst_id dst_sp normal_sp status s =
     (if g_container_stack_ptr s = 0 then Inl Halt_stack_underflow
      else res_bind (set_context dst_id
              (\<lambda>c. c\<lparr>cx_cur_sp := dst_sp, cx_normal_sp := normal_sp, cx_cpu_status := status\<rparr>)
              (s\<lparr>g_container_stack_ptr := g_container_stack_ptr s - 1\<rparr>))
            (\<lambda>s. case arr_get (g_container_stack s) (g_container_stack_ptr s) of
                None \<Rightarrow> Inl Undefined
              | Some item \<Rightarrow> Inr (s\<lparr>g_container_stack_curr_id := cs_src_id item\<rparr>)))"

text \<open>The item that the last pop has uncovered.\<close>

definition stack_item :: "ss_state \<Rightarrow> ss_stop + CONTAINER_STACK_ITEM" where
  "stack_item s = get_or_undef (arr_get (g_container_stack s) (g_container_stack_ptr s))"

section \<open>Container calls\<close>

abbreviation (input) "CONTAINER_CALL_MAGIC \<equiv> (0x12345678 :: u32)"

text \<open>
  The description of a call follows the instruction that made it: two bytes of opcode in
  version 1 and four in version 2, then a branch, the magic number, the function and the
  address of the callee's entry in the configuration table.
\<close>

definition call_opcode_len :: "'b build_scheme \<Rightarrow> u32" where
  "call_opcode_len b = (if secureshield_version b = 1 then 2 else 4)"

definition call_opcode_ok :: "'b build_scheme \<Rightarrow> ss_state \<Rightarrow> u32 \<Rightarrow> bool" where
  "call_opcode_ok b s pc \<longleftrightarrow>
     (if secureshield_version b = 1 then ld16 (memory s) pc = 0x781E + 0x20
      else ld32 (memory s) pc = 0x800028a0 OR push_bit 16 0x40)"

definition container_call_check_magic :: "'b build_scheme \<Rightarrow> ss_state \<Rightarrow> u32 \<Rightarrow> ss_stop + unit" where
  "container_call_check_magic b s pc =
     (if \<not> call_opcode_ok b s pc then Inl Halt_call_opcode
      else if ld32 (memory s) (pc + call_opcode_len b + 4) \<noteq> CONTAINER_CALL_MAGIC then Inl Halt_call_magic
      else Inr ())"

definition container_call_get_dst_fn :: "'b build_scheme \<Rightarrow> ss_state \<Rightarrow> u32 \<Rightarrow> u32" where
  "container_call_get_dst_fn b s pc = ld32 (memory s) (pc + call_opcode_len b + 8)"

text \<open>The difference of two word pointers.\<close>

definition cfg_index :: "'b ss_build_scheme \<Rightarrow> u32 \<Rightarrow> u32" where
  "cfg_index b cfg_ptr = signed_drop_bit 2 (cfg_ptr - cfgtbl_ptr_start b)"

definition container_call_get_dst_id :: "'b ss_build_scheme \<Rightarrow> ss_state \<Rightarrow> u32 \<Rightarrow> ss_stop + nat" where
  "container_call_get_dst_id b s pc =
     (let container = cfg_index b (ld32 (memory s) (pc + call_opcode_len b + 12)) in
      if container = 0 \<or> g_vmpu_container_count s \<le> unat container then Inl Halt_call_range
      else Inr (unat container))"

definition container_is_secure :: "ss_state \<Rightarrow> nat \<Rightarrow> ss_stop + bool" where
  "container_is_secure s i =
     (case arr_get (g_container_context s) i of
        None \<Rightarrow> Inl Undefined
      | Some c \<Rightarrow> (case cx_cfg c of None \<Rightarrow> Inl Undefined | Some cfg \<Rightarrow> Inr (cc_type cfg \<noteq> 0)))"

section \<open>Lemmas on the loops\<close>

lemma get_or_undef_simps [simp]:
  "get_or_undef (Some v) = Inr v" "get_or_undef None = Inl Undefined"
  "get_or_undef x = Inr v \<longleftrightarrow> x = Some v" "get_or_undef x = Inl e \<longleftrightarrow> x = None \<and> e = Undefined"
  by (auto simp: get_or_undef_def split: option.splits)

lemma array_scan_Some:
  "array_scan p xs i n = Inr (Some j) \<Longrightarrow> i \<le> j \<and> j < i + n \<and> j < length xs \<and> p (xs ! j)"
  by (induction p xs i n rule: array_scan.induct) (auto split: option.splits if_splits)

lemma array_scan_None:
  "array_scan p xs i n = Inr None \<Longrightarrow> i \<le> j \<Longrightarrow> j < i + n \<Longrightarrow> \<not> p (xs ! j)"
proof (induction p xs i n rule: array_scan.induct)
  case (2 p xs i n)
  then show ?case
    by (cases "j = i") (auto split: option.splits if_splits)
qed simp

lemma arr_get_in: "i < length xs \<Longrightarrow> arr_get xs i = Some (xs ! i)"
  by simp

lemma array_scan_defined: "i + n \<le> length xs \<Longrightarrow> \<exists>r. array_scan p xs i n = Inr r"
proof (induction p xs i n rule: array_scan.induct)
  case (2 p xs i n)
  then show ?case
    by (auto simp: arr_get_in)
qed simp

lemma block_scan_Some:
  assumes "block_scan p xs block n = Inr (Some j)"
  obtains i where "block = Some i" "i \<le> j" "j < i + n" "j < length xs" "p (xs ! j)"
  using assms by (auto simp: block_scan_def split: option.splits if_splits dest: array_scan_Some)

end
