(* ===== verification/Ss_Vmpu.thy ===== *)
theory Ss_Vmpu
  imports Ss_State
begin

text \<open>
  The memory part of the runtime, \<open>core/src/secureshield_vmpu_arc.c\<close>: the regions each container
  may access, how they are checked and entered at start-up (\<open>vmpu_ac_mem\<close>), how they are loaded
  into the protection unit on a switch (\<open>vmpu_switch\<close>) and on a protection fault
  (\<open>vmpu_fault_recovery_mpu\<close>), and the interfaces that containers may call. Both versions of the
  runtime are modelled, with and without secure identifiers in the protection unit.
\<close>

definition has :: "u32 \<Rightarrow> u32 \<Rightarrow> bool" where
  "has ac m \<longleftrightarrow> ac AND m \<noteq> 0"

section \<open>Looking for a region\<close>

definition region_has_addr :: "u32 \<Rightarrow> MPU_REGION \<Rightarrow> bool" where
  "region_has_addr a r \<longleftrightarrow> rg_base r \<le> a \<and> a < rg_base r + rg_size r"

definition vmpu_fault_find_container_region ::
    "ss_state \<Rightarrow> u32 \<Rightarrow> MPU_CONTAINER \<Rightarrow> ss_stop + nat option" where
  "vmpu_fault_find_container_region s fault_addr container =
     block_scan (region_has_addr fault_addr) (g_mpu_list s) (mc_region container) (mc_count container)"

definition find_in_container :: "ss_state \<Rightarrow> u32 \<Rightarrow> nat \<Rightarrow> ss_stop + nat option" where
  "find_in_container s fault_addr i =
     res_bind (get_or_undef (arr_get (g_mpu_container s) i))
       (vmpu_fault_find_container_region s fault_addr)"

fun find_in_normal :: "ss_state \<Rightarrow> u32 \<Rightarrow> nat list \<Rightarrow> ss_stop + nat option" where
  "find_in_normal s fault_addr [] = Inr None"
| "find_in_normal s fault_addr (i # is) =
     res_bind (container_is_secure s i) (\<lambda>secure.
       if secure then find_in_normal s fault_addr is
       else res_bind (find_in_container s fault_addr i) (\<lambda>r.
         case r of None \<Rightarrow> find_in_normal s fault_addr is | Some j \<Rightarrow> Inr (Some j)))"

definition vmpu_fault_find_region :: "ss_state \<Rightarrow> u32 \<Rightarrow> ss_stop + nat option" where
  "vmpu_fault_find_region s fault_addr =
     res_bind (if g_active_container s \<noteq> 0 then find_in_container s fault_addr (g_active_container s)
               else Inr None) (\<lambda>r.
       case r of
         Some j \<Rightarrow> Inr (Some j)
       | None \<Rightarrow>
           res_bind (container_is_secure s (g_active_container s)) (\<lambda>secure.
             if secure then find_in_normal s fault_addr [0..<g_vmpu_container_count s]
             else find_in_container s fault_addr 0))"

section \<open>Entering a region\<close>

definition region_conflicts :: "u32 \<Rightarrow> u32 \<Rightarrow> u32 \<Rightarrow> MPU_REGION \<Rightarrow> bool" where
  "region_conflicts start end_addr ac r \<longleftrightarrow>
     (let base = rg_base r; sz = rg_size r in
      ((base \<le> start \<and> start < base + sz) \<or> (base \<le> end_addr \<and> end_addr < base + sz)
       \<or> (start < base \<and> base + sz \<le> end_addr))
      \<and> \<not> (has (rg_ac r) AC_SHARED \<and> has ac AC_SHARED))"

definition mem_region_checks :: "'b ss_build_scheme \<Rightarrow> ss_state \<Rightarrow> u32 \<Rightarrow> u32 \<Rightarrow> u32 \<Rightarrow> ss_stop + bool" where
  "mem_region_checks b s start end_addr ac =
     (if ss_sid b \<and> has ac AC_SHARED then Inl Halt_shared_sid
      else res_bind (array_scan (region_conflicts start end_addr ac) (g_mpu_list s) 0 (g_mpu_region_count s))
        (\<lambda>r. Inr (r \<noteq> None)))"

definition vmpu_map_ac :: "'b build_scheme \<Rightarrow> u32 \<Rightarrow> ss_stop + u32" where
  "vmpu_map_ac b ac =
     (let (ac_res, flags) =
        (if has ac AC_UWRITE
         then (AC_UREAD OR AC_UWRITE OR AC_KREAD OR AC_KWRITE,
               AUX_MPU_ATTR_UR OR AUX_MPU_ATTR_UW OR AUX_MPU_ATTR_KR OR AUX_MPU_ATTR_KW)
         else if has ac AC_UREAD
         then (if has ac AC_KWRITE
               then (AC_UREAD OR AC_KREAD OR AC_KWRITE, AUX_MPU_ATTR_UR OR AUX_MPU_ATTR_KR OR AUX_MPU_ATTR_KW)
               else (AC_UREAD OR AC_KREAD, AUX_MPU_ATTR_UR OR AUX_MPU_ATTR_KR))
         else if has ac AC_KWRITE
         then (AC_KREAD OR AC_KWRITE, AUX_MPU_ATTR_KR OR AUX_MPU_ATTR_KW)
         else if has ac AC_KREAD
         then (AC_KREAD, AUX_MPU_ATTR_KR)
         else (0, 0));
        (ac_res, flags) = (if has ac AC_UEXECUTE then (ac_res OR AC_UEXECUTE, flags OR AUX_MPU_ATTR_UE)
                           else (ac_res, flags));
        (ac_res, flags) = (if has ac AC_KEXECUTE then (ac_res OR AC_KEXECUTE, flags OR AUX_MPU_ATTR_KE)
                           else (ac_res, flags));
        (ac_res, flags) = (if secureshield_version b = 2 \<and> has ac AC_SECURE
                           then (ac_res OR AC_SECURE, flags OR AUX_MPU_ATTR_S) else (ac_res, flags))
      in if ac_res \<noteq> ac AND AC_ACCESS then Inl Halt_ac_mismatch else Inr flags)"

text \<open>\<open>vmpu_ac_update_container_region\<close> of version 1.\<close>

definition update_region_v1 :: "'b build_scheme \<Rightarrow> u32 \<Rightarrow> u32 \<Rightarrow> u32 \<Rightarrow> ss_stop + MPU_REGION" where
  "update_region_v1 b base sz ac =
     (case embarc_pow2_ceil sz of
        None \<Rightarrow> Inl Undefined
      | Some size_rounded \<Rightarrow>
          res_bind
            (if size_rounded \<noteq> sz
             then if \<not> has ac (AC_SIZE_ROUND_UP OR AC_SIZE_ROUND_DOWN) then Inl Halt_size_not_rounded
                  else if has ac AC_SIZE_ROUND_DOWN
                  then let size_rounded = drop_bit 1 size_rounded in
                       if size_rounded < mpu_alignment b then Inl Halt_round_down else Inr size_rounded
                  else Inr size_rounded
             else Inr size_rounded)
            (\<lambda>size_rounded.
               if base AND (size_rounded - 1) \<noteq> 0 then Inl Halt_base_size
               else res_bind (vmpu_map_ac b ac) (\<lambda>attr.
                 Inr \<lparr>rg_base = base, rg_attr = attr, rg_size = size_rounded, rg_ac = ac\<rparr>)))"

text \<open>
  \<open>vmpu_ac_update_container_region\<close> of version 2. The secure identifier is an 8-bit variable,
  and the mask of the secure containers' identifiers is global.
\<close>

definition region_sid :: "'b ss_build_scheme \<Rightarrow> nat \<Rightarrow> u32 \<Rightarrow> ss_state \<Rightarrow> ss_stop + u32 \<times> ss_state" where
  "region_sid b container_id ac s =
     (if \<not> ss_sid b then Inr (1, s)
      else if 6 < container_id then Inl Halt_no_sid
      else if container_id = 0
      then Inr ((if has ac AC_SECURE then 0x1 else if has ac AC_EXECUTE then 0x2 else 0xFF), s)
      else let sid = push_bit (container_id + 1) 1 AND 0xFF in
           res_bind (container_is_secure s container_id) (\<lambda>secure.
             let s = (if secure then s\<lparr>g_secure_sid_mask := g_secure_sid_mask s OR sid\<rparr> else s);
                 sid = (if has ac AC_EXECUTE then sid else sid OR 0x1)
             in Inr (sid, s)))"

definition update_region_v2 ::
    "'b ss_build_scheme \<Rightarrow> nat \<Rightarrow> u32 \<Rightarrow> u32 \<Rightarrow> u32 \<Rightarrow> ss_state \<Rightarrow> ss_stop + MPU_REGION \<times> ss_state" where
  "update_region_v2 b container_id base sz ac s =
     (if base AND mpu_alignment_mask b \<noteq> 0 then Inl Halt_base_align
      else if sz AND mpu_alignment_mask b \<noteq> 0 then Inl Halt_size_align
      else res_bind (vmpu_map_ac b ac) (\<lambda>flags.
        res_bind (region_sid b container_id ac s) (\<lambda>(sid, s).
          Inr (\<lparr>rg_base = base, rg_attr = flags OR push_bit AUX_MPU_ATTR_SID_OFFSET sid,
                rg_size = sz, rg_ac = ac\<rparr>, s))))"

definition vmpu_ac_update_container_region ::
    "'b ss_build_scheme \<Rightarrow> nat \<Rightarrow> u32 \<Rightarrow> u32 \<Rightarrow> u32 \<Rightarrow> ss_state \<Rightarrow> ss_stop + MPU_REGION \<times> ss_state" where
  "vmpu_ac_update_container_region b container_id base sz ac s =
     (if secureshield_version b = 1
      then res_bind (update_region_v1 b base sz ac) (\<lambda>r. Inr (r, s))
      else update_region_v2 b container_id base sz ac s)"

definition vmpu_ac_static_region ::
    "'b ss_build_scheme \<Rightarrow> nat \<Rightarrow> u32 \<Rightarrow> u32 \<Rightarrow> u32 \<Rightarrow> ss_state \<Rightarrow> ss_stop + u32 \<times> ss_state" where
  "vmpu_ac_static_region b region base sz ac s =
     (if mpu_regions b \<le> region then Inr (0, s)
      else res_bind (vmpu_ac_update_container_region b 0 base sz ac s) (\<lambda>(res, s).
        Inr (rg_size res, arc_mpu_region_config b region (rg_base res) (rg_size res) (rg_attr res) s)))"

definition vmpu_ac_mem :: "'b ss_build_scheme \<Rightarrow> nat \<Rightarrow> u32 \<Rightarrow> u32 \<Rightarrow> u32 \<Rightarrow> ss_state \<Rightarrow> ss_stop + ss_state" where
  "vmpu_ac_mem b container_id addr sz ac s =
     (if MPU_REGION_COUNT \<le> g_mpu_region_count s then Inl Halt_out_of_regions
      else res_bind (mem_region_checks b s addr (addr + sz - 1) ac) (\<lambda>conflict.
        if conflict then Inl Halt_region_conflict
        else res_bind (get_or_undef (arr_get (g_mpu_container s) container_id)) (\<lambda>container.
          let first = (case mc_region container of None \<Rightarrow> g_mpu_region_count s | Some i \<Rightarrow> i);
              container = container\<lparr>mc_region := Some first\<rparr>;
              index = first + mc_count container
          in res_bind (get_or_undef (arr_get (g_mpu_list s) index)) (\<lambda>old.
               if rg_attr old \<noteq> 0 then Inl Halt_unordered_region
               else res_bind (vmpu_ac_update_container_region b container_id addr sz ac s) (\<lambda>(region, s).
                 Inr (s\<lparr>g_mpu_list := (g_mpu_list s)[index := region],
                        g_mpu_container := (g_mpu_container s)
                          [container_id := container\<lparr>mc_count := mc_count container + 1\<rparr>],
                        g_mpu_region_count := g_mpu_region_count s + 1\<rparr>))))))"

section \<open>Loading regions\<close>

fun load_regions :: "'b ss_build_scheme \<Rightarrow> nat option \<Rightarrow> nat \<Rightarrow> nat \<Rightarrow> ss_state \<Rightarrow> ss_stop + nat \<times> ss_state" where
  "load_regions b region 0 mpu_slot s = Inr (mpu_slot, s)"
| "load_regions b region (Suc n) mpu_slot s =
     (if mpu_regions b \<le> mpu_slot then Inr (mpu_slot, s)
      else case region of
        None \<Rightarrow> Inl Undefined
      | Some i \<Rightarrow>
          res_bind (get_or_undef (arr_get (g_mpu_list s) i)) (\<lambda>r.
            load_regions b (Some (i + 1)) n (mpu_slot + 1)
              (arc_mpu_region_config b mpu_slot (rg_base r) (rg_size r) (rg_attr r) s)))"

definition load_container ::
    "'b ss_build_scheme \<Rightarrow> nat \<Rightarrow> nat \<Rightarrow> ss_state \<Rightarrow> ss_stop + nat \<times> ss_state" where
  "load_container b i mpu_slot s =
     res_bind (get_or_undef (arr_get (g_mpu_container s) i)) (\<lambda>container.
       load_regions b (mc_region container) (mc_count container) mpu_slot s)"

definition clear_slots :: "'b ss_build_scheme \<Rightarrow> nat \<Rightarrow> ss_state \<Rightarrow> ss_state" where
  "clear_slots b mpu_slot s =
     fold (\<lambda>i. arc_mpu_region_config b i 0 0 0) [mpu_slot..<mpu_regions b] s"

text \<open>\<open>vmpu_switch\<close> without secure identifiers reloads the unit for the new container.\<close>

definition vmpu_switch_load :: "'b ss_build_scheme \<Rightarrow> nat \<Rightarrow> ss_state \<Rightarrow> ss_stop + ss_state" where
  "vmpu_switch_load b dst_id s =
     (if g_mpu_region_count s = 0 \<or> SECURESHIELD_MAX_CONTAINERS \<le> dst_id then Inl Halt_dst_range
      else let s = s\<lparr>g_active_container := dst_id\<rparr>; mpu_slot = ARC_MPU_RESERVED_REGIONS in
        res_bind (if dst_id \<noteq> 0 then load_container b dst_id mpu_slot s else Inr (mpu_slot, s)) (\<lambda>(mpu_slot, s).
          res_bind (load_container b 0 mpu_slot s) (\<lambda>(mpu_slot, s).
            Inr (clear_slots b mpu_slot (s\<lparr>g_mpu_slot := mpu_slot\<rparr>)))))"

text \<open>With secure identifiers all regions of all containers are loaded once.\<close>

fun sid_load :: "'b ss_build_scheme \<Rightarrow> nat \<Rightarrow> nat \<Rightarrow> ss_state \<Rightarrow> ss_stop + ss_state" where
  "sid_load b i 0 s = Inr s"
| "sid_load b i (Suc n) s =
     res_bind (get_or_undef (arr_get (g_mpu_list s) i)) (\<lambda>r.
       let r = (if \<not> has (rg_attr r) (AUX_MPU_ATTR_S OR AUX_MPU_ATTR_KE OR AUX_MPU_ATTR_UE)
                then r\<lparr>rg_attr := rg_attr r OR push_bit 16 (g_secure_sid_mask s)\<rparr> else r);
           s = s\<lparr>g_mpu_list := (g_mpu_list s)[i := r]\<rparr>
       in sid_load b (i + 1) n
            (arc_mpu_region_config b (i + ARC_MPU_RESERVED_REGIONS) (rg_base r) (rg_size r) (rg_attr r) s))"

definition vmpu_switch_sid :: "'b ss_build_scheme \<Rightarrow> nat \<Rightarrow> ss_state \<Rightarrow> ss_stop + ss_state" where
  "vmpu_switch_sid b dst_id s =
     (let s = s\<lparr>g_active_container := dst_id\<rparr> in
      if vmpu_load s then Inr s
      else if mpu_regions b < g_mpu_region_count s + ARC_MPU_RESERVED_REGIONS then Inl Halt_mpu_entries
      else res_bind (sid_load b 0 (g_mpu_region_count s) s) (\<lambda>s. Inr (s\<lparr>vmpu_load := True\<rparr>)))"

definition vmpu_switch :: "'b ss_build_scheme \<Rightarrow> nat \<Rightarrow> nat \<Rightarrow> ss_state \<Rightarrow> ss_stop + ss_state" where
  "vmpu_switch b src_id dst_id s =
     (if ss_sid b then vmpu_switch_sid b dst_id s else vmpu_switch_load b dst_id s)"

definition vmpu_load_container :: "'b ss_build_scheme \<Rightarrow> nat \<Rightarrow> ss_state \<Rightarrow> ss_stop + ss_state" where
  "vmpu_load_container b container_id s =
     (if container_id = 0 then vmpu_switch b 0 0 s else Inl Halt_load_container)"

definition vmpu_fault_recovery_mpu :: "'b ss_build_scheme \<Rightarrow> u32 \<Rightarrow> ss_state \<Rightarrow> ss_stop + int \<times> ss_state" where
  "vmpu_fault_recovery_mpu b fault_addr s =
     res_bind (vmpu_fault_find_region s fault_addr) (\<lambda>found.
       case found of
         None \<Rightarrow> Inr (-1, s)
       | Some j \<Rightarrow>
           res_bind (get_or_undef (arr_get (g_mpu_list s) j)) (\<lambda>region.
             let s = arc_mpu_region_config b (g_mpu_slot s) (rg_base region) (rg_size region) (rg_attr region) s;
                 s = s\<lparr>g_mpu_slot := g_mpu_slot s + 1\<rparr>;
                 s = (if mpu_regions b \<le> g_mpu_slot s
                      then s\<lparr>g_mpu_slot := ARC_MPU_RESERVED_REGIONS + (if secureshield_version b = 1 then 2 else 3)\<rparr>
                      else s)
             in Inr (0, s)))"

section \<open>Entering a container\<close>

definition VMPU_REGION_SIZE :: "u32 \<Rightarrow> u32 \<Rightarrow> u32" where
  "VMPU_REGION_SIZE p1 p2 = (if p2 \<le> p1 then 0 else p2 - p1)"

definition SECURE_CONTAINER_DEFAULT_STATUS :: "'b ss_build_scheme \<Rightarrow> u32" where
  "SECURE_CONTAINER_DEFAULT_STATUS b =
     AUX_STATUS_MASK_IE OR (push_bit 1 (of_int (INT_PRI_MAX - int_pri_min b)) AND 0x1e) OR status32_reset_value b"

definition NORMAL_CONTAINER_DEFAULT_STATUS :: "'b ss_build_scheme \<Rightarrow> u32" where
  "NORMAL_CONTAINER_DEFAULT_STATUS b = SECURE_CONTAINER_DEFAULT_STATUS b OR AUX_STATUS_MASK_U"

text \<open>A section of a container, when it is not empty.\<close>

definition ac_section :: "'b ss_build_scheme \<Rightarrow> nat \<Rightarrow> u32 \<Rightarrow> u32 \<Rightarrow> u32 \<Rightarrow> ss_state \<Rightarrow> ss_stop + ss_state" where
  "ac_section b container_id start end_addr ac s =
     (let sz = VMPU_REGION_SIZE start end_addr in
      if sz \<noteq> 0 then vmpu_ac_mem b container_id start sz ac s else Inr s)"

text \<open>The data section; for a container other than the background one it is also initialised.\<close>

definition ac_data :: "'b ss_build_scheme \<Rightarrow> nat \<Rightarrow> CONTAINER_CONFIG \<Rightarrow> u32 \<Rightarrow> ss_state \<Rightarrow> ss_stop + ss_state" where
  "ac_data b container_id cfg ac s =
     (let sz = VMPU_REGION_SIZE (cc_data_start cfg) (cc_bss_end cfg) in
      if sz \<noteq> 0
      then res_bind (vmpu_ac_mem b container_id (cc_data_start cfg) sz ac s) (\<lambda>s.
        if container_id \<noteq> 0
        then let m = memcpy (memory s) (cc_data_start cfg) (cc_data_load_start cfg)
                       (unat (VMPU_REGION_SIZE (cc_data_start cfg) (cc_data_end cfg)));
                 m = memset m (cc_bss_start cfg) 0
                       (unat (VMPU_REGION_SIZE (cc_bss_start cfg) (cc_bss_end cfg)))
             in Inr (s\<lparr>memory := m\<rparr>)
        else Inr s)
      else Inr s)"

definition frame_below :: "'b build_scheme \<Rightarrow> u32 \<Rightarrow> u32" where
  "frame_below b sp = sp - 4 * of_nat (ARC_PROCESSOR_FRAME_T_SIZE b)"

definition vmpu_ac_container_v1 ::
    "'b ss_build_scheme \<Rightarrow> nat \<Rightarrow> CONTAINER_CONFIG \<Rightarrow> ss_state \<Rightarrow> ss_stop + ss_state" where
  "vmpu_ac_container_v1 b container_id cfg s =
     (if cc_type cfg \<noteq> CONTAINER_SECURE \<and> cc_type cfg \<noteq> CONTAINER_NORMAL then Inl Halt_container_type
      else let secure = (cc_type cfg = CONTAINER_SECURE);
               status = (if secure then SECURE_CONTAINER_DEFAULT_STATUS b else NORMAL_CONTAINER_DEFAULT_STATUS b);
               text_attribute = (if secure then ACDEF_KTEXT else ACDEF_UTEXT);
               ram_attribute = (if secure then ACDEF_KRAM else ACDEF_URAM)
           in res_bind (set_context container_id (\<lambda>c. c\<lparr>cx_cpu_status := status, cx_cfg := Some cfg\<rparr>) s) (\<lambda>s.
              res_bind (ac_section b container_id (cc_text_start cfg) (cc_rodata_end cfg) text_attribute s) (\<lambda>s.
              res_bind (ac_data b container_id cfg ram_attribute s) (\<lambda>s.
                if container_id = 0
                then res_bind (get_or_undef (arr_get (g_container_context s) 0)) (\<lambda>c0.
                       Inr (arc_aux_write AUX_ERSTATUS (cx_cpu_status c0)
                              (arc_aux_write AUX_USER_SP (cc_stack_secure cfg) s)))
                else if secure
                then set_context container_id (\<lambda>c. c\<lparr>cx_cur_sp := frame_below b (cc_stack_area cfg)\<rparr>) s
                else let context = frame_below b (cc_stack_secure cfg);
                         s = callee_st b context User_sp (cc_stack_area cfg) s
                     in set_context container_id
                          (\<lambda>c. c\<lparr>cx_normal_sp := cc_stack_area cfg, cx_cur_sp := context\<rparr>) s))))"

definition vmpu_ac_container_v2 ::
    "'b ss_build_scheme \<Rightarrow> nat \<Rightarrow> CONTAINER_CONFIG \<Rightarrow> ss_state \<Rightarrow> ss_stop + ss_state" where
  "vmpu_ac_container_v2 b container_id cfg s =
     (if cc_type cfg \<noteq> CONTAINER_SECURE \<and> cc_type cfg \<noteq> CONTAINER_NORMAL then Inl Halt_container_type
      else let secure = (if cc_type cfg = CONTAINER_SECURE then AC_SECURE else 0) in
        res_bind (set_context container_id (\<lambda>c. c\<lparr>cx_cfg := Some cfg\<rparr>) s) (\<lambda>s.
        res_bind (ac_section b container_id (cc_text_start cfg) (cc_text_end cfg) (ACDEF_UTEXT OR secure) s) (\<lambda>s.
        res_bind (ac_section b container_id (cc_rodata_start cfg) (cc_rodata_end cfg) (ACDEF_UROM OR secure) s) (\<lambda>s.
        res_bind (ac_data b container_id cfg (ACDEF_URAM OR secure) s) (\<lambda>s.
          if container_id = 0 then Inr (arc_aux_write AUX_SEC_K_SP (cc_stack_secure cfg) s)
          else if secure = AC_SECURE
          then let context = frame_below b (cc_stack_area cfg);
                   s = callee_st b context Secure_kernel_sp (cc_stack_area cfg) s
               in set_context container_id (\<lambda>c. c\<lparr>cx_cur_sp := context\<rparr>) s
          else let context = frame_below b (cc_stack_secure cfg);
                   s = callee_st b context Kernel_sp (cc_stack_area cfg) s;
                   s = callee_st b context Secure_kernel_sp (cc_stack_secure cfg) s
               in set_context container_id
                    (\<lambda>c. c\<lparr>cx_normal_sp := cc_stack_area cfg, cx_cur_sp := context\<rparr>) s)))))"

definition vmpu_ac_container ::
    "'b ss_build_scheme \<Rightarrow> nat \<Rightarrow> CONTAINER_CONFIG \<Rightarrow> ss_state \<Rightarrow> ss_stop + ss_state" where
  "vmpu_ac_container b container_id cfg s =
     (if secureshield_version b = 1 then vmpu_ac_container_v1 b container_id cfg s
      else vmpu_ac_container_v2 b container_id cfg s)"

section \<open>Interfaces\<close>

definition vmpu_ac_interface :: "nat \<Rightarrow> u32 \<Rightarrow> u32 \<Rightarrow> ss_state \<Rightarrow> ss_stop + ss_state" where
  "vmpu_ac_interface container_id func args_num s =
     (if container_id = 0 then Inl Halt_interface_background
      else if CONTAINER_INTERFACE_COUNT \<le> g_interface_count s then Inl Halt_interface_full
      else res_bind (get_or_undef (arr_get (g_interface_container s) container_id)) (\<lambda>container.
        let first = (case ic_interface container of None \<Rightarrow> g_interface_count s | Some i \<Rightarrow> i);
            container = container\<lparr>ic_interface := Some first\<rparr>
        in res_bind (get_or_undef (arr_set (g_interface_list s) (first + ic_count container)
                      \<lparr>if_func = func, if_args_num = args_num\<rparr>)) (\<lambda>xs.
             Inr (s\<lparr>g_interface_list := xs,
                    g_interface_container := (g_interface_container s)
                      [container_id := container\<lparr>ic_count := ic_count container + 1\<rparr>],
                    g_interface_count := g_interface_count s + 1\<rparr>))))"

definition interface_matches :: "u32 \<Rightarrow> u32 \<Rightarrow> CONTAINER_INTERFACE \<Rightarrow> bool" where
  "interface_matches func args_num i \<longleftrightarrow> if_func i = func \<and> if_args_num i = args_num"

definition vmpu_find_interface :: "ss_state \<Rightarrow> nat \<Rightarrow> u32 \<Rightarrow> u32 \<Rightarrow> ss_stop + u32" where
  "vmpu_find_interface s container_id func args_num =
     (if container_id = 0 then Inl Halt_find_interface_background
      else res_bind (get_or_undef (arr_get (g_interface_container s) container_id)) (\<lambda>container.
        case ic_interface container of
          None \<Rightarrow> Inr 0
        | Some first \<Rightarrow>
            res_bind (array_scan (interface_matches func args_num) (g_interface_list s) first (ic_count container))
              (\<lambda>r. Inr (case r of None \<Rightarrow> 0 | Some _ \<Rightarrow> func))))"

section \<open>Initialisation\<close>

definition sjli_init :: "'b ss_build_scheme \<Rightarrow> ss_state \<Rightarrow> ss_state" where
  "sjli_init b s =
     arc_aux_write AUX_NSC_TABLE_TOP (sjli_table_addr b + 4 * of_nat (num_sjli_entry b))
       (arc_aux_write AUX_NSC_TABLE_BASE (sjli_table_addr b) s)"

definition SECURE_ROM_ATTR :: "'b build_scheme \<Rightarrow> u32" where
  "SECURE_ROM_ATTR b = (if secureshield_version b = 1 then ACDEF_KROM OR AC_EXECUTE else ACDEF_UTEXT OR AC_SECURE)"

definition SECURE_RAM_ATTR :: "'b build_scheme \<Rightarrow> u32" where
  "SECURE_RAM_ATTR b = (if secureshield_version b = 1 then ACDEF_KRAM else ACDEF_URAM OR AC_SECURE)"

definition vmpu_arch_init :: "'b ss_build_scheme \<Rightarrow> ss_state \<Rightarrow> ss_stop + ss_state" where
  "vmpu_arch_init b s =
     (let s = s\<lparr>g_mpu_slot := ARC_MPU_RESERVED_REGIONS\<rparr>;
          s = (if secureshield_version b = 2 then sjli_init b s else s)
      in res_bind (vmpu_ac_static_region b 0 (secure_rom_start_cfg b)
             (secure_rom_end b - secure_rom_start_cfg b) (SECURE_ROM_ATTR b) s) (\<lambda>(_, s).
         res_bind (vmpu_ac_static_region b 1 (secure_ram_start_cfg b)
             (secure_ram_end b - secure_ram_start_cfg b) (SECURE_RAM_ATTR b) s) (\<lambda>(_, s). Inr s)))"

section \<open>The regions of a container\<close>

text \<open>
  The abstract view of the region tables: the list of the regions of a container, and the
  contents of the protection unit as a function from entries to what is loaded there.
\<close>

definition block_ok :: "nat option \<Rightarrow> nat \<Rightarrow> nat \<Rightarrow> bool" where
  "block_ok block n bound \<longleftrightarrow> (case block of None \<Rightarrow> n = 0 | Some i \<Rightarrow> i + n \<le> bound)"

definition block_items :: "'x list \<Rightarrow> nat option \<Rightarrow> nat \<Rightarrow> 'x list" where
  "block_items xs block n = (case block of None \<Rightarrow> [] | Some i \<Rightarrow> take n (drop i xs))"

definition container_regions :: "ss_state \<Rightarrow> nat \<Rightarrow> MPU_REGION list" where
  "container_regions s c =
     block_items (g_mpu_list s) (mc_region (g_mpu_container s ! c)) (mc_count (g_mpu_container s ! c))"

definition encode_region :: "'b build_scheme \<Rightarrow> MPU_REGION \<Rightarrow> u32 \<times> u32 \<times> u32" where
  "encode_region b r = mpu_encode b (rg_base r) (rg_size r) (rg_attr r)"

definition empty_entry :: "'b build_scheme \<Rightarrow> u32 \<times> u32 \<times> u32" where
  "empty_entry b = mpu_encode b 0 0 0"

definition mpu_tables_ok :: "ss_state \<Rightarrow> bool" where
  "mpu_tables_ok s \<longleftrightarrow>
     length (g_mpu_list s) = MPU_REGION_COUNT \<and> length (g_mpu_container s) = SECURESHIELD_MAX_CONTAINERS \<and>
     g_mpu_region_count s \<le> MPU_REGION_COUNT \<and>
     (\<forall>c < SECURESHIELD_MAX_CONTAINERS.
        block_ok (mc_region (g_mpu_container s ! c)) (mc_count (g_mpu_container s ! c)) (g_mpu_region_count s))"

lemma block_scan_items:
  assumes "block_ok block n bound" "bound \<le> length xs"
  shows "\<exists>r. block_scan p xs block n = Inr r \<and>
    (case r of None \<Rightarrow> \<forall>x \<in> set (block_items xs block n). \<not> p x
     | Some j \<Rightarrow> j < length xs \<and> xs ! j \<in> set (block_items xs block n) \<and> p (xs ! j))"
proof (cases block)
  case None
  then show ?thesis
    using assms by (simp add: block_scan_def block_ok_def block_items_def)
next
  case (Some i)
  then have le: "i + n \<le> length xs"
    using assms by (simp add: block_ok_def)
  then obtain r where r: "array_scan p xs i n = Inr r"
    using array_scan_defined by blast
  have mem: "x \<in> set (take n (drop i xs)) \<longleftrightarrow> (\<exists>j. i \<le> j \<and> j < i + n \<and> x = xs ! j)" for x
  proof -
    have "x \<in> set (take n (drop i xs)) \<longleftrightarrow> (\<exists>k < n. x = xs ! (i + k))"
      using le by (auto simp: in_set_conv_nth)
    also have "\<dots> \<longleftrightarrow> (\<exists>j. i \<le> j \<and> j < i + n \<and> x = xs ! j)"
      by (metis add_less_cancel_left le_add1 le_Suc_ex)
    finally show ?thesis .
  qed
  show ?thesis
  proof (cases r)
    case None
    then show ?thesis
      using r mem \<open>block = Some i\<close> array_scan_None [of p xs i n]
      by (auto simp: block_scan_def block_items_def)
  next
    case (Some j)
    then show ?thesis
      using r mem \<open>block = Some i\<close> array_scan_Some [of p xs i n j]
      by (auto simp: block_scan_def block_items_def)
  qed
qed

section \<open>Loading a list of regions\<close>

fun load_list :: "'b ss_build_scheme \<Rightarrow> nat \<Rightarrow> MPU_REGION list \<Rightarrow> ss_state \<Rightarrow> ss_state" where
  "load_list b slot [] s = s"
| "load_list b slot (r # rs) s =
     (if mpu_regions b \<le> slot then s
      else load_list b (slot + 1) rs (arc_mpu_region_config b slot (rg_base r) (rg_size r) (rg_attr r) s))"

lemma load_list_more [simp]:
  "arc_core.more (load_list b slot rs s) = arc_core.more s" "memory (load_list b slot rs s) = memory s"
  by (induction rs arbitrary: slot s) simp_all

lemmas ss_fields_load_list [simp] = ss_fields_more [OF load_list_more(1)]

lemma mpu_entry_load_list:
  assumes "mpu_build_ok b" "j < 16"
  shows "mpu_entry b (load_list b slot rs s) j =
    (if slot \<le> j \<and> j < mpu_regions b \<and> j - slot < length rs then encode_region b (rs ! (j - slot))
     else mpu_entry b s j)"
proof (induction rs arbitrary: slot s)
  case (Cons r rs)
  show ?case
  proof (cases "mpu_regions b \<le> slot")
    case False
    then have cfg: "mpu_entry b (arc_mpu_region_config b slot (rg_base r) (rg_size r) (rg_attr r) s) j =
        (if j = slot then encode_region b r else mpu_entry b s j)"
      using assms by (simp add: mpu_entry_config encode_region_def)
    show ?thesis
    proof (cases "j = slot")
      case True
      then show ?thesis
        using False cfg Cons.IH [of "slot + 1" "arc_mpu_region_config b slot (rg_base r) (rg_size r) (rg_attr r) s"]
        by simp
    next
      case ne: False
      have "(slot + 1 \<le> j \<and> j < mpu_regions b \<and> j - (slot + 1) < length rs) =
          (slot \<le> j \<and> j < mpu_regions b \<and> j - slot < length (r # rs))"
        using ne by auto
      moreover have "rs ! (j - (slot + 1)) = (r # rs) ! (j - slot)" if "slot + 1 \<le> j"
        using that by (simp add: nth_Cons')
      ultimately show ?thesis
        using False ne cfg by (simp only: load_list.simps if_False Cons.IH) auto
    qed
  qed auto
qed simp

lemma load_regions_eq:
  assumes "block_ok block n bound" "bound \<le> length (g_mpu_list s)"
  shows "load_regions b block n slot s =
    Inr (slot + min n (mpu_regions b - slot), load_list b slot (block_items (g_mpu_list s) block n) s)"
  using assms
proof (induction b block n slot s rule: load_regions.induct)
  case (1 b block slot s)
  then show ?case
    by (simp add: block_items_def split: option.splits)
next
  case (2 b block n slot s)
  then obtain i where i: "block = Some i" "i + Suc n \<le> bound"
    by (auto simp: block_ok_def split: option.splits)
  then have il: "i < length (g_mpu_list s)"
    using "2.prems"(2) by simp
  let ?r = "g_mpu_list s ! i"
  let ?s = "arc_mpu_region_config b slot (rg_base ?r) (rg_size ?r) (rg_attr ?r) s"
  have items: "block_items (g_mpu_list s) (Some i) (Suc n) = ?r # block_items (g_mpu_list s) (Some (i + 1)) n"
    using il by (simp add: block_items_def Cons_nth_drop_Suc [symmetric])
  show ?case
  proof (cases "mpu_regions b \<le> slot")
    case False
    then have "load_regions b (Some (i + 1)) n (slot + 1) ?s =
      Inr (slot + 1 + min n (mpu_regions b - (slot + 1)),
           load_list b (slot + 1) (block_items (g_mpu_list ?s) (Some (i + 1)) n) ?s)"
      using i "2.prems"(2) by (intro "2.IH") (simp_all add: block_ok_def)
    then show ?thesis
      using False i il items by (simp add: arr_get_in)
  qed (use items i in simp)
qed

lemma mpu_entry_fields [simp]:
  "mpu_entry b (s\<lparr>g_active_container := c\<rparr>) j = mpu_entry b s j"
  "mpu_entry b (s\<lparr>g_mpu_slot := k\<rparr>) j = mpu_entry b s j"
  "mpu_entry b (s\<lparr>memory := m\<rparr>) j = mpu_entry b s j"
  by (simp_all add: mpu_entry_def)

lemma length_block_items:
  "block_ok block n bound \<Longrightarrow> bound \<le> length xs \<Longrightarrow> length (block_items xs block n) = n"
  by (auto simp: block_ok_def block_items_def split: option.splits)

lemma mpu_tables_blocks:
  assumes "mpu_tables_ok s" "c < SECURESHIELD_MAX_CONTAINERS"
  shows "block_ok (mc_region (g_mpu_container s ! c)) (mc_count (g_mpu_container s ! c)) (g_mpu_region_count s)"
    "g_mpu_region_count s \<le> length (g_mpu_list s)" "c < length (g_mpu_container s)"
  using assms by (auto simp: mpu_tables_ok_def)

lemma load_container_eq:
  assumes "mpu_tables_ok s" "c < SECURESHIELD_MAX_CONTAINERS"
  shows "load_container b c slot s =
    Inr (slot + min (length (container_regions s c)) (mpu_regions b - slot), load_list b slot (container_regions s c) s)"
  using mpu_tables_blocks [OF assms]
  by (simp add: load_container_def load_regions_eq arr_get_in container_regions_def length_block_items)

lemma mpu_entry_clear_fold:
  assumes "mpu_build_ok b" "j < 16" "\<forall>i \<in> set is. i < mpu_regions b"
  shows "mpu_entry b (fold (\<lambda>i. arc_mpu_region_config b i 0 0 0) is s) j =
    (if j \<in> set is then empty_entry b else mpu_entry b s j)"
  using assms(3)
  by (induction "is" arbitrary: s) (auto simp: mpu_entry_config assms(1,2) empty_entry_def)

lemma clear_slots_fields [simp]:
  "arc_core.more (clear_slots b k s) = arc_core.more s" "memory (clear_slots b k s) = memory s"
proof -
  have "arc_core.more (fold (\<lambda>i. arc_mpu_region_config b i 0 0 0) is s) = arc_core.more s \<and>
      memory (fold (\<lambda>i. arc_mpu_region_config b i 0 0 0) is s) = memory s" for "is"
    by (induction "is" arbitrary: s) simp_all
  then show "arc_core.more (clear_slots b k s) = arc_core.more s" "memory (clear_slots b k s) = memory s"
    by (simp_all add: clear_slots_def)
qed

lemmas ss_fields_clear_slots [simp] = ss_fields_more [OF clear_slots_fields(1)]

lemma mpu_entry_clear_slots:
  assumes "mpu_build_ok b" "j < 16"
  shows "mpu_entry b (clear_slots b k s) j =
    (if k \<le> j \<and> j < mpu_regions b then empty_entry b else mpu_entry b s j)"
  using mpu_entry_clear_fold [OF assms, of "[k..<mpu_regions b]" s] by (simp add: clear_slots_def)

lemma more_slot:
  fixes s t :: ss_state
  assumes "arc_core.more s = arc_core.more t"
  shows "arc_core.more (s\<lparr>g_mpu_slot := k\<rparr>) = arc_core.more (t\<lparr>g_mpu_slot := k\<rparr>)"
  using assms by (cases s; cases t) simp

text \<open>The regions that a switch to container \<open>c\<close> puts in the unit, in the order of the entries.\<close>

definition switch_regions :: "ss_state \<Rightarrow> nat \<Rightarrow> MPU_REGION list" where
  "switch_regions s c = (if c \<noteq> 0 then container_regions s c else []) @ container_regions s 0"

definition unit_loaded :: "'b ss_build_scheme \<Rightarrow> ss_state \<Rightarrow> MPU_REGION list \<Rightarrow> bool" where
  "unit_loaded b s rs \<longleftrightarrow>
     (\<forall>j. ARC_MPU_RESERVED_REGIONS \<le> j \<and> j < mpu_regions b \<longrightarrow>
        mpu_entry b s j = (if j - ARC_MPU_RESERVED_REGIONS < length rs
          then encode_region b (rs ! (j - ARC_MPU_RESERVED_REGIONS)) else empty_entry b))"

lemma load_positions:
  fixes j n :: nat
  assumes "2 \<le> j" "j < n" "k1 = 2 + min (length xs) (n - 2)" "k2 = k1 + min (length ys) (n - k1)"
  shows "(if k2 \<le> j \<and> j < n then e
      else if k1 \<le> j \<and> j < n \<and> j - k1 < length ys then f (ys ! (j - k1))
      else if 2 \<le> j \<and> j < n \<and> j - 2 < length xs then f (xs ! (j - 2)) else d) =
    (if j - 2 < length (xs @ ys) then f ((xs @ ys) ! (j - 2)) else e)"
proof (cases "j - 2 < length xs")
  case True
  then have "j < k1" "k1 \<le> k2"
    using assms by (simp_all add: min_def) linarith+
  then show ?thesis
    using True assms(1,2) by (simp add: nth_append)
next
  case False
  then have k1: "k1 = 2 + length xs" "k1 \<le> j"
    using assms(1-3) by auto
  then have "j - k1 = j - 2 - length xs" "k2 \<le> j \<longleftrightarrow> \<not> j - k1 < length ys"
    using assms(2,4) by auto
  then show ?thesis
    using False k1 assms(1,2) by (auto simp: nth_append)
qed

lemma vmpu_switch_load_spec:
  assumes b: "mpu_build_ok b" and ok: "mpu_tables_ok s"
    and dst: "dst_id < SECURESHIELD_MAX_CONTAINERS" and n: "g_mpu_region_count s \<noteq> 0"
  shows "\<exists>s' k. vmpu_switch_load b dst_id s = Inr s' \<and>
    arc_core.more s' = arc_core.more (s\<lparr>g_active_container := dst_id, g_mpu_slot := k\<rparr>) \<and>
    memory s' = memory s \<and> ARC_MPU_RESERVED_REGIONS \<le> k \<and>
    unit_loaded b s' (switch_regions s dst_id) \<and>
    (\<forall>j < ARC_MPU_RESERVED_REGIONS. mpu_entry b s' j = mpu_entry b s j)"
proof -
  let ?s1 = "s\<lparr>g_active_container := dst_id\<rparr>"
  let ?R1 = "if dst_id \<noteq> 0 then container_regions s dst_id else []" and ?R0 = "container_regions s 0"
  have ok1: "mpu_tables_ok (load_list b k rs ?s1)" for k rs
    using ok by (simp add: mpu_tables_ok_def)
  have cr: "container_regions (load_list b k rs ?s1) c = container_regions s c" for k rs c
    by (simp add: container_regions_def)
  define k1 where "k1 = 2 + min (length ?R1) (mpu_regions b - 2)"
  define s2 where "s2 = load_list b 2 ?R1 ?s1"
  have step1: "(if dst_id \<noteq> 0 then load_container b dst_id 2 ?s1 else Inr (2, ?s1)) = Inr (k1, s2)"
    using load_container_eq [of ?s1 dst_id b 2] ok1 [of 0 "[]"] cr [of 0 "[]" dst_id] dst
    by (auto simp: k1_def s2_def)
  define k2 where "k2 = k1 + min (length ?R0) (mpu_regions b - k1)"
  define s3 where "s3 = load_list b k1 ?R0 s2"
  have step2: "load_container b 0 k1 s2 = Inr (k2, s3)"
    using load_container_eq [of s2 0 b k1] ok1 cr by (simp add: k2_def s3_def s2_def)
  let ?s' = "clear_slots b k2 (s3\<lparr>g_mpu_slot := k2\<rparr>)"
  have res: "vmpu_switch_load b dst_id s = Inr ?s'"
    using n dst step1 step2 by (simp add: vmpu_switch_load_def)
  have entry: "mpu_entry b ?s' j = (if k2 \<le> j \<and> j < mpu_regions b then empty_entry b
      else if k1 \<le> j \<and> j < mpu_regions b \<and> j - k1 < length ?R0 then encode_region b (?R0 ! (j - k1))
      else if 2 \<le> j \<and> j < mpu_regions b \<and> j - 2 < length ?R1 then encode_region b (?R1 ! (j - 2))
      else mpu_entry b s j)" if "j < 16" for j
    using b that by (simp add: mpu_entry_clear_slots mpu_entry_load_list s3_def s2_def)
  have loaded: "unit_loaded b ?s' (switch_regions s dst_id)"
    unfolding unit_loaded_def
  proof (intro allI impI)
    fix j assume j: "2 \<le> j \<and> j < mpu_regions b"
    then have "j < 16"
      using b by (simp add: mpu_build_ok_def)
    have sw: "switch_regions s dst_id = ?R1 @ ?R0"
      by (simp add: switch_regions_def)
    show "mpu_entry b ?s' j = (if j - 2 < length (switch_regions s dst_id)
        then encode_region b (switch_regions s dst_id ! (j - 2)) else empty_entry b)"
      unfolding entry [OF \<open>j < 16\<close>] sw using j by (intro load_positions [OF _ _ k1_def k2_def]) auto
  qed
  have "arc_core.more (s3\<lparr>g_mpu_slot := k2\<rparr>) = arc_core.more (s\<lparr>g_active_container := dst_id, g_mpu_slot := k2\<rparr>)"
    by (rule more_slot) (simp add: s3_def s2_def)
  then have "arc_core.more ?s' = arc_core.more (s\<lparr>g_active_container := dst_id, g_mpu_slot := k2\<rparr>)" "memory ?s' = memory s"
    by (simp_all add: s3_def s2_def)
  moreover have "2 \<le> k2"
    by (simp add: k1_def k2_def)
  moreover have "mpu_entry b ?s' j = mpu_entry b s j" if "j < 2" for j
    using that entry [of j] by (simp add: k1_def k2_def)
  ultimately show ?thesis
    using res loaded by blast
qed

end
