(* ===== verification/Ss_Int.thy ===== *)
theory Ss_Int
  imports Ss_Vmpu
begin

text \<open>
  Interrupts and exceptions in the SecureShield runtime, \<open>core/src/arc_hal/secureshield_int.c\<close>:
  the table that gives each interrupt an owning container, the services that containers ask
  for and the checks they are subject to, the dispatch of an interrupt to its container and
  the return from it, and the handler of protection faults.

  An interrupt handler is code of a container. The dispatch runs it directly when it belongs
  to the interrupted secure container; its effect is the parameter \<open>run_handler\<close>.
\<close>

abbreviation (input) "INT_EXC_GET \<equiv> (0 :: u32)"
abbreviation (input) "INT_EXC_INSTALL \<equiv> (1 :: u32)"
abbreviation (input) "INT_EXC_ENABLE \<equiv> (2 :: u32)"
abbreviation (input) "INT_EXC_ENABLED \<equiv> (3 :: u32)"
abbreviation (input) "INT_EXC_DISABLE \<equiv> (4 :: u32)"
abbreviation (input) "INT_EXC_PRI_GET \<equiv> (5 :: u32)"
abbreviation (input) "INT_EXC_PRI_SET \<equiv> (6 :: u32)"
abbreviation (input) "INT_EXC_PROBE \<equiv> (7 :: u32)"
abbreviation (input) "INT_EXC_LEVEL_CONFIG \<equiv> (8 :: u32)"
abbreviation (input) "INT_EXC_SW_TRIG \<equiv> (9 :: u32)"
abbreviation (input) "INT_EXC_CPU_LOCK \<equiv> (10 :: u32)"
abbreviation (input) "INT_EXC_CPU_UNLOCK \<equiv> (11 :: u32)"

abbreviation (input) "AUX_ECR_C_PROTV_INST_FETCH \<equiv> (0 :: u32)"
abbreviation (input) "AUX_ECR_C_PROTV_LOAD \<equiv> (1 :: u32)"
abbreviation (input) "AUX_ECR_C_PROTV_STORE \<equiv> (2 :: u32)"
abbreviation (input) "AUX_ECR_C_PROTV_XCHG \<equiv> (3 :: u32)"

section \<open>Tables\<close>

datatype EXC_ENTRY = Entry_normal_rom | Entry_cpu | Entry_int

definition secureshield_exc_entry_table :: "'b build_scheme \<Rightarrow> EXC_ENTRY list" where
  "secureshield_exc_entry_table b =
     Entry_normal_rom # replicate (NUM_EXC_CPU - 1) Entry_cpu @ replicate (num_exc_int b) Entry_int"

text \<open>The entry of the handler table for an interrupt number that has been checked.\<close>

definition int_entry :: "ss_state \<Rightarrow> u32 \<Rightarrow> ss_stop + INT_HANDLER_ENTRY" where
  "int_entry s intno = get_or_undef (arr_get (int_handler_table s) (unat intno - NUM_EXC_CPU))"

definition set_int_entry :: "u32 \<Rightarrow> INT_HANDLER_ENTRY \<Rightarrow> ss_state \<Rightarrow> ss_state" where
  "set_int_entry intno e s =
     s\<lparr>int_handler_table := (int_handler_table s)[unat intno - NUM_EXC_CPU := e]\<rparr>"

section \<open>Checks\<close>

definition secure_int_default_check :: "'b build_scheme \<Rightarrow> u32 \<Rightarrow> bool" where
  "secure_int_default_check b intno \<longleftrightarrow>
     NUM_EXC_CPU \<le> unat intno \<and> unat intno < NUM_EXC_ALL b \<and>
     secureshield_exc_entry_table b ! unat intno = Entry_int"

definition secure_int_ac_check :: "'b build_scheme \<Rightarrow> ss_state \<Rightarrow> u32 \<Rightarrow> ss_stop + bool" where
  "secure_int_ac_check b s intno =
     (if \<not> secure_int_default_check b intno then Inr False
      else res_bind (int_entry s intno) (\<lambda>exc.
        if ih_handler exc = 0 then Inr False
        else res_bind (container_is_secure s (g_active_container s)) (\<lambda>secure.
          if secure then Inr True
          else Inr (\<not> (ih_id exc \<noteq> g_active_container s \<and> ih_id exc \<noteq> 0)))))"

text \<open>An operation behind the access check, with the value it returns when the check fails.\<close>

definition if_int_allowed ::
    "'b build_scheme \<Rightarrow> u32 \<Rightarrow> int \<Rightarrow> (ss_state \<Rightarrow> ss_stop + int \<times> ss_state) \<Rightarrow> ss_state \<Rightarrow> ss_stop + int \<times> ss_state"
  where
  "if_int_allowed b intno failed act s =
     res_bind (secure_int_ac_check b s intno) (\<lambda>ok. if ok then act s else Inr (failed, s))"

section \<open>Services\<close>

definition secure_int_handler_install ::
    "'b build_scheme \<Rightarrow> u32 \<Rightarrow> u32 \<Rightarrow> ss_state \<Rightarrow> ss_stop + int \<times> ss_state" where
  "secure_int_handler_install b intno handler s =
     (if \<not> secure_int_default_check b intno then Inr (-1, s)
      else res_bind (int_entry s intno) (\<lambda>exc.
        if ih_id exc \<noteq> g_active_container s \<and> ih_id exc \<noteq> 0 then Inr (-1, s)
        else Inr (0, set_int_entry intno
               (exc\<lparr>ih_handler := handler, ih_id := (if handler \<noteq> 0 then g_active_container s else 0)\<rparr>) s)))"

definition secure_int_handler_get :: "'b build_scheme \<Rightarrow> u32 \<Rightarrow> ss_state \<Rightarrow> ss_stop + int \<times> ss_state" where
  "secure_int_handler_get b intno = if_int_allowed b intno 0
     (\<lambda>s. res_bind (int_entry s intno) (\<lambda>exc. Inr (uint (ih_handler exc), s)))"

definition secure_int_disable :: "'b build_scheme \<Rightarrow> u32 \<Rightarrow> ss_state \<Rightarrow> ss_stop + int \<times> ss_state" where
  "secure_int_disable b intno = if_int_allowed b intno (-1)
     (\<lambda>s. let s = arc_int_disable intno s in
        res_bind (int_entry s intno) (\<lambda>exc. Inr (0, set_int_entry intno (exc\<lparr>ih_enabled := False\<rparr>) s)))"

definition secure_int_enable :: "'b build_scheme \<Rightarrow> u32 \<Rightarrow> ss_state \<Rightarrow> ss_stop + int \<times> ss_state" where
  "secure_int_enable b intno = if_int_allowed b intno (-1)
     (\<lambda>s. let s = arc_int_enable intno s in
        res_bind (int_entry s intno) (\<lambda>exc. Inr (0, set_int_entry intno (exc\<lparr>ih_enabled := True\<rparr>) s)))"

definition secure_int_enabled :: "'b build_scheme \<Rightarrow> u32 \<Rightarrow> ss_state \<Rightarrow> ss_stop + int \<times> ss_state" where
  "secure_int_enabled b intno = if_int_allowed b intno (-1)
     (\<lambda>s. let s = arc_aux_write AUX_IRQ_SELECT intno s in Inr (sint (arc_aux_read s AUX_IRQ_ENABLE), s))"

definition secure_int_pri_set :: "'b build_scheme \<Rightarrow> u32 \<Rightarrow> int \<Rightarrow> ss_state \<Rightarrow> ss_stop + int \<times> ss_state" where
  "secure_int_pri_set b intno intpri = if_int_allowed b intno (-1)
     (\<lambda>s. Inr (0, arc_int_pri_set intno (of_int (intpri - int_pri_min b)) s))"

definition secure_int_pri_get :: "'b build_scheme \<Rightarrow> u32 \<Rightarrow> ss_state \<Rightarrow> ss_stop + int \<times> ss_state" where
  "secure_int_pri_get b intno = if_int_allowed b intno 0
     (\<lambda>s. let (p, s) = arc_int_pri_get intno s in Inr (sint p + int_pri_min b, s))"

definition secure_int_sw_trigger :: "'b build_scheme \<Rightarrow> u32 \<Rightarrow> ss_state \<Rightarrow> ss_stop + int \<times> ss_state" where
  "secure_int_sw_trigger b intno = if_int_allowed b intno (-1) (\<lambda>s. Inr (0, arc_int_sw_trigger intno s))"

definition secure_int_probe :: "'b build_scheme \<Rightarrow> u32 \<Rightarrow> ss_state \<Rightarrow> ss_stop + int \<times> ss_state" where
  "secure_int_probe b intno = if_int_allowed b intno (-1)
     (\<lambda>s. let (p, s) = arc_int_probe intno s in Inr (sint p, s))"

definition secure_int_level_config :: "'b build_scheme \<Rightarrow> u32 \<Rightarrow> u32 \<Rightarrow> ss_state \<Rightarrow> ss_stop + int \<times> ss_state" where
  "secure_int_level_config b intno level = if_int_allowed b intno (-1)
     (\<lambda>s. Inr (0, arc_int_level_config intno level s))"

text \<open>Locking affects only the interrupts of the active and of the background container.\<close>

definition owned_or_background :: "ss_state \<Rightarrow> INT_HANDLER_ENTRY \<Rightarrow> bool" where
  "owned_or_background s exc \<longleftrightarrow> (ih_id exc = g_active_container s \<or> ih_id exc = 0) \<and> ih_handler exc \<noteq> 0"

fun cpu_lock_loop :: "nat \<Rightarrow> INT_HANDLER_ENTRY list \<Rightarrow> ss_state \<Rightarrow> ss_state" where
  "cpu_lock_loop i [] s = s"
| "cpu_lock_loop i (exc # excs) s =
     cpu_lock_loop (i + 1) excs
       (if owned_or_background s exc then arc_int_disable (of_nat (i + NUM_EXC_CPU)) s else s)"

definition secure_cpu_lock :: "ss_state \<Rightarrow> ss_state" where
  "secure_cpu_lock s = cpu_lock_loop 0 (int_handler_table s) s"

fun cpu_unlock_loop :: "nat \<Rightarrow> INT_HANDLER_ENTRY list \<Rightarrow> ss_state \<Rightarrow> ss_state" where
  "cpu_unlock_loop i [] s = s"
| "cpu_unlock_loop i (exc # excs) s =
     cpu_unlock_loop (i + 1) excs
       (if owned_or_background s exc \<and> ih_enabled exc then arc_int_enable (of_nat (i + NUM_EXC_CPU)) s else s)"

definition secure_cpu_unlock :: "ss_state \<Rightarrow> ss_state" where
  "secure_cpu_unlock s = cpu_unlock_loop 0 (int_handler_table s) s"

text \<open>
  The dispatcher of the services, common to both versions: the operation, its two parameters
  and the value it returns. Locking and unlocking return 0 in version 1 and -1 in version 2.
\<close>

definition int_ops ::
    "'b build_scheme \<Rightarrow> int \<Rightarrow> u32 \<Rightarrow> u32 \<Rightarrow> u32 \<Rightarrow> ss_state \<Rightarrow> ss_stop + int \<times> ss_state" where
  "int_ops b lock_result ops par1 par2 s =
     (if ops = INT_EXC_GET then secure_int_handler_get b par1 s
      else if ops = INT_EXC_INSTALL then secure_int_handler_install b par1 par2 s
      else if ops = INT_EXC_ENABLE then secure_int_enable b par1 s
      else if ops = INT_EXC_ENABLED then secure_int_enabled b par1 s
      else if ops = INT_EXC_DISABLE then secure_int_disable b par1 s
      else if ops = INT_EXC_PRI_SET then secure_int_pri_set b par1 (sint par2) s
      else if ops = INT_EXC_PRI_GET then secure_int_pri_get b par1 s
      else if ops = INT_EXC_PROBE then secure_int_probe b par1 s
      else if ops = INT_EXC_LEVEL_CONFIG then secure_int_level_config b par1 par2 s
      else if ops = INT_EXC_SW_TRIG then secure_int_sw_trigger b par1 s
      else if ops = INT_EXC_CPU_LOCK then Inr (lock_result, secure_cpu_lock s)
      else if ops = INT_EXC_CPU_UNLOCK then Inr (lock_result, secure_cpu_unlock s)
      else Inr (-1, s))"

definition secureshield_int_ops_v1 :: "'b build_scheme \<Rightarrow> u32 \<Rightarrow> ss_state \<Rightarrow> ss_stop + ss_state" where
  "secureshield_int_ops_v1 b frame s =
     res_bind (int_ops b 0 (exc_ld b s frame R0) (exc_ld b s frame R1) (exc_ld b s frame R2) s)
       (\<lambda>(r, s). Inr (exc_st b frame R0 (of_int r) s))"

definition secureshield_int_ops_v2 ::
    "'b build_scheme \<Rightarrow> u32 \<Rightarrow> u32 \<Rightarrow> u32 \<Rightarrow> ss_state \<Rightarrow> ss_stop + int \<times> ss_state" where
  "secureshield_int_ops_v2 b ops par1 par2 s = int_ops b (-1) ops par1 par2 s"

section \<open>Allocating an interrupt\<close>

definition vmpu_ac_irq :: "'b build_scheme \<Rightarrow> nat \<Rightarrow> u32 \<Rightarrow> u32 \<Rightarrow> ss_state \<Rightarrow> ss_stop + int \<times> ss_state" where
  "vmpu_ac_irq b container_id handler intno s =
     (if \<not> secure_int_default_check b intno then Inr (-1, s)
      else res_bind (int_entry s intno) (\<lambda>exc.
        if ih_id exc \<noteq> 0 then Inr (-1, s)
        else let s = set_int_entry intno \<lparr>ih_handler = handler, ih_id = container_id, ih_enabled = False\<rparr> s
             in Inr (0, if secureshield_version b = 2
                        then arc_int_secure_set intno (if container_id \<noteq> 0 then 1 else 0) s else s)))"

section \<open>Initialisation\<close>

definition ss_irq_ctrl_value :: "'b build_scheme \<Rightarrow> u32" where
  "ss_irq_ctrl_value b =
     (if feat_rf16 b then 3 else 6) OR push_bit 9 1 OR push_bit 10 1
     OR (if feat_code_density b then push_bit 13 1 else 0)"

definition int_init_one :: "'b build_scheme \<Rightarrow> nat \<Rightarrow> ss_state \<Rightarrow> ss_state" where
  "int_init_one b i s =
     (let s = arc_aux_write AUX_IRQ_SELECT (of_nat i) s;
          s = arc_aux_write AUX_IRQ_ENABLE 0 s;
          s = arc_aux_write AUX_IRQ_TRIGGER 0 s;
          pri = of_int (INT_PRI_MAX - int_pri_min b)
      in arc_aux_write AUX_IRQ_PRIORITY
           (if secureshield_version b = 1 then pri else pri OR AUX_IRQ_PRIORITY_MASK_S) s)"

definition secureshield_int_init :: "'b ss_build_scheme \<Rightarrow> ss_state \<Rightarrow> ss_state" where
  "secureshield_int_init b s =
     (let s = arc_aux_write (if secureshield_version b = 1 then AUX_INT_VECT_BASE else AUX_INT_VECT_BASE_S)
                (exc_table_addr b) s;
          s = fold (int_init_one b) [NUM_EXC_CPU..<NUM_EXC_ALL b] s;
          s = arc_aux_write AUX_IRQ_CTRL (ss_irq_ctrl_value b) s;
          s = arc_int_ipm_set (of_int (INT_PRI_MAX - int_pri_min b)) s
      in if secureshield_version b = 2 then arc_aux_write AUX_SEC_EXCEPT 0xfcff s else s)"

section \<open>Dispatching an interrupt\<close>

text \<open>
  The part both versions share: the interrupt that is served, with its table entry, or
  nothing when it is not one of the runtime's or has no handler, in which case it is disabled.
\<close>

definition int_accept :: "'b build_scheme \<Rightarrow> ss_state \<Rightarrow> ss_stop + INT_HANDLER_ENTRY option \<times> ss_state" where
  "int_accept b s =
     (let cause = arc_aux_read s AUX_IRQ_CAUSE;
          s = (if cause = arc_aux_read s AUX_IRQ_HINT then arc_aux_write AUX_IRQ_HINT 0 s else s)
      in if \<not> secure_int_default_check b cause then Inr (None, arc_int_disable cause s)
         else res_bind (int_entry s cause) (\<lambda>exc.
           if ih_handler exc = 0 then Inr (None, arc_int_disable cause s) else Inr (Some exc, s)))"

definition context_of :: "ss_state \<Rightarrow> nat \<Rightarrow> ss_stop + CONTAINER_CONTEXT" where
  "context_of s i = get_or_undef (arr_get (g_container_context s) i)"

definition int_switch_v1 ::
    "'b ss_build_scheme \<Rightarrow> nat \<Rightarrow> nat \<Rightarrow> u32 \<Rightarrow> u32 \<Rightarrow> ss_state \<Rightarrow> ss_stop + u32 \<times> ss_state" where
  "int_switch_v1 b src_id dst_id handler src_frame s =
     res_bind (vmpu_switch b src_id dst_id s) (\<lambda>s.
     res_bind (container_stack_push src_id (processor_of_exc b src_frame) (arc_aux_read s AUX_USER_SP)
         (exc_ld b s src_frame Status32) dst_id s) (\<lambda>s.
     res_bind (container_is_secure s dst_id) (\<lambda>secure.
     res_bind (context_of s dst_id) (\<lambda>dst.
       let s = s\<lparr>dst_container_user_sp := (if secure then 0 else cx_normal_sp dst)\<rparr>;
           s = arc_aux_write AUX_ERRET handler s;
           s = arc_aux_write AUX_ERSTATUS (cx_cpu_status dst) s
       in Inr (cx_cur_sp dst, s)))))"

definition int_same_normal_v1 ::
    "'b ss_build_scheme \<Rightarrow> nat \<Rightarrow> u32 \<Rightarrow> u32 \<Rightarrow> ss_state \<Rightarrow> ss_stop + u32 \<times> ss_state" where
  "int_same_normal_v1 b src_id handler src_frame s =
     res_bind (container_stack_push src_id (processor_of_exc b src_frame) (arc_aux_read s AUX_USER_SP)
         (exc_ld b s src_frame Status32) src_id s) (\<lambda>s.
     res_bind (context_of s src_id) (\<lambda>dst.
       let s = arc_aux_write AUX_ERRET handler s;
           s = arc_aux_write AUX_ERSTATUS (exc_ld b s src_frame Status32) s;
           s = s\<lparr>dst_container_user_sp := arc_aux_read s AUX_USER_SP\<rparr>
       in Inr (cx_cur_sp dst, s)))"

definition secureshield_interrupt_handle_v1 ::
    "'b ss_build_scheme \<Rightarrow> (u32 \<Rightarrow> ss_state \<Rightarrow> ss_state) \<Rightarrow> u32 \<Rightarrow> ss_state \<Rightarrow> ss_stop + u32 \<times> ss_state" where
  "secureshield_interrupt_handle_v1 b run_handler src_frame s =
     res_bind (int_accept b s) (\<lambda>(served, s).
       case served of
         None \<Rightarrow> Inr (0, s)
       | Some exc \<Rightarrow>
           frame_ref src_frame
          (let src_id = g_container_stack_curr_id s;
               s = exc_st b src_frame Erbta 0 s
           in if src_id \<noteq> ih_id exc then int_switch_v1 b src_id (ih_id exc) (ih_handler exc) src_frame s
              else res_bind (container_is_secure s src_id) (\<lambda>secure.
                if secure
                then let s = arc_aux_write AUX_MPU_EN 0x40000000 s;
                         s = arc_unlock_restore (exc_ld b s src_frame Status32) s
                     in Inr (0, run_handler (ih_handler exc) s)
                else int_same_normal_v1 b src_id (ih_handler exc) src_frame s)))"

text \<open>\<open>ffs\<close> gives the lowest set bit, and 31 for zero.\<close>

definition arc_ffs :: "u32 \<Rightarrow> nat" where
  "arc_ffs x = (case List.find (bit x) [0..<32] of None \<Rightarrow> 31 | Some n \<Rightarrow> n)"

definition irq_act_quit :: "ss_state \<Rightarrow> ss_state" where
  "irq_act_quit s =
     (let r0 = arc_aux_read s AUX_IRQ_ACT;
          r0 = unset_bit (arc_ffs r0) r0
      in arc_aux_write AUX_IRQ_ACT (unset_bit 31 r0) s)"

definition secureshield_int_return :: "'b ss_build_scheme \<Rightarrow> u32 \<Rightarrow> ss_state \<Rightarrow> ss_stop + u32 \<times> ss_state" where
  "secureshield_int_return b dst_frame s =
     (let dst_id = g_container_stack_curr_id s in
      res_bind (container_stack_pop dst_id (dst_frame + 4 * of_nat (ARC_EXC_FRAME_T_SIZE b))
          (arc_aux_read s AUX_USER_SP) (exc_ld b s dst_frame Status32) s) (\<lambda>s.
      res_bind (stack_item s) (\<lambda>item.
      res_bind (if cs_src_id item \<noteq> dst_id then vmpu_switch b dst_id (cs_src_id item) s else Inr s) (\<lambda>s.
        Inr (cs_src_sp item, irq_act_quit s)))))"

section \<open>Dispatching an interrupt in version 2\<close>

text \<open>\<open>INT_HANDLER_CALL_FRAME\<close>: secure stack pointer, normal stack pointer, handler, status.\<close>

definition int_call_frame_st :: "u32 \<Rightarrow> u32 \<Rightarrow> u32 \<Rightarrow> u32 \<Rightarrow> u32 \<Rightarrow> ss_state \<Rightarrow> ss_state" where
  "int_call_frame_st frame secure_sp normal_sp pc cpu_status s =
     s\<lparr>memory := st32 (st32 (st32 (st32 (memory s) frame secure_sp) (frame + 4) normal_sp)
         (frame + 8) pc) (frame + 12) cpu_status\<rparr>"

definition int_switch_v2 ::
    "'b ss_build_scheme \<Rightarrow> nat \<Rightarrow> nat \<Rightarrow> u32 \<Rightarrow> u32 \<Rightarrow> ss_state \<Rightarrow> ss_stop + u32 \<times> ss_state" where
  "int_switch_v2 b src_id dst_id handler sp s =
     res_bind (vmpu_switch b src_id dst_id s) (\<lambda>s.
     res_bind (container_stack_push src_id (processor_of_exc b sp) (arc_aux_read s AUX_KERNEL_SP)
         (arc_aux_read s AUX_STATUS32) dst_id s) (\<lambda>s.
     res_bind (container_is_secure s src_id) (\<lambda>src_secure.
     res_bind (if src_secure then set_context 0 (\<lambda>c. c\<lparr>cx_normal_sp := arc_aux_read s AUX_KERNEL_SP\<rparr>) s
               else Inr s) (\<lambda>s.
     res_bind (context_of s dst_id) (\<lambda>dst.
     res_bind (container_is_secure s dst_id) (\<lambda>dst_secure.
     res_bind (if dst_secure then context_of s 0 else Inr dst) (\<lambda>sp_owner.
       let dst_frame = cx_cur_sp dst - 16
       in Inr (dst_frame, int_call_frame_st dst_frame (cx_cur_sp dst) (cx_normal_sp sp_owner) handler
                 (cx_cpu_status dst) s))))))))"

definition secureshield_interrupt_handle_v2 ::
    "'b ss_build_scheme \<Rightarrow> (u32 \<Rightarrow> ss_state \<Rightarrow> ss_state) \<Rightarrow> u32 \<Rightarrow> ss_state \<Rightarrow> ss_stop + u32 \<times> ss_state" where
  "secureshield_interrupt_handle_v2 b run_handler sp s =
     res_bind (int_accept b s) (\<lambda>(served, s).
       case served of
         None \<Rightarrow> Inr (0, s)
       | Some exc \<Rightarrow>
           let src_id = g_container_stack_curr_id s in
           if src_id \<noteq> ih_id exc then int_switch_v2 b src_id (ih_id exc) (ih_handler exc) sp s
           else let s = arc_aux_write AUX_MPU_EN 0 s;
                    s = arc_seti 0 s;
                    s = run_handler (ih_handler exc) s
                in Inr (0, snd (arc_clri s)))"

definition secureshield_interrupt_handle_return ::
    "'b ss_build_scheme \<Rightarrow> u32 \<Rightarrow> ss_state \<Rightarrow> ss_stop + u32 \<times> ss_state" where
  "secureshield_interrupt_handle_return b sp s =
     (let dst_id = g_container_stack_curr_id s in
      res_bind (container_stack_pop dst_id sp (arc_aux_read s AUX_KERNEL_SP) (arc_aux_read s AUX_STATUS32) s) (\<lambda>s.
      res_bind (stack_item s) (\<lambda>item.
      res_bind (vmpu_switch b dst_id (cs_src_id item) s) (\<lambda>s.
        Inr (cs_src_sp item, s)))))"

section \<open>Exceptions\<close>

definition secureshield_exc_handler_protect_v :: "'b ss_build_scheme \<Rightarrow> ss_state \<Rightarrow> ss_stop + ss_state" where
  "secureshield_exc_handler_protect_v b s =
     (let excpt_cause_reg = arc_aux_read s AUX_ECR;
          parameter = excpt_cause_reg AND 0xff;
          cause_code = drop_bit 8 excpt_cause_reg AND 0xff
      in res_bind
           (if cause_code = AUX_ECR_C_PROTV_INST_FETCH then vmpu_fault_recovery_mpu b (arc_aux_read s AUX_ERRET) s
            else if cause_code \<in> {AUX_ECR_C_PROTV_LOAD, AUX_ECR_C_PROTV_STORE, AUX_ECR_C_PROTV_XCHG}
            then if parameter AND 0x04 \<noteq> 0 then vmpu_fault_recovery_mpu b (arc_aux_read s AUX_EFA) s
                 else Inr (-1, s)
            else Inr (-1, s))
           (\<lambda>(ret, s). if ret \<noteq> 0 then Inl Halt_exception else Inr s))"

definition secureshield_exc_handler_privilege_v :: "ss_state \<Rightarrow> ss_stop + ss_state" where
  "secureshield_exc_handler_privilege_v s = Inl Halt_exception"

definition secureshield_exc_handler_default :: "ss_state \<Rightarrow> ss_stop + ss_state" where
  "secureshield_exc_handler_default s = Inl Halt_exception"

end
