(* ===== verification/Ss_Sys.thy ===== *)
theory Ss_Sys
  imports Ss_Vmpu
begin

text \<open>
  The system services of the runtime, \<open>core/src/secureshield_sys.c\<close>: which auxiliary registers
  a container may read and write through the runtime, and the identity of the active and of
  the calling container.
\<close>

abbreviation (input) "SYS_LR \<equiv> (0 :: u32)"
abbreviation (input) "SYS_SR \<equiv> (1 :: u32)"
abbreviation (input) "SYS_CONTAINER_ID_SELF \<equiv> (2 :: u32)"
abbreviation (input) "SYS_CONTAINER_ID_CALLER \<equiv> (3 :: u32)"

section \<open>Access to auxiliary registers\<close>

definition aux_grants :: "u32 \<Rightarrow> CONTAINER_AUX \<Rightarrow> bool" where
  "aux_grants addr g \<longleftrightarrow> ca_start g \<le> addr \<and> addr < ca_end g"

definition secureshield_aux_check :: "ss_state \<Rightarrow> nat \<Rightarrow> u32 \<Rightarrow> ss_stop + bool" where
  "secureshield_aux_check s container_id addr =
     (if SECURESHIELD_MAX_CONTAINERS \<le> container_id then Inr False
      else res_bind (get_or_undef (arr_get (g_aux_container s) container_id)) (\<lambda>container.
        res_bind (block_scan (aux_grants addr) (g_aux_list s) (ax_aux container) (ax_count container)) (\<lambda>own.
          if own \<noteq> None then Inr True
          else res_bind (get_or_undef (arr_get (g_aux_container s) 0)) (\<lambda>background.
            if ax_aux background = None then Inr False
            else res_bind (block_scan (aux_grants addr) (g_aux_list s) (ax_aux background) (ax_count background))
              (\<lambda>shared. Inr (shared \<noteq> None))))))"

definition secure_arc_lr_reg :: "u32 \<Rightarrow> ss_state \<Rightarrow> ss_stop + u32" where
  "secure_arc_lr_reg addr s =
     res_bind (secureshield_aux_check s (g_active_container s) addr) (\<lambda>ok.
       Inr (if ok then arc_aux_read s addr else 0xffffffff))"

definition secure_arc_sr_reg :: "u32 \<Rightarrow> u32 \<Rightarrow> ss_state \<Rightarrow> ss_stop + ss_state" where
  "secure_arc_sr_reg addr val s =
     res_bind (secureshield_aux_check s (g_active_container s) addr) (\<lambda>ok.
       Inr (if ok then arc_aux_write addr val s else s))"

definition vmpu_ac_aux :: "nat \<Rightarrow> u32 \<Rightarrow> u32 \<Rightarrow> ss_state \<Rightarrow> ss_stop + int \<times> ss_state" where
  "vmpu_ac_aux container_id start sz s =
     (if CONTAINER_AUX_COUNT \<le> g_aux_count s then Inr (-1, s)
      else if SECURESHIELD_MAX_CONTAINERS \<le> container_id then Inr (-1, s)
      else res_bind (get_or_undef (arr_get (g_aux_container s) container_id)) (\<lambda>container.
        let first = (case ax_aux container of None \<Rightarrow> g_aux_count s | Some i \<Rightarrow> i);
            container = container\<lparr>ax_aux := Some first\<rparr>
        in res_bind (get_or_undef (arr_set (g_aux_list s) (first + ax_count container)
                      \<lparr>ca_start = start, ca_end = start + sz\<rparr>)) (\<lambda>xs.
             Inr (0, s\<lparr>g_aux_list := xs,
                       g_aux_container := (g_aux_container s)
                         [container_id := container\<lparr>ax_count := ax_count container + 1\<rparr>],
                       g_aux_count := g_aux_count s + 1\<rparr>))))"

section \<open>Identities\<close>

definition secure_container_id_self :: "ss_state \<Rightarrow> int" where
  "secure_container_id_self s = int (g_active_container s)"

definition secure_container_id_caller :: "ss_state \<Rightarrow> ss_stop + int" where
  "secure_container_id_caller s =
     (if g_container_stack_ptr s < 1 then Inr (-1)
      else res_bind (get_or_undef (arr_get (g_container_stack s) (g_container_stack_ptr s - 1)))
        (\<lambda>item. Inr (int (cs_src_id item))))"

section \<open>The dispatchers\<close>

definition secureshield_sys_ops_v1 :: "'b build_scheme \<Rightarrow> u32 \<Rightarrow> ss_state \<Rightarrow> ss_stop + ss_state" where
  "secureshield_sys_ops_v1 b frame s =
     (let ops = exc_ld b s frame R0; r1 = exc_ld b s frame R1; r2 = exc_ld b s frame R2 in
      if ops = SYS_LR then res_bind (secure_arc_lr_reg r1 s) (\<lambda>v. Inr (exc_st b frame R0 v s))
      else if ops = SYS_SR then secure_arc_sr_reg r1 r2 s
      else if ops = SYS_CONTAINER_ID_SELF
      then Inr (exc_st b frame R0 (of_int (secure_container_id_self s)) s)
      else if ops = SYS_CONTAINER_ID_CALLER
      then res_bind (secure_container_id_caller s) (\<lambda>v. Inr (exc_st b frame R0 (of_int v) s))
      else Inr s)"

definition secureshield_sys_ops_v2 ::
    "u32 \<Rightarrow> u32 \<Rightarrow> u32 \<Rightarrow> u32 \<Rightarrow> u32 \<Rightarrow> ss_state \<Rightarrow> ss_stop + int \<times> ss_state" where
  "secureshield_sys_ops_v2 sys_id par1 par2 par3 par4 s =
     (if sys_id = SYS_LR then res_bind (secure_arc_lr_reg par1 s) (\<lambda>v. Inr (sint v, s))
      else if sys_id = SYS_SR then res_bind (secure_arc_sr_reg par1 par2 s) (\<lambda>s. Inr (-1, s))
      else if sys_id = SYS_CONTAINER_ID_SELF then Inr (secure_container_id_self s, s)
      else if sys_id = SYS_CONTAINER_ID_CALLER
      then res_bind (secure_container_id_caller s) (\<lambda>v. Inr (v, s))
      else Inr (-1, s))"

end
