(* ===== verification/Ss_Call.thy ===== *)
theory Ss_Call
  imports Ss_Int Ss_Sys
begin

text \<open>
  Container calls: the trap handler of version 1 (\<open>core/src/v1/secureshield_trap.c\<close>) and the
  \<open>sjli\<close> services of version 2 (\<open>core/src/v2/secureshield_sjli.c\<close>). A call in checks the
  description of the call, looks the interface up, saves the caller on the container stack,
  builds the callee's frame and switches the protection unit; a call out undoes this. The
  result is the address of the frame to continue with, or 0 to return to the caller directly.
\<close>

abbreviation (input) "SECURE_CALL_SYS \<equiv> (0 :: u32)"
abbreviation (input) "SECURE_CALL_CONTAINER_IN \<equiv> (1 :: u32)"
abbreviation (input) "SECURE_CALL_CONTAINER_OUT \<equiv> (2 :: u32)"
abbreviation (input) "SECURE_CALL_INT_OUT \<equiv> (3 :: u32)"
abbreviation (input) "SECURE_CALL_INT_EXC \<equiv> (4 :: u32)"
abbreviation (input) "SECURESHIELD_TRAP_ID_MASK \<equiv> (0x3F :: u32)"

text \<open>\<open>while(args--)\<close>: copying the arguments word by word, with the loads after the stores.\<close>

fun copy_args :: "nat \<Rightarrow> u32 \<Rightarrow> u32 \<Rightarrow> mem \<Rightarrow> mem" where
  "copy_args 0 dst src m = m"
| "copy_args (Suc n) dst src m = copy_args n (dst + 4) (src + 4) (st32 m dst (ld32 m src))"

section \<open>Version 1\<close>

definition call_frame_v1 ::
    "'b ss_build_scheme \<Rightarrow> u32 \<Rightarrow> u32 \<Rightarrow> u32 \<Rightarrow> u32 \<Rightarrow> nat \<Rightarrow> ss_state \<Rightarrow> ss_state" where
  "call_frame_v1 b src_frame dst_frame dst_fn status args s =
     (let dst = exc_of_processor b dst_frame;
          s = exc_st b dst Erbta 0 s;
          s = exc_st b dst Ret dst_fn s;
          s = exc_st b dst Status32 status s;
          s = exc_st b dst Blink (call_out_addr b) s;
          s = (if ss_copy_gp b then exc_st b dst Gp (exc_ld b s src_frame Gp) s else s)
      in s\<lparr>memory := copy_args args (exc_at b dst R0) (exc_at b src_frame R1) (memory s)\<rparr>)"

definition trap_container_call_in :: "'b ss_build_scheme \<Rightarrow> u32 \<Rightarrow> ss_state \<Rightarrow> ss_stop + u32 \<times> ss_state" where
  "trap_container_call_in b src_frame s =
     (if arc_int_active s then Inr (0, s)
      else let trap_pc = exc_ld b s src_frame Ret - 2 in
        res_bind (container_call_check_magic b s trap_pc) (\<lambda>_.
        let dst_fn = container_call_get_dst_fn b s trap_pc in
        res_bind (container_call_get_dst_id b s trap_pc) (\<lambda>dst_id.
          let src_id = g_container_stack_curr_id s in
          if src_id = dst_id then Inl Halt_same_container
          else let args = exc_ld b s src_frame R0 AND 0xff in
            res_bind (vmpu_find_interface s dst_id dst_fn args) (\<lambda>func.
              if func = 0 then Inl Halt_no_interface
              else res_bind (container_stack_push src_id (processor_of_exc b src_frame)
                       (arc_aux_read s AUX_USER_SP) (exc_ld b s src_frame Status32) dst_id s) (\<lambda>s.
                res_bind (context_of s dst_id) (\<lambda>dst.
                  let s = call_frame_v1 b src_frame (cx_cur_sp dst) dst_fn (cx_cpu_status dst) (unat args) s
                  in res_bind (vmpu_switch b src_id dst_id s) (\<lambda>s. Inr (cx_cur_sp dst, s))))))))"

definition trap_container_call_out :: "'b ss_build_scheme \<Rightarrow> u32 \<Rightarrow> ss_state \<Rightarrow> ss_stop + u32 \<times> ss_state" where
  "trap_container_call_out b dst_frame s =
     (let dst_id = g_container_stack_curr_id s in
      res_bind (container_stack_pop dst_id (processor_of_exc b dst_frame)
          (arc_aux_read s AUX_USER_SP) (exc_ld b s dst_frame Status32) s) (\<lambda>s.
      res_bind (stack_item s) (\<lambda>item.
        let src = cs_src_sp item;
            s = exc_st b (exc_of_processor b src) R0 (exc_ld b s dst_frame R0) s
        in res_bind (vmpu_switch b dst_id (cs_src_id item) s) (\<lambda>s. Inr (src, s)))))"

text \<open>The functions that the handler calls follow the pointer to the frame they are given.\<close>

definition secureshield_trap_handler :: "'b ss_build_scheme \<Rightarrow> u32 \<Rightarrow> ss_state \<Rightarrow> ss_stop + u32 \<times> ss_state" where
  "secureshield_trap_handler b exc_frame s =
     (if exc_frame = 0 then Inl Assert_failed
      else let trap_id = arc_aux_read s AUX_ECR AND SECURESHIELD_TRAP_ID_MASK in
        if trap_id = SECURE_CALL_SYS
        then frame_ref exc_frame (res_bind (secureshield_sys_ops_v1 b exc_frame s) (\<lambda>s. Inr (0, s)))
        else if trap_id = SECURE_CALL_CONTAINER_IN then frame_ref exc_frame (trap_container_call_in b exc_frame s)
        else if trap_id = SECURE_CALL_CONTAINER_OUT then frame_ref exc_frame (trap_container_call_out b exc_frame s)
        else if trap_id = SECURE_CALL_INT_OUT then frame_ref exc_frame (secureshield_int_return b exc_frame s)
        else if trap_id = SECURE_CALL_INT_EXC
        then frame_ref exc_frame (res_bind (secureshield_int_ops_v1 b exc_frame s) (\<lambda>s. Inr (0, s)))
        else Inr (0, s))"

section \<open>Version 2\<close>

text \<open>Where the call comes from: registers when secure identifiers are used, else the code.\<close>

definition call_target_v2 :: "'b ss_build_scheme \<Rightarrow> u32 \<Rightarrow> ss_state \<Rightarrow> ss_stop + u32 \<times> nat" where
  "call_target_v2 b src_frame s =
     (if ss_sid b
      then let dst_id = unat (cfg_index b (exc_ld b s src_frame R1)) mod 256 in
           if dst_id = 0 \<or> g_vmpu_container_count s \<le> dst_id then Inl Halt_call_range
           else Inr (exc_ld b s src_frame R2, dst_id)
      else let pc = exc_ld b s src_frame Blink - 4 in
        res_bind (container_call_check_magic b s pc) (\<lambda>_.
        res_bind (container_call_get_dst_id b s pc) (\<lambda>dst_id.
          Inr (container_call_get_dst_fn b s pc, dst_id))))"

definition call_frame_v2 ::
    "'b ss_build_scheme \<Rightarrow> u32 \<Rightarrow> u32 \<Rightarrow> u32 \<Rightarrow> u32 \<Rightarrow> nat \<Rightarrow> ss_state \<Rightarrow> ss_state" where
  "call_frame_v2 b src_frame dst_frame dst_fn status args s =
     (let dst = exc_of_processor b dst_frame;
          s = exc_st b dst Blink dst_fn s;
          s = exc_st b dst Ret dst_fn s;
          s = exc_st b dst Status32 status s;
          s = (if ss_copy_gp b then exc_st b dst Gp (exc_ld b s src_frame Gp) s else s)
      in s\<lparr>memory := copy_args args (exc_at b dst R0)
             (exc_at b src_frame (if ss_sid b then R3 else R1)) (memory s)\<rparr>)"

definition container_call_in :: "'b ss_build_scheme \<Rightarrow> u32 \<Rightarrow> ss_state \<Rightarrow> ss_stop + u32 \<times> ss_state" where
  "container_call_in b src_frame s =
     (if src_frame = 0 then Inl Assert_failed
      else if arc_int_active s then Inr (0, s)
      else frame_ref src_frame (res_bind (call_target_v2 b src_frame s) (\<lambda>(dst_fn, dst_id).
        let src_id = g_container_stack_curr_id s in
        if src_id = dst_id then Inl Halt_same_container
        else let args = exc_ld b s src_frame R0 AND 0xff in
          res_bind (vmpu_find_interface s dst_id dst_fn args) (\<lambda>func.
            if func = 0 then Inl Halt_no_interface
            else
            res_bind (container_stack_push src_id (processor_of_exc b src_frame)
                (arc_aux_read s AUX_KERNEL_SP) (exc_ld b s src_frame Status32) dst_id s) (\<lambda>s.
            res_bind (container_is_secure s src_id) (\<lambda>src_secure.
            res_bind (if src_secure then set_context 0 (\<lambda>c. c\<lparr>cx_normal_sp := arc_aux_read s AUX_KERNEL_SP\<rparr>) s
                      else Inr s) (\<lambda>s.
            res_bind (context_of s dst_id) (\<lambda>dst.
              let s = call_frame_v2 b src_frame (cx_cur_sp dst) dst_fn (cx_cpu_status dst) (unat args) s in
              res_bind (vmpu_switch b src_id dst_id s) (\<lambda>s.
              res_bind (container_is_secure s dst_id) (\<lambda>dst_secure.
              res_bind (if dst_secure
                        then res_bind (context_of s 0)
                          (\<lambda>c0. Inr (callee_st b (cx_cur_sp dst) Kernel_sp (cx_normal_sp c0) s))
                        else Inr s) (\<lambda>s.
                Inr (cx_cur_sp dst, s))))))))))))"

definition container_call_out :: "'b ss_build_scheme \<Rightarrow> u32 \<Rightarrow> ss_state \<Rightarrow> ss_stop + u32 \<times> ss_state" where
  "container_call_out b dst s =
     (let dst_id = g_container_stack_curr_id s in
      res_bind (container_stack_pop dst_id dst (arc_aux_read s AUX_KERNEL_SP) (arc_aux_read s AUX_STATUS32) s) (\<lambda>s.
      res_bind (stack_item s) (\<lambda>item. frame_ref dst
       (let src = cs_src_sp item;
            s = exc_st b (exc_of_processor b src) R0 (exc_ld b s (exc_of_processor b dst) R0) s
        in res_bind (vmpu_switch b dst_id (cs_src_id item) s) (\<lambda>s. Inr (src, s))))))"

end
