(* ===== verification/Ss_Setup.thy ===== *)
theory Ss_Setup
  imports Ss_Call
begin

text \<open>
  Start-up of the runtime, \<open>core/src/secureshield_vmpu.c\<close> and \<open>core/src/secureshield.c\<close>: the
  checks of the configuration, the loop that enters every container and its access control
  table, and the load of the background container.
\<close>

section \<open>Checks of the configuration\<close>

abbreviation (input) "SECURESHIELD_MAGIC \<equiv> (0x41524353 :: u32)"

definition vmpu_config_checks :: "'b ss_build_scheme \<Rightarrow> ss_stop + unit" where
  "vmpu_config_checks b =
     (if config_magic b \<noteq> SECURESHIELD_MAGIC then Inl Halt_config_magic
      else if \<not> (embarc_clz 0 = 32 \<and> embarc_clz (push_bit 31 1) = 0 \<and> embarc_bits 0 = 0
                 \<and> embarc_bits (push_bit 31 1) = 32 \<and> embarc_bits 0x8000 = 16
                 \<and> embarc_bits 0x8001 = 16 \<and> embarc_bits 1 = 1) then Inl Assert_failed
      else if \<not> (secure_rom_start_cfg b \<le> config_addr b \<and> secure_rom_start b = secure_rom_start_cfg b
                 \<and> secure_ram_start b = secure_ram_start_cfg b
                 \<and> background_rom_start b = normal_rom_start_cfg b
                 \<and> background_ram_start b = normal_ram_start_cfg b
                 \<and> config_addr b + config_size b \<le> secure_rom_start_cfg b + secure_rom_size_cfg b)
      then Inl Assert_failed
      else if \<not> (secure_ram_start b < secure_ram_end b \<and> secure_rom_start b \<le> secure_rom_end b
                 \<and> secure_rom_end b \<le> secure_rom_start_cfg b + secure_rom_size_cfg b
                 \<and> cfgtbl_ptr_start b \<le> cfgtbl_ptr_end b \<and> secure_rom_start b \<le> cfgtbl_ptr_start b
                 \<and> cfgtbl_ptr_end b \<le> secure_rom_start_cfg b + secure_rom_size_cfg b)
      then Inl Assert_failed
      else Inr ())"

section \<open>Entering the containers\<close>

definition VMPU_SECURE_ROM_ADDR :: "'b ss_build_scheme \<Rightarrow> u32 \<Rightarrow> bool" where
  "VMPU_SECURE_ROM_ADDR b addr \<longleftrightarrow>
     NOT (secure_rom_size_cfg b - 1) AND addr = secure_rom_start_cfg b AND NOT (secure_rom_size_cfg b - 1)"

abbreviation (input) "CONTAINER_CONFIG_SIZE \<equiv> (68 :: u32)"

definition setup_ac_item ::
    "'b ss_build_scheme \<Rightarrow> nat \<Rightarrow> CONTAINER_AC_ITEM \<Rightarrow> ss_state \<Rightarrow> ss_stop + ss_state" where
  "setup_ac_item b container_id item s =
     (if has (ac_ac item) AC_IRQ
      then res_bind (vmpu_ac_irq b container_id (ac_param1 item) (ac_param2 item) s) (\<lambda>(_, s). Inr s)
      else if has (ac_ac item) AC_INTERFACE
      then vmpu_ac_interface container_id (ac_param1 item) (ac_param2 item) s
      else if has (ac_ac item) AC_AUX
      then res_bind (vmpu_ac_aux container_id (ac_param1 item) (ac_param2 item) s) (\<lambda>(_, s). Inr s)
      else vmpu_ac_mem b container_id (ac_param1 item) (ac_param2 item) (ac_ac item) s)"

fun setup_ac_table ::
    "'b ss_build_scheme \<Rightarrow> nat \<Rightarrow> CONTAINER_AC_ITEM list \<Rightarrow> nat \<Rightarrow> nat \<Rightarrow> ss_state \<Rightarrow> ss_stop + ss_state" where
  "setup_ac_table b container_id tbl i 0 s = Inr s"
| "setup_ac_table b container_id tbl i (Suc n) s =
     res_bind (get_or_undef (arr_get tbl i)) (\<lambda>item.
     res_bind (setup_ac_item b container_id item s) (\<lambda>s. setup_ac_table b container_id tbl (i + 1) n s))"

definition setup_container ::
    "'b ss_build_scheme \<Rightarrow> u32 \<times> CONTAINER_CONFIG \<Rightarrow> ss_state \<Rightarrow> ss_stop + ss_state" where
  "setup_container b entry s =
     (let (addr, cfg) = entry in
      if \<not> (VMPU_SECURE_ROM_ADDR b addr \<and> VMPU_SECURE_ROM_ADDR b (addr + (CONTAINER_CONFIG_SIZE - 1)))
      then Inl Halt_cfg_not_rom
      else if cc_magic cfg \<noteq> CONTAINER_MAGIC then Inl Halt_cfg_magic
      else let container_id = g_vmpu_container_count s;
               s = s\<lparr>g_vmpu_container_count := container_id + 1\<rparr>
           in if SECURESHIELD_MAX_CONTAINERS \<le> container_id then Inl Halt_container_overflow
              else res_bind (vmpu_ac_container b container_id cfg s) (\<lambda>s.
                case cc_ac_table cfg of
                  None \<Rightarrow> Inr s
                | Some tbl \<Rightarrow> setup_ac_table b container_id tbl 0 (cc_ac_count cfg) s))"

definition vmpu_setup_containers :: "'b ss_build_scheme \<Rightarrow> ss_state \<Rightarrow> ss_stop + ss_state" where
  "vmpu_setup_containers b s =
     res_fold (setup_container b) (cfgtbl b) (s\<lparr>g_vmpu_container_count := 0\<rparr>)"

section \<open>Initialisation\<close>

definition vmpu_init_pre :: "'b ss_build_scheme \<Rightarrow> ss_stop + unit" where
  "vmpu_init_pre b = vmpu_config_checks b"

definition vmpu_init_post :: "'b ss_build_scheme \<Rightarrow> ss_state \<Rightarrow> ss_stop + ss_state" where
  "vmpu_init_post b s =
     res_bind (vmpu_arch_init b s) (\<lambda>s.
     res_bind (vmpu_setup_containers b s) (\<lambda>s. vmpu_load_container b 0 s))"

definition secureshield_init :: "'b ss_build_scheme \<Rightarrow> ss_state \<Rightarrow> ss_stop + ss_state" where
  "secureshield_init b s = vmpu_init_post b (secureshield_int_init b s)"

text \<open>The variables before start-up: the loader has cleared them.\<close>

definition ss_cleared :: "'b ss_build_scheme \<Rightarrow> ss_state \<Rightarrow> bool" where
  "ss_cleared b s \<longleftrightarrow>
     g_vmpu_container_count s = 0 \<and> g_active_container s = 0 \<and>
     g_container_stack s = replicate STACK_MAX_DEPTH \<lparr>cs_src_id = 0, cs_src_sp = 0\<rparr> \<and> g_container_stack_ptr s = 0 \<and>
     g_container_context s = replicate SECURESHIELD_MAX_CONTAINERS
       \<lparr>cx_cur_sp = 0, cx_normal_sp = 0, cx_cpu_status = 0, cx_cfg = None\<rparr> \<and>
     g_container_stack_curr_id s = 0 \<and> g_mpu_slot s = 0 \<and> g_mpu_region_count s = 0 \<and>
     g_mpu_list s = replicate MPU_REGION_COUNT \<lparr>rg_base = 0, rg_attr = 0, rg_size = 0, rg_ac = 0\<rparr> \<and>
     g_mpu_container s = replicate SECURESHIELD_MAX_CONTAINERS \<lparr>mc_region = None, mc_count = 0\<rparr> \<and>
     g_interface_count s = 0 \<and>
     g_interface_list s = replicate CONTAINER_INTERFACE_COUNT \<lparr>if_func = 0, if_args_num = 0\<rparr> \<and>
     g_interface_container s = replicate SECURESHIELD_MAX_CONTAINERS \<lparr>ic_interface = None, ic_count = 0\<rparr> \<and>
     g_secure_sid_mask s = 0 \<and> \<not> vmpu_load s \<and> g_aux_count s = 0 \<and>
     g_aux_list s = replicate CONTAINER_AUX_COUNT \<lparr>ca_start = 0, ca_end = 0\<rparr> \<and>
     g_aux_container s = replicate SECURESHIELD_MAX_CONTAINERS \<lparr>ax_aux = None, ax_count = 0\<rparr> \<and>
     int_handler_table s = replicate (num_exc_int b) \<lparr>ih_handler = 0, ih_id = 0, ih_enabled = False\<rparr>"

end
