(* ===== verification/Ss_Inv.thy ===== *)
theory Ss_Inv
  imports Ss_Setup
begin

text \<open>
  What the runtime keeps while it runs. \<open>ss_wf\<close> says that the tables are consistent: every
  block and every identifier stays inside its array. \<open>mpu_confined\<close> says what the entries of
  the protection unit may hold: only regions of the active container, of the background
  container and, when the active container is secure, of normal containers. The lemmas show
  for every primitive of the runtime that it keeps both, that it leaves the two entries of the
  runtime itself alone, and that it does not touch the lower part of the container stack.
\<close>

section \<open>Invariants\<close>

text \<open>The registers that hold the entries of the protection unit.\<close>

definition mpu_reg :: "u32 \<Rightarrow> bool" where
  "mpu_reg r \<longleftrightarrow> AUX_MPU_RDB0 \<le> r \<and> r \<le> 0x441 \<or> r \<in> {AUX_MPU_RSTART, AUX_MPU_REND, AUX_MPU_RPER}"

definition stack_wf :: "ss_state \<Rightarrow> bool" where
  "stack_wf s \<longleftrightarrow>
     length (g_container_stack s) = STACK_MAX_DEPTH \<and> g_container_stack_ptr s \<le> STACK_MAX_DEPTH \<and>
     (\<forall>i < g_container_stack_ptr s. cs_src_id (g_container_stack s ! i) < g_vmpu_container_count s)"

definition ids_wf :: "ss_state \<Rightarrow> bool" where
  "ids_wf s \<longleftrightarrow>
     g_vmpu_container_count s \<le> SECURESHIELD_MAX_CONTAINERS \<and>
     g_active_container s < g_vmpu_container_count s \<and>
     g_container_stack_curr_id s < g_vmpu_container_count s \<and>
     length (g_container_context s) = SECURESHIELD_MAX_CONTAINERS \<and>
     (\<forall>c < g_vmpu_container_count s. cx_cfg (g_container_context s ! c) \<noteq> None)"

definition interfaces_wf :: "ss_state \<Rightarrow> bool" where
  "interfaces_wf s \<longleftrightarrow>
     length (g_interface_list s) = CONTAINER_INTERFACE_COUNT \<and>
     length (g_interface_container s) = SECURESHIELD_MAX_CONTAINERS \<and>
     (\<forall>c < SECURESHIELD_MAX_CONTAINERS.
        block_ok (ic_interface (g_interface_container s ! c)) (ic_count (g_interface_container s ! c))
          CONTAINER_INTERFACE_COUNT)"

text \<open>No grant of auxiliary registers reaches an entry of the protection unit.\<close>

definition aux_wf :: "ss_state \<Rightarrow> bool" where
  "aux_wf s \<longleftrightarrow>
     length (g_aux_list s) = CONTAINER_AUX_COUNT \<and>
     length (g_aux_container s) = SECURESHIELD_MAX_CONTAINERS \<and>
     (\<forall>c < SECURESHIELD_MAX_CONTAINERS.
        block_ok (ax_aux (g_aux_container s ! c)) (ax_count (g_aux_container s ! c)) CONTAINER_AUX_COUNT) \<and>
     (\<forall>g \<in> set (g_aux_list s). \<forall>r. mpu_reg r \<longrightarrow> \<not> aux_grants r g)"

definition handlers_wf :: "'b build_scheme \<Rightarrow> ss_state \<Rightarrow> bool" where
  "handlers_wf b s \<longleftrightarrow>
     length (int_handler_table s) = num_exc_int b \<and>
     (\<forall>e \<in> set (int_handler_table s). ih_id e < g_vmpu_container_count s)"

definition ss_wf :: "'b ss_build_scheme \<Rightarrow> ss_state \<Rightarrow> bool" where
  "ss_wf b s \<longleftrightarrow>
     mpu_tables_ok s \<and> stack_wf s \<and> ids_wf s \<and> interfaces_wf s \<and> aux_wf s \<and> handlers_wf b s \<and>
     ARC_MPU_RESERVED_REGIONS \<le> g_mpu_slot s \<and>
     (if ss_sid b then vmpu_load s else g_mpu_region_count s \<noteq> 0)"

definition is_secure :: "ss_state \<Rightarrow> nat \<Rightarrow> bool" where
  "is_secure s c \<longleftrightarrow> container_is_secure s c = Inr True"

definition allowed_regions :: "ss_state \<Rightarrow> MPU_REGION set" where
  "allowed_regions s =
     {r. \<exists>c < g_vmpu_container_count s. r \<in> set (container_regions s c) \<and>
           (c = g_active_container s \<or> c = 0 \<or> is_secure s (g_active_container s) \<and> \<not> is_secure s c)}"

definition mpu_confined :: "'b ss_build_scheme \<Rightarrow> ss_state \<Rightarrow> bool" where
  "mpu_confined b s \<longleftrightarrow>
     (\<forall>j. ARC_MPU_RESERVED_REGIONS \<le> j \<and> j < mpu_regions b \<longrightarrow>
        mpu_entry b s j = empty_entry b \<or> mpu_entry b s j \<in> encode_region b ` allowed_regions s)"

definition ss_inv :: "'b ss_build_scheme \<Rightarrow> ss_state \<Rightarrow> bool" where
  "ss_inv b s \<longleftrightarrow> ss_wf b s \<and> (\<not> ss_sid b \<longrightarrow> mpu_confined b s)"

text \<open>The tables that are fixed after start-up.\<close>

definition same_tables :: "ss_state \<Rightarrow> ss_state \<Rightarrow> bool" where
  "same_tables s t \<longleftrightarrow>
     g_vmpu_container_count t = g_vmpu_container_count s \<and>
     g_mpu_list t = g_mpu_list s \<and> g_mpu_container t = g_mpu_container s \<and>
     g_mpu_region_count t = g_mpu_region_count s \<and>
     g_interface_list t = g_interface_list s \<and> g_interface_container t = g_interface_container s \<and>
     g_aux_list t = g_aux_list s \<and> g_aux_container t = g_aux_container s \<and>
     map cx_cfg (g_container_context t) = map cx_cfg (g_container_context s) \<and> vmpu_load t = vmpu_load s"

definition same_entries :: "'b build_scheme \<Rightarrow> nat \<Rightarrow> ss_state \<Rightarrow> ss_state \<Rightarrow> bool" where
  "same_entries b n s t \<longleftrightarrow> (\<forall>j < n. mpu_entry b t j = mpu_entry b s j)"

definition same_stack :: "nat \<Rightarrow> ss_state \<Rightarrow> ss_state \<Rightarrow> bool" where
  "same_stack k s t \<longleftrightarrow> (\<forall>i < k. g_container_stack t ! i = g_container_stack s ! i)"

text \<open>What every step of the runtime does, above level \<open>k\<close> of the container stack.\<close>

definition keeps :: "'b ss_build_scheme \<Rightarrow> nat \<Rightarrow> ss_state \<Rightarrow> ss_state \<Rightarrow> bool" where
  "keeps b k s t \<longleftrightarrow>
     (ss_inv b s \<longrightarrow> ss_inv b t) \<and> same_tables s t \<and>
     same_entries b ARC_MPU_RESERVED_REGIONS s t \<and> same_stack k s t"

lemma keeps_refl [simp, intro]: "keeps b k s s"
  by (simp add: keeps_def same_tables_def same_entries_def same_stack_def)

lemma keeps_trans: "keeps b k s t \<Longrightarrow> keeps b k t u \<Longrightarrow> keeps b k s u"
  by (simp add: keeps_def same_tables_def same_entries_def same_stack_def)

lemma keeps_inv: "keeps b k s t \<Longrightarrow> ss_inv b s \<Longrightarrow> ss_inv b t"
  by (simp add: keeps_def)

section \<open>Changes of the core only\<close>

lemmas wf_defs = ss_wf_def mpu_tables_ok_def stack_wf_def ids_wf_def interfaces_wf_def aux_wf_def
  handlers_wf_def

lemma more_wf: "arc_core.more t = arc_core.more s \<Longrightarrow> ss_wf b t \<longleftrightarrow> ss_wf b s"
  unfolding wf_defs by (simp only: ss_fields_more [of t s])

lemma more_secure: "arc_core.more t = arc_core.more s \<Longrightarrow> container_is_secure t c = container_is_secure s c"
  unfolding container_is_secure_def by (simp only: ss_fields_more [of t s])

lemma more_allowed: "arc_core.more t = arc_core.more s \<Longrightarrow> allowed_regions t = allowed_regions s"
  unfolding allowed_regions_def is_secure_def container_regions_def
  by (simp only: ss_fields_more [of t s] more_secure [of t s])

text \<open>A step that changes registers and memory, but no entry of the protection unit.\<close>

definition core_step :: "'b build_scheme \<Rightarrow> ss_state \<Rightarrow> ss_state \<Rightarrow> bool" where
  "core_step b s t \<longleftrightarrow> arc_core.more t = arc_core.more s \<and> same_entries b 16 s t"

lemma core_step_refl [simp, intro]: "core_step b s s"
  by (simp add: core_step_def same_entries_def)

lemma core_step_trans: "core_step b s t \<Longrightarrow> core_step b t u \<Longrightarrow> core_step b s u"
  by (simp add: core_step_def same_entries_def)

lemma core_step_keeps:
  assumes b: "mpu_build_ok b" and st: "core_step b s t"
  shows "keeps b k s t"
proof -
  from st have more: "arc_core.more t = arc_core.more s" and en: "\<And>j. j < 16 \<Longrightarrow> mpu_entry b t j = mpu_entry b s j"
    by (simp_all add: core_step_def same_entries_def)
  have "mpu_confined b t \<longleftrightarrow> mpu_confined b s"
    using en b unfolding mpu_confined_def more_allowed [OF more] mpu_build_ok_def by force
  then show ?thesis
    using more_wf [OF more, of b] en ss_fields_more [OF more]
    by (simp add: keeps_def ss_inv_def same_tables_def same_entries_def same_stack_def)
qed

lemma mpu_entry_aux_write:
  assumes "\<not> mpu_reg r" "j < 16"
  shows "mpu_entry b (arc_aux_write r v s) j = mpu_entry b s j"
proof -
  have "mpu_reg (2 * of_nat j + c)" if "c \<in> {0x422, 0x423}" for c
    using unat_mpu_reg [OF assms(2) that] assms(2) that by (auto simp: mpu_reg_def word_le_nat_alt)
  then have "2 * of_nat j + AUX_MPU_RDP0 \<noteq> r" "2 * of_nat j + AUX_MPU_RDB0 \<noteq> r"
    using assms(1) by auto
  moreover have "r \<notin> {AUX_MPU_RSTART, AUX_MPU_REND, AUX_MPU_RPER}"
    using assms(1) by (auto simp: mpu_reg_def)
  ultimately show ?thesis
    by (auto simp: mpu_entry_def aux_write_simps)
qed

lemma core_aux_write: "\<not> mpu_reg r \<Longrightarrow> core_step b s t \<Longrightarrow> core_step b s (arc_aux_write r v t)"
  by (simp add: core_step_def same_entries_def mpu_entry_aux_write)

lemma core_kflag: "core_step b s t \<Longrightarrow> core_step b s (arc_kflag v t)"
proof -
  have "mpu_entry b (arc_kflag v t) j = mpu_entry b t j" if "j < 16" for j
    using mpu_reg_not_banked(3) [OF that, of "0x422"] mpu_reg_not_banked(3) [OF that, of "0x423"]
    by (simp add: mpu_entry_def)
  then show "core_step b s t \<Longrightarrow> core_step b s (arc_kflag v t)"
    by (simp add: core_step_def same_entries_def)
qed

lemma core_memory: "core_step b s t \<Longrightarrow> core_step b s (t\<lparr>memory := m\<rparr>)"
  by (simp add: core_step_def same_entries_def)

lemma plain_regs [simp]:
  "\<not> mpu_reg AUX_IRQ_ENABLE" "\<not> mpu_reg AUX_IRQ_SELECT" "\<not> mpu_reg AUX_IRQ_PRIORITY"
  "\<not> mpu_reg AUX_IRQ_TRIGGER" "\<not> mpu_reg AUX_IRQ_HINT" "\<not> mpu_reg AUX_ERRET" "\<not> mpu_reg AUX_ERSTATUS"
  "\<not> mpu_reg AUX_MPU_EN" "\<not> mpu_reg AUX_IRQ_ACT"
  by (simp_all add: mpu_reg_def)

lemma core_int_ops:
  assumes "core_step b s t"
  shows "core_step b s (arc_int_disable i t)" "core_step b s (arc_int_enable i t)"
    "core_step b s (arc_int_pri_set i p t)" "core_step b s (snd (arc_int_pri_get i t))"
    "core_step b s (arc_int_sw_trigger i t)" "core_step b s (snd (arc_int_probe i t))"
    "core_step b s (arc_int_level_config i l t)" "core_step b s (arc_seti key t)"
    "core_step b s (arc_unlock_restore key t)" "core_step b s (snd (arc_clri t))"
    "core_step b s (exc_st b' f fld w t)" "core_step b s (callee_st b' f fld w t)"
    "core_step b s (int_call_frame_st f a1 a2 a3 a4 t)" "core_step b s (irq_act_quit t)"
  using assms
  by (simp_all add: arc_int_disable_def arc_int_enable_def arc_int_pri_set_def arc_int_pri_get_def
      arc_int_sw_trigger_def arc_int_probe_def arc_int_level_config_def arc_seti_def arc_unlock_restore_def
      arc_clri_def exc_st_def callee_st_def int_call_frame_st_def irq_act_quit_def Let_def
      core_aux_write core_kflag core_memory)

lemmas core_intros = core_aux_write core_kflag core_memory core_int_ops core_step_refl

lemma core_step_fields:
  assumes "core_step b s t"
  shows "arc_core.more t = arc_core.more s"
  using assms by (simp add: core_step_def)

section \<open>Changes of the runtime's variables\<close>

text \<open>The entries of the protection unit are part of the core.\<close>

lemma mpu_entry_vars [simp]:
  "mpu_entry b (s\<lparr>g_container_context := x\<rparr>) j = mpu_entry b s j"
  "mpu_entry b (s\<lparr>g_container_stack := y\<rparr>) j = mpu_entry b s j"
  "mpu_entry b (s\<lparr>g_container_stack_ptr := n\<rparr>) j = mpu_entry b s j"
  "mpu_entry b (s\<lparr>g_container_stack_curr_id := n\<rparr>) j = mpu_entry b s j"
  "mpu_entry b (s\<lparr>int_handler_table := z\<rparr>) j = mpu_entry b s j"
  "mpu_entry b (s\<lparr>dst_container_user_sp := v\<rparr>) j = mpu_entry b s j"
  by (simp_all add: mpu_entry_def)

text \<open>
  A step that changes neither the core nor the tables nor the active container keeps the
  confinement; what is left to show is that the variables stay consistent.
\<close>

lemma secure_tables:
  assumes "same_tables s t"
  shows "container_is_secure t c = container_is_secure s c"
proof -
  from assms have eq: "map cx_cfg (g_container_context t) = map cx_cfg (g_container_context s)"
    by (simp add: same_tables_def)
  then have len: "length (g_container_context t) = length (g_container_context s)"
    by (rule map_eq_imp_length_eq)
  show ?thesis
  proof (cases "c < length (g_container_context s)")
    case True
    then have "cx_cfg (g_container_context t ! c) = cx_cfg (g_container_context s ! c)"
      using arg_cong [OF eq, of "\<lambda>xs. xs ! c"] len by simp
    then show ?thesis
      using True len by (simp add: container_is_secure_def arr_get_def)
  next
    case False
    then show ?thesis
      using len by (simp add: container_is_secure_def arr_get_def)
  qed
qed

lemma allowed_tables:
  assumes "same_tables s t"
  shows "allowed_regions t = {r. \<exists>c < g_vmpu_container_count s. r \<in> set (container_regions s c) \<and>
    (c = g_active_container t \<or> c = 0 \<or> is_secure s (g_active_container t) \<and> \<not> is_secure s c)}"
  using assms secure_tables [OF assms]
  by (simp add: allowed_regions_def is_secure_def container_regions_def same_tables_def)

lemma keeps_vars:
  assumes "same_tables s t" "g_active_container t = g_active_container s"
    and "\<And>j. mpu_entry b t j = mpu_entry b s j" "ss_wf b s \<Longrightarrow> ss_wf b t" "same_stack k s t"
  shows "keeps b k s t"
proof -
  have "allowed_regions t = allowed_regions s"
    using allowed_tables [OF assms(1)] assms(2) by (simp add: allowed_regions_def)
  then show ?thesis
    using assms by (simp add: keeps_def ss_inv_def mpu_confined_def same_entries_def)
qed

lemma nth_ids_wf:
  "ids_wf s \<Longrightarrow> c < g_vmpu_container_count s \<Longrightarrow> c < length (g_container_context s)"
  by (simp add: ids_wf_def)

lemma set_context_keeps:
  assumes "set_context c f s = Inr t" "\<And>x. cx_cfg (f x) = cx_cfg x"
  shows "keeps b k s t" "g_active_container t = g_active_container s"
    "g_container_stack_curr_id t = g_container_stack_curr_id s"
    "g_container_stack_ptr t = g_container_stack_ptr s" "g_container_stack t = g_container_stack s"
proof -
  from assms(1) have t: "t = s\<lparr>g_container_context := (g_container_context s)[c := f (g_container_context s ! c)]\<rparr>"
      and c: "c < length (g_container_context s)"
    by (auto simp: set_context_def split: option.splits)
  have "map cx_cfg ((g_container_context s)[c := f (g_container_context s ! c)]) = map cx_cfg (g_container_context s)"
    using c by (simp add: map_update assms(2)) (metis c length_map list_update_id map_update nth_map)
  moreover have "cx_cfg ((g_container_context s)[c := f (g_container_context s ! c)] ! i) = cx_cfg (g_container_context s ! i)"
    if "i < length (g_container_context s)" for i
    using that c by (simp add: nth_list_update assms(2))
  ultimately show "keeps b k s t"
    unfolding t by (intro keeps_vars) (auto simp: same_tables_def same_stack_def wf_defs)
qed (use assms(1) in \<open>auto simp: set_context_def split: option.splits\<close>)

lemma user_sp_keeps: "keeps b k s (s\<lparr>dst_container_user_sp := v\<rparr>)"
  by (rule keeps_vars) (auto simp: same_tables_def same_stack_def wf_defs)

lemma set_int_entry_keeps:
  assumes "ih_id e < g_vmpu_container_count s"
  shows "keeps b k s (set_int_entry intno e s)"
  using assms
  by (intro keeps_vars)
    (auto simp: set_int_entry_def same_tables_def same_stack_def wf_defs dest: set_update_subset_insert [THEN subsetD])

text \<open>Pushing and popping: the lower part of the stack does not change.\<close>

lemma push_keeps:
  assumes push: "container_stack_push src_id src_sp normal_sp status dst_id s = Inr t"
    and ids: "src_id < g_vmpu_container_count s" "dst_id < g_vmpu_container_count s"
    and k: "k \<le> g_container_stack_ptr s"
  shows "keeps b k s t" "g_active_container t = g_active_container s" "g_container_stack_curr_id t = dst_id"
    "g_container_stack_ptr t = g_container_stack_ptr s + 1"
    "g_container_stack t ! g_container_stack_ptr s = \<lparr>cs_src_id = src_id, cs_src_sp = src_sp\<rparr>"
proof -
  let ?s1 = "s\<lparr>g_container_stack := (g_container_stack s)[g_container_stack_ptr s := \<lparr>cs_src_id = src_id, cs_src_sp = src_sp\<rparr>],
      g_container_stack_ptr := g_container_stack_ptr s + 1\<rparr>"
  from push obtain u where u: "set_context src_id
        (\<lambda>c. c\<lparr>cx_cur_sp := src_sp, cx_normal_sp := normal_sp, cx_cpu_status := status\<rparr>) ?s1 = Inr u"
      and t: "t = u\<lparr>g_container_stack_curr_id := dst_id\<rparr>"
      and room: "g_container_stack_ptr s < length (g_container_stack s)" "g_container_stack_ptr s \<noteq> STACK_MAX_DEPTH"
    by (auto simp: container_stack_push_def res_simps split: if_splits option.splits)
  have c1: "keeps b k ?s1 u" for b :: "'b ss_build_scheme"
    by (rule set_context_keeps(1) [OF u]) simp
  note ctx = set_context_keeps [OF u, simplified]
  have "keeps b k s ?s1"
    using ids k room by (intro keeps_vars) (auto simp: same_tables_def same_stack_def wf_defs nth_list_update)
  moreover have "keeps b k u t"
    unfolding t using ids ctx(1) [of b k]
    by (intro keeps_vars) (auto simp: same_tables_def same_stack_def wf_defs keeps_def)
  ultimately show "keeps b k s t"
    using c1 keeps_trans by blast
  show "g_active_container t = g_active_container s" "g_container_stack_curr_id t = dst_id"
      "g_container_stack_ptr t = g_container_stack_ptr s + 1"
      "g_container_stack t ! g_container_stack_ptr s = \<lparr>cs_src_id = src_id, cs_src_sp = src_sp\<rparr>"
    using ctx room by (simp_all add: t)
qed

lemma pop_keeps:
  assumes pop: "container_stack_pop dst_id dst_sp normal_sp status s = Inr t"
    and inv: "ss_inv b s" and k: "k \<le> g_container_stack_ptr t"
  shows "keeps b k s t" "g_active_container t = g_active_container s"
    "g_container_stack_ptr s = g_container_stack_ptr t + 1" "g_container_stack t = g_container_stack s"
    "g_container_stack_curr_id t = cs_src_id (g_container_stack s ! g_container_stack_ptr t)"
    "g_container_stack_curr_id t < g_vmpu_container_count t"
proof -
  let ?s1 = "s\<lparr>g_container_stack_ptr := g_container_stack_ptr s - 1\<rparr>"
  from pop obtain u where u: "set_context dst_id
        (\<lambda>c. c\<lparr>cx_cur_sp := dst_sp, cx_normal_sp := normal_sp, cx_cpu_status := status\<rparr>) ?s1 = Inr u"
      and t: "t = u\<lparr>g_container_stack_curr_id := cs_src_id (g_container_stack u ! g_container_stack_ptr u)\<rparr>"
      and pos: "g_container_stack_ptr s \<noteq> 0"
    by (auto simp: container_stack_pop_def res_simps split: if_splits option.splits)
  have c1: "keeps b k ?s1 u" for b :: "'b ss_build_scheme"
    by (rule set_context_keeps(1) [OF u]) simp
  note ctx = set_context_keeps [OF u, simplified]
  have count: "g_vmpu_container_count u = g_vmpu_container_count s"
    using ctx(1) [of b k] by (simp add: keeps_def same_tables_def)
  have id: "cs_src_id (g_container_stack u ! g_container_stack_ptr u) < g_vmpu_container_count u"
    using inv pos ctx count by (simp add: ss_inv_def wf_defs)
  have "keeps b k s ?s1"
    using pos by (intro keeps_vars) (auto simp: same_tables_def same_stack_def wf_defs)
  moreover have "keeps b k u t"
    unfolding t using id by (intro keeps_vars) (auto simp: same_tables_def same_stack_def wf_defs)
  ultimately show "keeps b k s t"
    using c1 keeps_trans by blast
  show "g_active_container t = g_active_container s" "g_container_stack_ptr s = g_container_stack_ptr t + 1"
      "g_container_stack t = g_container_stack s"
      "g_container_stack_curr_id t = cs_src_id (g_container_stack s ! g_container_stack_ptr t)"
      "g_container_stack_curr_id t < g_vmpu_container_count t"
    using ctx pos id by (simp_all add: t)
qed

section \<open>Switching containers\<close>

lemma entry_allowed:
  assumes "unit_loaded b t (switch_regions s c)" "c < g_vmpu_container_count s"
    and "2 \<le> j" "j < mpu_regions b"
    and "same_tables s t" "g_active_container t = c"
  shows "mpu_entry b t j = empty_entry b \<or> mpu_entry b t j \<in> encode_region b ` allowed_regions t"
proof (cases "j - 2 < length (switch_regions s c)")
  case True
  then have "switch_regions s c ! (j - 2) \<in> set (switch_regions s c)"
    by (rule nth_mem)
  then obtain c' where "switch_regions s c ! (j - 2) \<in> set (container_regions s c')" "c' = c \<or> c' = 0"
    by (auto simp: switch_regions_def split: if_splits)
  then have "switch_regions s c ! (j - 2) \<in> allowed_regions t"
    using assms(2,6) unfolding allowed_tables [OF assms(5)] by (intro CollectI exI [of _ c']) auto
  then show ?thesis
    using True assms(1,3,4) by (auto simp: unit_loaded_def)
next
  case False
  then show ?thesis
    using assms(1,3,4) by (simp add: unit_loaded_def)
qed

lemma vmpu_switch_keeps:
  assumes b: "mpu_build_ok b" and inv: "ss_inv b s" and dst: "dst_id < g_vmpu_container_count s"
  obtains t where "vmpu_switch b src_id dst_id s = Inr t" "keeps b k s t" "g_active_container t = dst_id"
    "g_container_stack_curr_id t = g_container_stack_curr_id s"
    "g_container_stack_ptr t = g_container_stack_ptr s" "g_container_stack t = g_container_stack s"
    "g_container_context t = g_container_context s" "memory t = memory s"
proof (cases "ss_sid b")
  case True
  let ?t = "s\<lparr>g_active_container := dst_id\<rparr>"
  have "vmpu_switch b src_id dst_id s = Inr ?t"
    using True inv by (simp add: vmpu_switch_def vmpu_switch_sid_def ss_inv_def ss_wf_def)
  moreover have "keeps b k s ?t"
    using True dst inv by (simp add: keeps_def ss_inv_def same_tables_def same_entries_def same_stack_def wf_defs)
  ultimately show ?thesis
    using that by simp
next
  case False
  have wf: "mpu_tables_ok s" "dst_id < SECURESHIELD_MAX_CONTAINERS" "g_mpu_region_count s \<noteq> 0"
    using inv dst False by (auto simp: ss_inv_def ss_wf_def ids_wf_def)
  from vmpu_switch_load_spec [OF b wf(1,2,3)] obtain t n where
    t: "vmpu_switch_load b dst_id s = Inr t"
      "arc_core.more t = arc_core.more (s\<lparr>g_active_container := dst_id, g_mpu_slot := n\<rparr>)"
      "memory t = memory s" "2 \<le> n" "unit_loaded b t (switch_regions s dst_id)"
      "\<forall>j < 2. mpu_entry b t j = mpu_entry b s j"
    by blast
  note f = ss_fields_more [OF t(2), simplified]
  have same: "same_tables s t" "same_entries b 2 s t" "same_stack k s t"
    using t(6) by (simp_all add: same_tables_def same_entries_def same_stack_def f)
  have "mpu_confined b t"
    unfolding mpu_confined_def using entry_allowed [OF t(5) dst _ _ same(1) f(2)] by blast
  moreover have "ss_wf b t"
    unfolding more_wf [OF t(2)] using inv dst t(4) by (simp add: ss_inv_def wf_defs)
  ultimately have "keeps b k s t"
    using same by (simp add: keeps_def ss_inv_def)
  then show ?thesis
    using that t(1,3) f False by (simp add: vmpu_switch_def)
qed

section \<open>Faults\<close>

lemma secure_defined:
  assumes "ids_wf s" "c < g_vmpu_container_count s"
  shows "container_is_secure s c = Inr (is_secure s c)"
proof -
  have "\<exists>x. container_is_secure s c = Inr x"
    using assms by (auto simp: ids_wf_def container_is_secure_def arr_get_def)
  then show ?thesis
    by (auto simp: is_secure_def)
qed

lemma find_in_container_spec:
  assumes "mpu_tables_ok s" "i < SECURESHIELD_MAX_CONTAINERS"
  shows "\<exists>r. find_in_container s a i = Inr r \<and>
    (case r of None \<Rightarrow> \<forall>x \<in> set (container_regions s i). \<not> region_has_addr a x
     | Some j \<Rightarrow> j < length (g_mpu_list s) \<and> g_mpu_list s ! j \<in> set (container_regions s i)
         \<and> region_has_addr a (g_mpu_list s ! j))"
proof -
  have "block_ok (mc_region (g_mpu_container s ! i)) (mc_count (g_mpu_container s ! i)) (g_mpu_region_count s)"
      "g_mpu_region_count s \<le> length (g_mpu_list s)" "i < length (g_mpu_container s)"
    using assms by (simp_all add: mpu_tables_ok_def)
  then show ?thesis
    using block_scan_items [of "mc_region (g_mpu_container s ! i)" "mc_count (g_mpu_container s ! i)"
        "g_mpu_region_count s" "g_mpu_list s" "region_has_addr a"]
    unfolding container_regions_def
    by (simp add: find_in_container_def vmpu_fault_find_container_region_def arr_get_def)
qed

lemma find_in_normal_spec:
  assumes "mpu_tables_ok s" "ids_wf s" "\<forall>i \<in> set is. i < g_vmpu_container_count s"
  shows "\<exists>r. find_in_normal s a is = Inr r \<and>
    (case r of None \<Rightarrow> True
     | Some j \<Rightarrow> j < length (g_mpu_list s) \<and> region_has_addr a (g_mpu_list s ! j) \<and>
         (\<exists>i \<in> set is. \<not> is_secure s i \<and> g_mpu_list s ! j \<in> set (container_regions s i)))"
  using assms(3)
proof (induction "is")
  case Nil
  then show ?case by simp
next
  case (Cons i "is")
  then have i: "i < g_vmpu_container_count s" "i < SECURESHIELD_MAX_CONTAINERS"
    using assms(2) by (auto simp: ids_wf_def)
  obtain r where r: "find_in_container s a i = Inr r"
    "case r of None \<Rightarrow> \<forall>x \<in> set (container_regions s i). \<not> region_has_addr a x
     | Some j \<Rightarrow> j < length (g_mpu_list s) \<and> g_mpu_list s ! j \<in> set (container_regions s i)
         \<and> region_has_addr a (g_mpu_list s ! j)"
    using find_in_container_spec [OF assms(1) i(2)] by blast
  obtain q where q: "find_in_normal s a is = Inr q" "case q of None \<Rightarrow> True
     | Some j \<Rightarrow> j < length (g_mpu_list s) \<and> region_has_addr a (g_mpu_list s ! j) \<and>
         (\<exists>i \<in> set is. \<not> is_secure s i \<and> g_mpu_list s ! j \<in> set (container_regions s i))"
    using Cons by auto
  show ?case
  proof (cases "is_secure s i")
    case True
    then show ?thesis
      using secure_defined [OF assms(2) i(1)] q by (cases q) auto
  next
    case False
    then show ?thesis
      using secure_defined [OF assms(2) i(1)] q r by (cases r; cases q) auto
  qed
qed

lemma find_region_spec:
  assumes wf: "ss_wf b s"
  shows "\<exists>r. vmpu_fault_find_region s a = Inr r \<and>
    (case r of None \<Rightarrow> True
     | Some j \<Rightarrow> j < length (g_mpu_list s) \<and> region_has_addr a (g_mpu_list s ! j) \<and> g_mpu_list s ! j \<in> allowed_regions s)"
proof -
  let ?c = "g_active_container s"
  have ok: "mpu_tables_ok s" "ids_wf s" and c: "?c < g_vmpu_container_count s" "?c < SECURESHIELD_MAX_CONTAINERS"
    using wf by (auto simp: ss_wf_def ids_wf_def)
  have allowed: "x \<in> set (container_regions s i) \<Longrightarrow> i < g_vmpu_container_count s \<Longrightarrow>
      i = ?c \<or> i = 0 \<or> is_secure s ?c \<and> \<not> is_secure s i \<Longrightarrow> x \<in> allowed_regions s" for x i
    by (auto simp: allowed_regions_def)
  obtain r0 where r0: "(if ?c \<noteq> 0 then find_in_container s a ?c else Inr None) = Inr r0"
    "case r0 of None \<Rightarrow> True | Some j \<Rightarrow> j < length (g_mpu_list s) \<and> g_mpu_list s ! j \<in> set (container_regions s ?c)
         \<and> region_has_addr a (g_mpu_list s ! j)"
    using find_in_container_spec [OF ok(1) c(2), of a] by (cases "?c = 0") (auto split: option.splits)
  show ?thesis
  proof (cases r0)
    case (Some j)
    then show ?thesis
      using r0 allowed [of _ ?c] c(1) by (simp add: vmpu_fault_find_region_def)
  next
    case None
    obtain q where q: "find_in_normal s a [0..<g_vmpu_container_count s] = Inr q" "case q of None \<Rightarrow> True
       | Some j \<Rightarrow> j < length (g_mpu_list s) \<and> region_has_addr a (g_mpu_list s ! j) \<and>
           (\<exists>i \<in> set [0..<g_vmpu_container_count s]. \<not> is_secure s i \<and> g_mpu_list s ! j \<in> set (container_regions s i))"
      using find_in_normal_spec [OF ok, of "[0..<g_vmpu_container_count s]" a] by auto
    obtain p where p: "find_in_container s a 0 = Inr p" "case p of None \<Rightarrow> True
       | Some j \<Rightarrow> j < length (g_mpu_list s) \<and> g_mpu_list s ! j \<in> set (container_regions s 0)
           \<and> region_has_addr a (g_mpu_list s ! j)"
      using find_in_container_spec [OF ok(1), of 0 a] by (auto split: option.splits)
    show ?thesis
    proof (cases "is_secure s ?c")
      case True
      then show ?thesis
        using None r0 q secure_defined [OF ok(2) c(1)] allowed
        by (cases q) (auto simp: vmpu_fault_find_region_def)
    next
      case False
      then show ?thesis
        using None r0 p secure_defined [OF ok(2) c(1)] allowed [of _ 0] c(1)
        by (cases p) (auto simp: vmpu_fault_find_region_def)
    qed
  qed
qed

lemma region_config_keeps:
  assumes b: "mpu_build_ok b" and r: "r \<in> allowed_regions s" and slot: "2 \<le> i"
  shows "keeps b k s (arc_mpu_region_config b i (rg_base r) (rg_size r) (rg_attr r) s)"
    (is "keeps b k s ?t")
proof (cases "i < mpu_regions b")
  case True
  have more: "arc_core.more ?t = arc_core.more s"
    by simp
  have en: "mpu_entry b ?t j = (if j = i then encode_region b r else mpu_entry b s j)" if "j < 16" for j
    unfolding encode_region_def by (rule mpu_entry_config [OF b True that])
  have "mpu_confined b ?t" if "mpu_confined b s"
    using that r en b unfolding mpu_confined_def more_allowed [OF more] mpu_build_ok_def by auto
  moreover have "ss_wf b ?t = ss_wf b s"
    by (rule more_wf [OF more])
  ultimately show ?thesis
    using en slot by (simp add: keeps_def ss_inv_def same_tables_def same_entries_def same_stack_def)
next
  case False
  then show ?thesis
    by (simp add: arc_mpu_region_config_out_of_range)
qed

lemma mpu_slot_keeps: "2 \<le> n \<Longrightarrow> keeps b k s (s\<lparr>g_mpu_slot := n\<rparr>)"
  by (rule keeps_vars) (auto simp: same_tables_def same_stack_def wf_defs)

lemma fault_recovery_keeps:
  assumes b: "mpu_build_ok b" and inv: "ss_inv b s"
  obtains ret t where "vmpu_fault_recovery_mpu b a s = Inr (ret, t)" "keeps b k s t"
    "g_active_container t = g_active_container s" "g_container_stack_curr_id t = g_container_stack_curr_id s"
    "g_container_stack_ptr t = g_container_stack_ptr s"
proof -
  have wf: "ss_wf b s" and slot: "2 \<le> g_mpu_slot s"
    using inv by (simp_all add: ss_inv_def ss_wf_def)
  obtain r where r: "vmpu_fault_find_region s a = Inr r"
    "case r of None \<Rightarrow> True | Some j \<Rightarrow> j < length (g_mpu_list s) \<and> region_has_addr a (g_mpu_list s ! j)
       \<and> g_mpu_list s ! j \<in> allowed_regions s"
    using find_region_spec [OF wf] by blast
  show ?thesis
  proof (cases r)
    case None
    then show ?thesis
      using that r by (simp add: vmpu_fault_recovery_mpu_def)
  next
    case (Some j)
    let ?r = "g_mpu_list s ! j"
    let ?t = "arc_mpu_region_config b (g_mpu_slot s) (rg_base ?r) (rg_size ?r) (rg_attr ?r) s"
    let ?n = "if mpu_regions b \<le> g_mpu_slot s + 1 then 2 + (if secureshield_version b = 1 then 2 else 3)
      else g_mpu_slot s + 1"
    have "keeps b k s ?t"
      using region_config_keeps [OF b _ slot] r Some by simp
    moreover have "keeps b k ?t (?t\<lparr>g_mpu_slot := ?n\<rparr>)"
      using slot by (intro mpu_slot_keeps) simp
    ultimately have "keeps b k s (?t\<lparr>g_mpu_slot := ?n\<rparr>)"
      by (rule keeps_trans)
    moreover have "vmpu_fault_recovery_mpu b a s = Inr (0, ?t\<lparr>g_mpu_slot := ?n\<rparr>)"
      using r Some by (simp add: vmpu_fault_recovery_mpu_def Let_def arr_get_def)
    ultimately show ?thesis
      using that by simp
  qed
qed

end
