(* ===== verification/Ss_Run.thy ===== *)
theory Ss_Run
  imports Ss_Inv
begin

text \<open>
  The running system: the entry points of the runtime, in the order in which exceptions,
  interrupts and container calls arrive, interleaved with the code of the containers.
  \<open>ss_run\<close> is its step relation. The lemmas show for every entry point that it never performs
  an access that C does not define, and that it keeps the invariants of \<open>Ss_Inv\<close>.
\<close>

section \<open>Results without undefined accesses\<close>

definition safe :: "('x \<Rightarrow> bool) \<Rightarrow> ss_stop + 'x \<Rightarrow> bool" where
  "safe P res \<longleftrightarrow> (case res of Inl e \<Rightarrow> e \<noteq> Undefined | Inr x \<Rightarrow> P x)"

lemma safe_simps [simp]:
  "safe P (Inr x) \<longleftrightarrow> P x" "safe P (Inl e) \<longleftrightarrow> e \<noteq> Undefined"
  by (simp_all add: safe_def)

lemma safe_bind: "safe Q m \<Longrightarrow> (\<And>x. m = Inr x \<Longrightarrow> Q x \<Longrightarrow> safe P (f x)) \<Longrightarrow> safe P (res_bind m f)"
  by (cases m) simp_all

lemma safe_mono: "safe Q m \<Longrightarrow> (\<And>x. m = Inr x \<Longrightarrow> Q x \<Longrightarrow> P x) \<Longrightarrow> safe P m"
  by (cases m) simp_all

lemma safe_get: "i < length xs \<Longrightarrow> safe (\<lambda>x. x = xs ! i) (get_or_undef (arr_get xs i))"
  by (simp add: arr_get_def)

lemma safe_Inr: "safe P m \<Longrightarrow> m = Inr x \<Longrightarrow> P x"
  by simp

section \<open>What a step of the runtime keeps\<close>

definition ids_agree :: "ss_state \<Rightarrow> bool" where
  "ids_agree s \<longleftrightarrow> g_active_container s = g_container_stack_curr_id s"

definition step_ok :: "'b ss_build_scheme \<Rightarrow> nat \<Rightarrow> ss_state \<Rightarrow> ss_state \<Rightarrow> bool" where
  "step_ok b k s t \<longleftrightarrow>
     (k \<le> g_container_stack_ptr s \<longrightarrow> k \<le> g_container_stack_ptr t \<longrightarrow>
        keeps b k s t \<and> (ids_agree s \<longrightarrow> ids_agree t))"

lemma core_step_ok:
  assumes "mpu_build_ok b" "core_step b s t"
  shows "step_ok b k s t"
  using core_step_keeps [OF assms] ss_fields_more [OF core_step_fields [OF assms(2)]]
  by (simp add: step_ok_def ids_agree_def)

lemma step_ok_core:
  assumes "mpu_build_ok b" "core_step b s t" "step_ok b k t u"
  shows "step_ok b k s u"
  using assms(3) keeps_trans [OF core_step_keeps [OF assms(1,2)]] ss_fields_more [OF core_step_fields [OF assms(2)]]
  by (simp add: step_ok_def ids_agree_def)

lemma step_ok_core_after:
  assumes "mpu_build_ok b" "step_ok b k s t" "core_step b t u"
  shows "step_ok b k s u"
  using assms(2) keeps_trans [OF _ core_step_keeps [OF assms(1,3)]] ss_fields_more [OF core_step_fields [OF assms(3)]]
  by (simp add: step_ok_def ids_agree_def)

lemma keeps_step_ok:
  assumes "\<And>k. keeps b k s t" "g_active_container t = g_active_container s"
    "g_container_stack_curr_id t = g_container_stack_curr_id s"
  shows "step_ok b k s t"
  using assms by (simp add: step_ok_def ids_agree_def)

lemma keeps_count: "keeps b k s t \<Longrightarrow> g_vmpu_container_count t = g_vmpu_container_count s"
  by (simp add: keeps_def same_tables_def)

section \<open>System services\<close>

lemma aux_block_safe:
  assumes "aux_wf s" "c < SECURESHIELD_MAX_CONTAINERS"
  shows "safe (\<lambda>r. r \<noteq> None \<longrightarrow> (\<exists>g \<in> set (g_aux_list s). aux_grants addr g))
    (block_scan (aux_grants addr) (g_aux_list s) (ax_aux (g_aux_container s ! c)) (ax_count (g_aux_container s ! c)))"
proof -
  have "block_ok (ax_aux (g_aux_container s ! c)) (ax_count (g_aux_container s ! c)) CONTAINER_AUX_COUNT"
      "length (g_aux_list s) = CONTAINER_AUX_COUNT"
    using assms by (simp_all add: aux_wf_def)
  then show ?thesis
    using block_scan_items [of "ax_aux (g_aux_container s ! c)" "ax_count (g_aux_container s ! c)"
        CONTAINER_AUX_COUNT "g_aux_list s" "aux_grants addr"]
    by (auto split: option.splits intro!: bexI [OF _ nth_mem])
qed

lemma aux_check_safe:
  assumes "aux_wf s"
  shows "safe (\<lambda>ok. ok \<longrightarrow> \<not> mpu_reg addr) (secureshield_aux_check s c addr)"
proof (cases "c < SECURESHIELD_MAX_CONTAINERS")
  case True
  have no: "\<exists>g \<in> set (g_aux_list s). aux_grants addr g \<Longrightarrow> \<not> mpu_reg addr"
    using assms by (auto simp: aux_wf_def)
  have len: "length (g_aux_container s) = SECURESHIELD_MAX_CONTAINERS"
    using assms by (simp add: aux_wf_def)
  show ?thesis
    using True aux_block_safe [OF assms True, of addr] aux_block_safe [OF assms, of 0 addr] no len
    by (auto simp: secureshield_aux_check_def arr_get_def intro!: safe_bind split: if_splits elim!: safe_mono)
next
  case False
  then show ?thesis
    by (simp add: secureshield_aux_check_def)
qed

lemma sr_reg_safe:
  assumes "aux_wf s"
  shows "safe (core_step b s) (secure_arc_sr_reg addr v s)"
  unfolding secure_arc_sr_reg_def
  by (rule safe_bind [OF aux_check_safe [OF assms]]) (auto intro: core_intros)

lemma lr_reg_safe:
  assumes "aux_wf s"
  shows "safe (\<lambda>_. True) (secure_arc_lr_reg addr s)"
  unfolding secure_arc_lr_reg_def by (rule safe_bind [OF aux_check_safe [OF assms]]) simp

lemma caller_safe:
  assumes "stack_wf s"
  shows "safe (\<lambda>_. True) (secure_container_id_caller s)"
  using assms by (auto simp: secure_container_id_caller_def stack_wf_def arr_get_def)

lemma sys_ops_v1_safe:
  assumes "ss_wf b s"
  shows "safe (core_step b s) (secureshield_sys_ops_v1 b frame s)"
proof -
  have wf: "aux_wf s" "stack_wf s"
    using assms by (simp_all add: ss_wf_def)
  show ?thesis
    unfolding secureshield_sys_ops_v1_def Let_def
    by (auto intro!: safe_bind [OF lr_reg_safe [OF wf(1)]] safe_bind [OF caller_safe [OF wf(2)]]
        sr_reg_safe [OF wf(1)] core_intros)
qed

lemma sys_ops_v2_safe:
  assumes "ss_wf b s"
  shows "safe (\<lambda>(_, t). core_step b s t) (secureshield_sys_ops_v2 i p1 p2 p3 p4 s)"
proof -
  have wf: "aux_wf s" "stack_wf s"
    using assms by (simp_all add: ss_wf_def)
  show ?thesis
    unfolding secureshield_sys_ops_v2_def
    by (auto intro!: safe_bind [OF lr_reg_safe [OF wf(1)]] safe_bind [OF caller_safe [OF wf(2)]]
        safe_bind [OF sr_reg_safe [OF wf(1)]])
qed

section \<open>Interrupt services\<close>

lemma default_check_bound:
  assumes "handlers_wf b s" "secure_int_default_check b intno"
  shows "unat intno - NUM_EXC_CPU < length (int_handler_table s)"
  using assms by (auto simp: handlers_wf_def secure_int_default_check_def)

lemma int_entry_safe:
  assumes "handlers_wf b s" "secure_int_default_check b intno"
  shows "safe (\<lambda>e. e = int_handler_table s ! (unat intno - NUM_EXC_CPU) \<and> ih_id e < g_vmpu_container_count s)
    (int_entry s intno)"
  using default_check_bound [OF assms] assms(1) by (simp add: int_entry_def arr_get_def handlers_wf_def)

lemma ac_check_safe:
  assumes "handlers_wf b s" "ids_wf s"
  shows "safe (\<lambda>ok. ok \<longrightarrow> secure_int_default_check b intno) (secure_int_ac_check b s intno)"
proof (cases "secure_int_default_check b intno")
  case True
  have "g_active_container s < g_vmpu_container_count s"
    using assms(2) by (simp add: ids_wf_def)
  then show ?thesis
    using True secure_defined [OF assms(2)]
    by (simp add: secure_int_ac_check_def) (rule safe_bind [OF int_entry_safe [OF assms(1) True]], simp)
next
  case False
  then show ?thesis
    by (simp add: secure_int_ac_check_def)
qed

lemma if_allowed_safe:
  assumes "ss_wf b s" "secure_int_default_check b intno \<Longrightarrow> safe (\<lambda>(_, t). P t) (act s)" "P s"
  shows "safe (\<lambda>(_, t). P t) (if_int_allowed b intno failed act s)"
proof -
  have wf: "handlers_wf b s" "ids_wf s"
    using assms(1) by (simp_all add: ss_wf_def)
  show ?thesis
    unfolding if_int_allowed_def by (rule safe_bind [OF ac_check_safe [OF wf]]) (use assms(2,3) in auto)
qed

text \<open>Services that change an entry of the handler table keep its owner in range.\<close>

lemma set_entry_step_ok:
  assumes b: "mpu_build_ok b" and st: "core_step b s t" and e: "ih_id e < g_vmpu_container_count s"
  shows "step_ok b k s (set_int_entry intno e t)"
proof -
  have count: "g_vmpu_container_count t = g_vmpu_container_count s"
    using ss_fields_more [OF core_step_fields [OF st]] by simp
  have "keeps b k s (set_int_entry intno e t)" for k
    by (rule keeps_trans [OF core_step_keeps [OF b st] set_int_entry_keeps]) (simp add: e count)
  then show ?thesis
    using ss_fields_more [OF core_step_fields [OF st]] by (intro keeps_step_ok) (simp_all add: set_int_entry_def)
qed

lemma entry_update_safe:
  assumes b: "mpu_build_ok b" and st: "core_step b s t" and wf: "handlers_wf b s"
    and chk: "secure_int_default_check b intno" and f: "\<And>e. ih_id (f e) = ih_id e"
  shows "safe (\<lambda>(_, t). step_ok b k s t) (res_bind (int_entry t intno) (\<lambda>e. Inr (0 :: int, set_int_entry intno (f e) t)))"
proof -
  have "int_handler_table t = int_handler_table s"
    using ss_fields_more [OF core_step_fields [OF st]] by simp
  then have "int_entry t intno = int_entry s intno"
    by (simp add: int_entry_def)
  then show ?thesis
    using set_entry_step_ok [OF b st] f by (auto intro!: safe_bind [OF int_entry_safe [OF wf chk]])
qed

lemma lock_loop_core:
  "core_step b s t \<Longrightarrow> core_step b s (cpu_lock_loop i es t)"
  "core_step b s t \<Longrightarrow> core_step b s (cpu_unlock_loop i es t)"
  by (induction es arbitrary: i t) (auto simp: core_intros)

lemma handler_install_safe:
  assumes b: "mpu_build_ok b" and wf: "ss_wf b s"
  shows "safe (\<lambda>(_, t). step_ok b k s t) (secure_int_handler_install b intno h s)"
proof (cases "secure_int_default_check b intno")
  case True
  have "handlers_wf b s" and act: "g_active_container s < g_vmpu_container_count s"
    using wf by (simp_all add: ss_wf_def ids_wf_def)
  moreover have "step_ok b k s s"
    by (rule core_step_ok [OF b]) simp
  ultimately show ?thesis
    using True set_entry_step_ok [OF b core_step_refl]
    by (auto simp: secure_int_handler_install_def intro!: safe_bind [OF int_entry_safe])
next
  case False
  then show ?thesis
    using core_step_ok [OF b core_step_refl] by (simp add: secure_int_handler_install_def)
qed

lemma int_ops_safe:
  assumes b: "mpu_build_ok b" and wf: "ss_wf b s"
  shows "safe (\<lambda>(_, t). step_ok b k s t) (int_ops b r ops par1 par2 s)"
proof -
  have h: "handlers_wf b s"
    using wf by (simp add: ss_wf_def)
  have refl: "step_ok b k s s"
    by (rule core_step_ok [OF b]) simp
  have core: "safe (\<lambda>(_, t). step_ok b k s t) (if_int_allowed b par1 failed act s)"
    if "secure_int_default_check b par1 \<Longrightarrow> safe (\<lambda>(_, t). core_step b s t) (act s)" for failed act
    by (rule if_allowed_safe [where P = "step_ok b k s"])
      (use wf refl that core_step_ok [OF b] in \<open>auto elim!: safe_mono\<close>)
  have upd: "safe (\<lambda>(_, t). step_ok b k s t) (if_int_allowed b par1 failed act s)"
    if "secure_int_default_check b par1 \<Longrightarrow> safe (\<lambda>(_, t). step_ok b k s t) (act s)" for failed act
    by (rule if_allowed_safe [where P = "step_ok b k s"]) (use wf refl that in auto)
  have "safe (\<lambda>(_, t). step_ok b k s t) (secure_int_handler_get b par1 s)"
    unfolding secure_int_handler_get_def by (rule core) (auto intro!: safe_bind [OF int_entry_safe [OF h]])
  moreover have "safe (\<lambda>(_, t). step_ok b k s t) (secure_int_enable b par1 s)"
      "safe (\<lambda>(_, t). step_ok b k s t) (secure_int_disable b par1 s)"
    unfolding secure_int_enable_def secure_int_disable_def Let_def
    by (rule upd, rule entry_update_safe [OF b _ h]; auto intro: core_intros)+
  moreover have "safe (\<lambda>(_, t). step_ok b k s t) (secure_int_enabled b par1 s)"
      "safe (\<lambda>(_, t). step_ok b k s t) (secure_int_pri_set b par1 p s)"
      "safe (\<lambda>(_, t). step_ok b k s t) (secure_int_pri_get b par1 s)"
      "safe (\<lambda>(_, t). step_ok b k s t) (secure_int_probe b par1 s)"
      "safe (\<lambda>(_, t). step_ok b k s t) (secure_int_level_config b par1 par2 s)"
      "safe (\<lambda>(_, t). step_ok b k s t) (secure_int_sw_trigger b par1 s)" for p
    unfolding secure_int_enabled_def secure_int_pri_set_def secure_int_pri_get_def secure_int_probe_def
      secure_int_level_config_def secure_int_sw_trigger_def
    by (auto intro!: core simp: Let_def core_intros case_prod_beta)
  moreover have "step_ok b k s (secure_cpu_lock s)" "step_ok b k s (secure_cpu_unlock s)"
    unfolding secure_cpu_lock_def secure_cpu_unlock_def
    by (auto intro!: core_step_ok [OF b] lock_loop_core)
  ultimately show ?thesis
    using handler_install_safe [OF b wf] refl by (simp add: int_ops_def)
qed

lemma int_ops_v1_safe:
  assumes b: "mpu_build_ok b" and wf: "ss_wf b s"
  shows "safe (step_ok b k s) (secureshield_int_ops_v1 b frame s)"
  unfolding secureshield_int_ops_v1_def
proof (rule safe_bind [OF int_ops_safe [OF b wf]])
  fix x :: "int \<times> ss_state" assume "case x of (_, t) \<Rightarrow> step_ok b k s t"
  then show "safe (step_ok b k s) (case x of (r, s) \<Rightarrow> Inr (exc_st b frame R0 (of_int r) s))"
    by (cases x) (auto intro: step_ok_core_after [OF b] simp: core_intros)
qed

section \<open>Entering and leaving containers\<close>

text \<open>A step that pushes \<open>item\<close>, and one that pops it.\<close>

definition entered :: "'b ss_build_scheme \<Rightarrow> CONTAINER_STACK_ITEM \<Rightarrow> ss_state \<Rightarrow> ss_state \<Rightarrow> bool" where
  "entered b item s t \<longleftrightarrow>
     (\<forall>k \<le> g_container_stack_ptr s. keeps b k s t) \<and>
     g_container_stack_ptr t = g_container_stack_ptr s + 1 \<and>
     g_container_stack t ! g_container_stack_ptr s = item \<and> (ids_agree s \<longrightarrow> ids_agree t)"

definition returned :: "'b ss_build_scheme \<Rightarrow> CONTAINER_STACK_ITEM \<Rightarrow> ss_state \<Rightarrow> ss_state \<Rightarrow> bool" where
  "returned b item s t \<longleftrightarrow>
     (\<forall>k \<le> g_container_stack_ptr t. keeps b k s t) \<and>
     g_container_stack_ptr s = g_container_stack_ptr t + 1 \<and>
     item = g_container_stack s ! g_container_stack_ptr t \<and>
     g_container_stack_curr_id t = cs_src_id item \<and> (ids_agree s \<longrightarrow> ids_agree t)"

lemma entered_step_ok: "entered b item s t \<Longrightarrow> step_ok b k s t"
  by (simp add: entered_def step_ok_def)

lemma returned_step_ok: "returned b item s t \<Longrightarrow> step_ok b k s t"
  by (simp add: returned_def step_ok_def)

lemma keeps_core:
  "mpu_build_ok b \<Longrightarrow> keeps b k s t \<Longrightarrow> core_step b t u \<Longrightarrow> keeps b k s u"
  by (rule keeps_trans [OF _ core_step_keeps])

lemma inv_ids:
  assumes "ss_inv b s"
  shows "g_container_stack_curr_id s < g_vmpu_container_count s" "g_active_container s < g_vmpu_container_count s"
    "ids_wf s" "ss_wf b s"
    "c < g_vmpu_container_count s \<Longrightarrow> c < length (g_container_context s)"
  using assms by (simp_all add: ss_inv_def ss_wf_def ids_wf_def)

lemma safe_switch:
  assumes b: "mpu_build_ok b" and inv: "ss_inv b s" and dst: "dst_id < g_vmpu_container_count s"
  shows "safe (\<lambda>t. (\<forall>k. keeps b k s t) \<and> g_active_container t = dst_id \<and>
      g_container_stack_curr_id t = g_container_stack_curr_id s \<and>
      g_container_stack_ptr t = g_container_stack_ptr s \<and> g_container_stack t = g_container_stack s \<and>
      g_container_context t = g_container_context s \<and> memory t = memory s)
    (vmpu_switch b src_id dst_id s)"
proof -
  have "keeps b k s t \<and> g_active_container t = dst_id \<and>
      g_container_stack_curr_id t = g_container_stack_curr_id s \<and>
      g_container_stack_ptr t = g_container_stack_ptr s \<and> g_container_stack t = g_container_stack s \<and>
      g_container_context t = g_container_context s \<and> memory t = memory s"
    if "vmpu_switch b src_id dst_id s = Inr t" for t k
    by (rule vmpu_switch_keeps [OF b inv dst, of src_id k]) (use that in auto)
  moreover obtain t where "vmpu_switch b src_id dst_id s = Inr t"
    by (rule vmpu_switch_keeps [OF b inv dst])
  ultimately show ?thesis
    by simp
qed

lemma safe_push:
  assumes inv: "ss_inv b s" and ids: "src_id < g_vmpu_container_count s" "dst_id < g_vmpu_container_count s"
  shows "safe (\<lambda>t. (\<forall>k \<le> g_container_stack_ptr s. keeps b k s t) \<and> g_active_container t = g_active_container s \<and>
      g_container_stack_curr_id t = dst_id \<and> g_container_stack_ptr t = g_container_stack_ptr s + 1 \<and>
      g_container_stack t ! g_container_stack_ptr s = \<lparr>cs_src_id = src_id, cs_src_sp = src_sp\<rparr> \<and>
      memory t = memory s \<and> (\<forall>c. c \<noteq> src_id \<longrightarrow> g_container_context t ! c = g_container_context s ! c))
    (container_stack_push src_id src_sp normal_sp status dst_id s)"
proof -
  have "src_id < length (g_container_context s)" "g_container_stack_ptr s \<le> STACK_MAX_DEPTH"
      "length (g_container_stack s) = STACK_MAX_DEPTH"
    using inv ids by (simp_all add: ss_inv_def wf_defs)
  then have "safe (\<lambda>t. memory t = memory s \<and> (\<forall>c. c \<noteq> src_id \<longrightarrow> g_container_context t ! c = g_container_context s ! c))
      (container_stack_push src_id src_sp normal_sp status dst_id s)"
    by (auto simp: container_stack_push_def set_context_def arr_get_def arr_set_def)
  then show ?thesis
    using push_keeps(1) [OF _ ids] push_keeps(2-5) [OF _ ids le0] by (auto elim!: safe_mono)
qed

lemma safe_pop:
  assumes inv: "ss_inv b s" and dst: "dst_id < g_vmpu_container_count s"
  shows "safe (\<lambda>t. (\<forall>k \<le> g_container_stack_ptr t. keeps b k s t) \<and> g_active_container t = g_active_container s \<and>
      g_container_stack_ptr s = g_container_stack_ptr t + 1 \<and> g_container_stack t = g_container_stack s \<and>
      g_container_stack_curr_id t = cs_src_id (g_container_stack s ! g_container_stack_ptr t) \<and>
      g_container_stack_curr_id t < g_vmpu_container_count t \<and>
      stack_item t = Inr (g_container_stack s ! g_container_stack_ptr t))
    (container_stack_pop dst_id dst_sp normal_sp status s)"
proof -
  have len: "dst_id < length (g_container_context s)" "g_container_stack_ptr s \<le> STACK_MAX_DEPTH"
      "length (g_container_stack s) = STACK_MAX_DEPTH"
    using inv dst by (simp_all add: ss_inv_def wf_defs)
  then have "safe (\<lambda>_. True) (container_stack_pop dst_id dst_sp normal_sp status s)"
    by (auto simp: container_stack_pop_def set_context_def arr_get_def)
  then show ?thesis
    using pop_keeps(1) [OF _ inv] pop_keeps(2-6) [OF _ inv le0] len by (auto simp: stack_item_def arr_get_def elim!: safe_mono)
qed

lemma safe_context:
  "c < length (g_container_context s) \<Longrightarrow> safe (\<lambda>x. x = g_container_context s ! c) (context_of s c)"
  by (simp add: context_of_def arr_get_def)

lemma context_defined: "ss_inv b s \<Longrightarrow> c < g_vmpu_container_count s \<Longrightarrow> context_of s c = Inr (g_container_context s ! c)"
  by (simp add: context_of_def arr_get_def inv_ids(5))

lemma safe_secure:
  "ss_inv b s \<Longrightarrow> c < g_vmpu_container_count s \<Longrightarrow> safe (\<lambda>x. x = is_secure s c) (container_is_secure s c)"
  by (simp add: secure_defined [OF inv_ids(3)])

lemma int_accept_safe:
  assumes wf: "ss_wf b s"
  shows "safe (\<lambda>(served, t). core_step b s t \<and>
      (\<forall>e. served = Some e \<longrightarrow> ih_id e < g_vmpu_container_count s \<and> ih_handler e \<noteq> 0))
    (int_accept b s)"
proof -
  let ?cause = "arc_aux_read s AUX_IRQ_CAUSE"
  let ?s = "if ?cause = arc_aux_read s AUX_IRQ_HINT then arc_aux_write AUX_IRQ_HINT 0 s else s"
  have st: "core_step b s ?s"
    by (simp add: core_intros)
  have h: "handlers_wf b s"
    using wf by (simp add: ss_wf_def)
  have "int_entry ?s ?cause = int_entry s ?cause"
    by (simp add: int_entry_def)
  then show ?thesis
    using st unfolding int_accept_def Let_def
    by (auto simp: core_intros intro!: safe_bind [OF int_entry_safe [OF h]])
qed

section \<open>Interrupts\<close>

lemma user_sp_fields [simp]:
  "ids_agree (s\<lparr>dst_container_user_sp := v\<rparr>) = ids_agree s" "ids_agree (arc_aux_write r w s) = ids_agree s"
  by (simp_all add: ids_agree_def)

lemma entered_core:
  assumes "mpu_build_ok b" "entered b item s t" "core_step b t u"
  shows "entered b item s u"
  using assms keeps_core [OF assms(1) _ assms(3)] ss_fields_more [OF core_step_fields [OF assms(3)]]
  by (simp add: entered_def ids_agree_def)

lemma entered_user_sp: "entered b item s t \<Longrightarrow> entered b item s (t\<lparr>dst_container_user_sp := v\<rparr>)"
  by (auto simp: entered_def intro: keeps_trans [OF _ user_sp_keeps])

lemma core_entered:
  assumes "mpu_build_ok b" "core_step b s t" "entered b item t u"
  shows "entered b item s u"
  using assms keeps_trans [OF core_step_keeps [OF assms(1,2)]] ss_fields_more [OF core_step_fields [OF assms(2)]]
  by (simp add: entered_def ids_agree_def)

text \<open>A switch and a push, in either order, enter a container.\<close>

lemma switch_push_entered:
  assumes "\<forall>k. keeps b k s t" "g_active_container t = dst_id" "g_container_stack_ptr t = g_container_stack_ptr s"
    and "\<forall>k \<le> g_container_stack_ptr t. keeps b k t u" "g_active_container u = g_active_container t"
      "g_container_stack_curr_id u = dst_id" "g_container_stack_ptr u = g_container_stack_ptr t + 1"
      "g_container_stack u ! g_container_stack_ptr t = item"
  shows "entered b item s u"
  using assms keeps_trans [of b _ s t u] by (simp add: entered_def ids_agree_def)

lemma int_switch_v1_safe:
  assumes b: "mpu_build_ok b" and inv: "ss_inv b s"
    and ids: "src_id < g_vmpu_container_count s" "dst_id < g_vmpu_container_count s"
  shows "safe (\<lambda>(_, t). entered b \<lparr>cs_src_id = src_id, cs_src_sp = processor_of_exc b f\<rparr> s t)
    (int_switch_v1 b src_id dst_id h f s)"
  unfolding int_switch_v1_def
proof (rule safe_bind [OF safe_switch [OF b inv ids(2)]], elim conjE, goal_cases)
  case (1 t)
  then have inv': "ss_inv b t" and count: "g_vmpu_container_count t = g_vmpu_container_count s"
    using inv keeps_inv keeps_count by blast+
  note ids' = ids [folded count] and t = 1
  show ?case
  proof (rule safe_bind [OF safe_push [OF inv' ids']], elim conjE, goal_cases)
    case (1 u)
    then have k0: "keeps b 0 t u"
      by simp
    have u: "ss_inv b u" "dst_id < g_vmpu_container_count u"
      using keeps_inv [OF k0 inv'] keeps_count [OF k0] ids' by simp_all
    have "entered b \<lparr>cs_src_id = src_id, cs_src_sp = processor_of_exc b f\<rparr> s u"
      using t 1 by (intro switch_push_entered)
    then have "entered b \<lparr>cs_src_id = src_id, cs_src_sp = processor_of_exc b f\<rparr> s
        (arc_aux_write AUX_ERSTATUS v (arc_aux_write AUX_ERRET h (u\<lparr>dst_container_user_sp := w\<rparr>)))" for v w
      by (rule entered_core [OF b entered_user_sp [where v = w]]) (simp add: core_intros)
    then show ?case
      by (simp add: secure_defined [OF inv_ids(3) [OF u(1)] u(2)] context_defined [OF u] Let_def)
  qed
qed

lemma int_same_normal_v1_safe:
  assumes b: "mpu_build_ok b" and inv: "ss_inv b s" and id: "src_id = g_container_stack_curr_id s"
  shows "safe (\<lambda>(_, t). entered b \<lparr>cs_src_id = src_id, cs_src_sp = processor_of_exc b f\<rparr> s t)
    (int_same_normal_v1 b src_id h f s)"
  unfolding int_same_normal_v1_def
proof (rule safe_bind [OF safe_push [OF inv]], goal_cases)
  case (3 u)
  then have k0: "keeps b 0 s u"
    by simp
  have u: "ss_inv b u" "src_id < g_vmpu_container_count u"
    using keeps_inv [OF k0 inv] keeps_count [OF k0] id inv_ids(1) [OF inv] by simp_all
  have "entered b \<lparr>cs_src_id = src_id, cs_src_sp = processor_of_exc b f\<rparr> s u"
    using 3 id by (simp add: entered_def ids_agree_def)
  then have "entered b \<lparr>cs_src_id = src_id, cs_src_sp = processor_of_exc b f\<rparr> s
      (arc_aux_write AUX_ERSTATUS v (arc_aux_write AUX_ERRET h u)\<lparr>dst_container_user_sp := w\<rparr>)" for v w
    by (rule entered_user_sp [OF entered_core [OF b]]) (simp add: core_intros)
  then show ?case
    by (simp add: context_defined [OF u] Let_def)
qed (use id inv_ids(1) [OF inv] in simp_all)

lemma int_entered_step_ok:
  assumes "mpu_build_ok b" "core_step b s t" "safe (\<lambda>(_, u). entered b item t u) res"
  shows "safe (\<lambda>(_, u). step_ok b k s u) res"
  using assms(3) by (rule safe_mono) (auto intro: entered_step_ok [OF core_entered [OF assms(1,2)]])

lemma interrupt_handle_v1_safe:
  assumes b: "mpu_build_ok b" and inv: "ss_inv b s" and run: "\<And>h u. ss_inv b u \<Longrightarrow> step_ok b k u (run h u)"
    and f: "f \<noteq> 0"
  shows "safe (\<lambda>(_, t). step_ok b k s t) (secureshield_interrupt_handle_v1 b run f s)"
  unfolding secureshield_interrupt_handle_v1_def
proof (rule safe_bind [OF int_accept_safe [OF inv_ids(4) [OF inv]]], goal_cases)
  case (1 x)
  then obtain served t where x: "x = (served, t)" and t: "core_step b s t"
      and e: "\<And>e. served = Some e \<Longrightarrow> ih_id e < g_vmpu_container_count s"
    by (cases x) auto
  show ?case
  proof (cases served)
    case None
    then show ?thesis
      using x core_step_ok [OF b t] by simp
  next
    case (Some exc)
    let ?u = "exc_st b f Erbta 0 t"
    have u: "core_step b s ?u"
      using t by (simp add: core_intros)
    have inv': "ss_inv b ?u"
      using keeps_inv [OF core_step_keeps [OF b u] inv] .
    have count: "g_vmpu_container_count ?u = g_vmpu_container_count s"
      using ss_fields_more [OF core_step_fields [OF u]] by simp
    have id: "g_container_stack_curr_id t = g_container_stack_curr_id ?u"
      by (simp add: exc_st_def)
    have curr: "g_container_stack_curr_id ?u < g_vmpu_container_count ?u"
      using inv_ids(1) [OF inv'] .
    have r: "step_ok b k s (run h (arc_unlock_restore v (arc_aux_write AUX_MPU_EN w ?u)))" for h v w
    proof (rule step_ok_core [OF b _ run])
      show st: "core_step b s (arc_unlock_restore v (arc_aux_write AUX_MPU_EN w ?u))"
        by (simp add: core_intros u)
      show "ss_inv b (arc_unlock_restore v (arc_aux_write AUX_MPU_EN w ?u))"
        by (rule keeps_inv [OF core_step_keeps [OF b st] inv])
    qed
    have sw: "safe (\<lambda>(_, t). step_ok b k s t)
        (int_switch_v1 b (g_container_stack_curr_id ?u) (ih_id exc) (ih_handler exc) f ?u)"
      using int_entered_step_ok [OF b u int_switch_v1_safe [OF b inv' curr]] e [OF Some] count by simp
    have "safe (\<lambda>(_, t). step_ok b k s t) (int_same_normal_v1 b (g_container_stack_curr_id ?u) (ih_handler exc) f ?u)"
      using int_entered_step_ok [OF b u int_same_normal_v1_safe [OF b inv' refl]] .
    with sw r show ?thesis
      unfolding x Some Let_def prod.case option.case id frame_ref_nonnull [OF f]
      by (cases "g_container_stack_curr_id ?u = ih_id exc")
        (auto simp: secure_defined [OF inv_ids(3) [OF inv']] e [OF Some] count)
  qed
qed

text \<open>A pop and a switch, unless the container stays the same, leave a container.\<close>

lemma pop_returned:
  assumes "\<forall>k \<le> g_container_stack_ptr t. keeps b k s t" "g_active_container t = g_active_container s"
      "g_container_stack_ptr s = g_container_stack_ptr t + 1"
      "g_container_stack_curr_id t = cs_src_id (g_container_stack s ! g_container_stack_ptr t)"
    and "\<forall>k. keeps b k t u" "g_container_stack_curr_id u = g_container_stack_curr_id t"
      "g_container_stack_ptr u = g_container_stack_ptr t"
      "g_active_container u = g_container_stack_curr_id u \<or>
       g_active_container u = g_active_container t \<and> g_container_stack_curr_id t = g_container_stack_curr_id s"
  shows "returned b (g_container_stack s ! g_container_stack_ptr t) s u"
  using assms keeps_trans [of b _ s t u] by (auto simp: returned_def ids_agree_def)

lemma returned_core:
  assumes "mpu_build_ok b" "returned b item s t" "core_step b t u"
  shows "returned b item s u"
  using assms keeps_core [OF assms(1) _ assms(3)] ss_fields_more [OF core_step_fields [OF assms(3)]]
  by (simp add: returned_def ids_agree_def)

lemma switch_returned:
  assumes b: "mpu_build_ok b" and inv: "ss_inv b s"
    and pop: "\<forall>k \<le> g_container_stack_ptr t. keeps b k s t" "g_active_container t = g_active_container s"
      "g_container_stack_ptr s = g_container_stack_ptr t + 1"
      "g_container_stack_curr_id t = cs_src_id (g_container_stack s ! g_container_stack_ptr t)"
      "g_container_stack_curr_id t < g_vmpu_container_count t"
    and core: "core_step b t t'"
  shows "safe (returned b (g_container_stack s ! g_container_stack_ptr t) s)
    (vmpu_switch b src_id (cs_src_id (g_container_stack s ! g_container_stack_ptr t)) t')"
proof -
  let ?item = "g_container_stack s ! g_container_stack_ptr t"
  have fields: "keeps b k t t'" "g_container_stack_curr_id t' = g_container_stack_curr_id t"
      "g_container_stack_ptr t' = g_container_stack_ptr t" for k
    using core_step_keeps [OF b core] ss_fields_more [OF core_step_fields [OF core]] by simp_all
  have k0: "keeps b 0 s t"
    using pop(1) by simp
  have inv': "ss_inv b t'" and id: "cs_src_id ?item < g_vmpu_container_count t'"
    using keeps_inv [OF fields(1) keeps_inv [OF k0 inv]] keeps_count [OF fields(1)] pop by simp_all
  show ?thesis
  proof (rule safe_mono [OF safe_switch [OF b inv' id]], elim conjE)
    fix u assume "\<forall>k. keeps b k t' u" "g_active_container u = cs_src_id ?item"
      "g_container_stack_curr_id u = g_container_stack_curr_id t'" "g_container_stack_ptr u = g_container_stack_ptr t'"
    moreover have "\<forall>k. keeps b k t u"
      using keeps_trans [OF fields(1)] \<open>\<forall>k. keeps b k t' u\<close> by blast
    ultimately show "returned b ?item s u"
      using pop fields by (intro pop_returned) simp_all
  qed
qed

text \<open>What the returns have in common; \<open>f\<close> copies the result to the caller's frame.\<close>

lemma pop_switch_safe:
  assumes b: "mpu_build_ok b" and inv: "ss_inv b s" and core: "\<And>t item. core_step b t (f item t)"
  shows "safe (\<lambda>(r, t). \<exists>item. r = cs_src_sp item \<and> returned b item s t)
    (res_bind (container_stack_pop (g_container_stack_curr_id s) sp nsp st s) (\<lambda>t.
     res_bind (stack_item t) (\<lambda>item.
     res_bind (vmpu_switch b (g_container_stack_curr_id s) (cs_src_id item) (f item t)) (\<lambda>t.
       Inr (cs_src_sp item, t)))))"
proof (rule safe_bind [OF safe_pop [OF inv inv_ids(1) [OF inv]]], elim conjE, goal_cases)
  case (1 t)
  then show ?case
    using switch_returned [OF b inv 1(2-4) 1(6,7) core] by (auto intro!: safe_bind)
qed

lemma int_return_safe:
  assumes b: "mpu_build_ok b" and inv: "ss_inv b s"
  shows "safe (\<lambda>(r, t). \<exists>item. r = cs_src_sp item \<and> returned b item s t) (secureshield_int_return b f s)"
  unfolding secureshield_int_return_def Let_def
proof (rule safe_bind [OF safe_pop [OF inv inv_ids(1) [OF inv]]], elim conjE, goal_cases)
  case (1 t)
  let ?item = "g_container_stack s ! g_container_stack_ptr t"
  have "safe (returned b ?item s)
      (if cs_src_id ?item \<noteq> g_container_stack_curr_id s
       then vmpu_switch b (g_container_stack_curr_id s) (cs_src_id ?item) t else Inr t)"
    using switch_returned [OF b inv 1(2-4) 1(6,7) core_step_refl] pop_returned [OF 1(2-4) 1(6), of t] 1(6) by auto
  then have "safe (\<lambda>(r, t). \<exists>item. r = cs_src_sp item \<and> returned b item s t)
      (res_bind (if cs_src_id ?item \<noteq> g_container_stack_curr_id s
         then vmpu_switch b (g_container_stack_curr_id s) (cs_src_id ?item) t else Inr t)
        (\<lambda>u. Inr (cs_src_sp ?item, irq_act_quit u)))"
    by (rule safe_bind) (auto intro!: exI [of _ ?item] returned_core [OF b _ core_int_ops(14) [OF core_step_refl]])
  then show ?case
    using 1(8) by simp
qed

section \<open>Interrupts in version 2\<close>

lemma set_context_normal_sp_safe:
  assumes inv: "ss_inv b s"
  shows "safe (\<lambda>t. (\<forall>k. keeps b k s t) \<and> g_active_container t = g_active_container s \<and>
      g_container_stack_curr_id t = g_container_stack_curr_id s \<and>
      g_container_stack_ptr t = g_container_stack_ptr s \<and> g_container_stack t = g_container_stack s)
    (if secure then set_context 0 (\<lambda>c. c\<lparr>cx_normal_sp := v\<rparr>) s else Inr s)"
proof (cases secure)
  case True
  have "0 < length (g_container_context s)"
    using inv by (simp add: ss_inv_def wf_defs)
  then have "safe (\<lambda>_. True) (set_context 0 (\<lambda>c. c\<lparr>cx_normal_sp := v\<rparr>) s)"
    by (simp add: set_context_def arr_get_def)
  with True show ?thesis
    using set_context_keeps [of 0 "\<lambda>c. c\<lparr>cx_normal_sp := v\<rparr>" s] by (auto elim!: safe_mono)
qed simp

lemma entered_keeps:
  assumes "entered b item s t" "\<forall>k. keeps b k t u" "g_active_container u = g_active_container t"
    "g_container_stack_curr_id u = g_container_stack_curr_id t"
    "g_container_stack_ptr u = g_container_stack_ptr t" "g_container_stack u = g_container_stack t"
  shows "entered b item s u"
  using assms keeps_trans [of b _ s t u] by (simp add: entered_def ids_agree_def)

lemma int_switch_v2_safe:
  assumes b: "mpu_build_ok b" and inv: "ss_inv b s"
    and ids: "src_id < g_vmpu_container_count s" "dst_id < g_vmpu_container_count s"
  shows "safe (\<lambda>(_, t). entered b \<lparr>cs_src_id = src_id, cs_src_sp = processor_of_exc b sp\<rparr> s t)
    (int_switch_v2 b src_id dst_id h sp s)"
  unfolding int_switch_v2_def
proof (rule safe_bind [OF safe_switch [OF b inv ids(2)]], elim conjE, goal_cases)
  case (1 t)
  then have inv': "ss_inv b t" and count: "g_vmpu_container_count t = g_vmpu_container_count s"
    using inv keeps_inv keeps_count by blast+
  note ids' = ids [folded count] and t = 1
  show ?case
  proof (rule safe_bind [OF safe_push [OF inv' ids']], elim conjE, goal_cases)
    case (1 u)
    then have k0: "keeps b 0 t u"
      by simp
    have u: "ss_inv b u" "dst_id < g_vmpu_container_count u" "src_id < g_vmpu_container_count u"
      using keeps_inv [OF k0 inv'] keeps_count [OF k0] ids' by simp_all
    have ent: "entered b \<lparr>cs_src_id = src_id, cs_src_sp = processor_of_exc b sp\<rparr> s u"
      using t 1 by (intro switch_push_entered)
    show ?case
      unfolding secure_defined [OF inv_ids(3) [OF u(1)] u(3)] res_bind_Inr
    proof (rule safe_bind [OF set_context_normal_sp_safe [OF u(1)]], elim conjE, goal_cases)
      case (1 v)
      then have k0: "keeps b 0 u v"
        by simp
      have v: "ss_inv b v" "dst_id < g_vmpu_container_count v" "0 < g_vmpu_container_count v"
        using keeps_inv [OF k0 u(1)] keeps_count [OF k0] u(2) by simp_all
      have "entered b \<lparr>cs_src_id = src_id, cs_src_sp = processor_of_exc b sp\<rparr> s v"
        using 1 by (intro entered_keeps [OF ent])
      then have "entered b \<lparr>cs_src_id = src_id, cs_src_sp = processor_of_exc b sp\<rparr> s (int_call_frame_st a1 a2 a3 a4 a5 v)"
        for a1 a2 a3 a4 a5
        by (rule entered_core [OF b]) (simp add: core_intros)
      then show ?case
        by (simp add: secure_defined [OF inv_ids(3) [OF v(1)] v(2)] context_defined [OF v(1,2)]
            context_defined [OF v(1,3)] Let_def)
    qed
  qed
qed

lemma interrupt_handle_v2_safe:
  assumes b: "mpu_build_ok b" and inv: "ss_inv b s" and run: "\<And>h u. ss_inv b u \<Longrightarrow> step_ok b k u (run h u)"
  shows "safe (\<lambda>(_, t). step_ok b k s t) (secureshield_interrupt_handle_v2 b run sp s)"
  unfolding secureshield_interrupt_handle_v2_def
proof (rule safe_bind [OF int_accept_safe [OF inv_ids(4) [OF inv]]], goal_cases)
  case (1 x)
  then obtain served t where x: "x = (served, t)" and t: "core_step b s t"
      and e: "\<And>e. served = Some e \<Longrightarrow> ih_id e < g_vmpu_container_count s"
    by (cases x) auto
  show ?case
  proof (cases served)
    case None
    then show ?thesis
      using x core_step_ok [OF b t] by simp
  next
    case (Some exc)
    have inv': "ss_inv b t"
      using keeps_inv [OF core_step_keeps [OF b t] inv] .
    have count: "g_vmpu_container_count t = g_vmpu_container_count s"
      using ss_fields_more [OF core_step_fields [OF t]] by simp
    have sw: "safe (\<lambda>(_, t). step_ok b k s t)
        (int_switch_v2 b (g_container_stack_curr_id t) (ih_id exc) (ih_handler exc) sp t)"
      using int_entered_step_ok [OF b t int_switch_v2_safe [OF b inv' inv_ids(1) [OF inv']]] e [OF Some] count by simp
    have st: "core_step b s (arc_seti 0 (arc_aux_write AUX_MPU_EN 0 t))"
      by (simp add: core_intros t)
    have "step_ok b k s (run h (arc_seti 0 (arc_aux_write AUX_MPU_EN 0 t)))" for h
      by (rule step_ok_core [OF b st run [OF keeps_inv [OF core_step_keeps [OF b st] inv]]])
    then have "step_ok b k s (snd (arc_clri (run h (arc_seti 0 (arc_aux_write AUX_MPU_EN 0 t)))))" for h
      by (rule step_ok_core_after [OF b _ core_int_ops(10) [OF core_step_refl]])
    with sw show ?thesis
      unfolding x Some Let_def prod.case option.case by auto
  qed
qed

lemma interrupt_handle_return_safe:
  assumes b: "mpu_build_ok b" and inv: "ss_inv b s"
  shows "safe (\<lambda>(r, t). \<exists>item. r = cs_src_sp item \<and> returned b item s t) (secureshield_interrupt_handle_return b sp s)"
  using pop_switch_safe [OF b inv, of "\<lambda>item t. t"] by (simp add: secureshield_interrupt_handle_return_def Let_def)

lemma protect_v_safe:
  assumes b: "mpu_build_ok b" and inv: "ss_inv b s"
  shows "safe (step_ok b k s) (secureshield_exc_handler_protect_v b s)"
proof -
  have rec: "safe (\<lambda>(_, t). step_ok b k s t) (vmpu_fault_recovery_mpu b a s)" for a
  proof -
    have "keeps b j s t \<and> g_active_container t = g_active_container s
        \<and> g_container_stack_curr_id t = g_container_stack_curr_id s"
      if "vmpu_fault_recovery_mpu b a s = Inr (r, t)" for r t j
      by (rule fault_recovery_keeps [OF b inv, of a j]) (use that in auto)
    moreover obtain r t where "vmpu_fault_recovery_mpu b a s = Inr (r, t)"
      by (rule fault_recovery_keeps [OF b inv])
    ultimately show ?thesis
      by (auto intro!: keeps_step_ok)
  qed
  have refl: "step_ok b k s s"
    by (rule core_step_ok [OF b]) simp
  show ?thesis
    unfolding secureshield_exc_handler_protect_v_def Let_def
    by (rule safe_bind [where Q = "\<lambda>(_, t). step_ok b k s t"]) (use rec refl in \<open>auto split: prod.splits\<close>)
qed

section \<open>Container calls\<close>

definition registered :: "ss_state \<Rightarrow> nat \<Rightarrow> u32 \<Rightarrow> u32 \<Rightarrow> bool" where
  "registered s c fn n \<longleftrightarrow>
     \<lparr>if_func = fn, if_args_num = n\<rparr> \<in>
       set (block_items (g_interface_list s) (ic_interface (g_interface_container s ! c))
              (ic_count (g_interface_container s ! c)))"

lemma find_interface_safe:
  assumes "interfaces_wf s" "0 < c" "c < SECURESHIELD_MAX_CONTAINERS"
  shows "safe (\<lambda>f. f \<noteq> 0 \<longrightarrow> f = fn \<and> registered s c fn n) (vmpu_find_interface s c fn n)"
proof -
  let ?c = "g_interface_container s ! c"
  have ok: "block_ok (ic_interface ?c) (ic_count ?c) CONTAINER_INTERFACE_COUNT"
      "length (g_interface_list s) = CONTAINER_INTERFACE_COUNT" "c < length (g_interface_container s)"
    using assms by (simp_all add: interfaces_wf_def)
  show ?thesis
  proof (cases "ic_interface ?c")
    case None
    then show ?thesis
      using assms(2) ok(3) by (simp add: vmpu_find_interface_def arr_get_def)
  next
    case (Some i)
    obtain r where r: "block_scan (interface_matches fn n) (g_interface_list s) (ic_interface ?c) (ic_count ?c) = Inr r"
      "case r of None \<Rightarrow> True | Some j \<Rightarrow> j < length (g_interface_list s) \<and>
         g_interface_list s ! j \<in> set (block_items (g_interface_list s) (ic_interface ?c) (ic_count ?c)) \<and>
         interface_matches fn n (g_interface_list s ! j)"
      using block_scan_items [OF ok(1), of "g_interface_list s" "interface_matches fn n"] ok(2)
      by (auto split: option.splits)
    then have "array_scan (interface_matches fn n) (g_interface_list s) i (ic_count ?c) = Inr r"
      using Some by (simp add: block_scan_def)
    moreover have "registered s c fn n" if "r = Some j" for j
      using r that by (cases "g_interface_list s ! j") (auto simp: registered_def interface_matches_def)
    ultimately show ?thesis
      using Some assms(2) ok(3) by (cases r) (auto simp: vmpu_find_interface_def arr_get_def)
  qed
qed

lemma get_dst_id_safe:
  "safe (\<lambda>c. 0 < c \<and> c < g_vmpu_container_count s) (container_call_get_dst_id b s pc)"
  by (auto simp: container_call_get_dst_id_def Let_def unat_gt_0)

lemma check_magic_safe: "safe (\<lambda>_. True) (container_call_check_magic b s pc)"
  by (simp add: container_call_check_magic_def)

lemma call_frame_core:
  "core_step b s (call_frame_v1 b' f d fn st n s)" "core_step b s (call_frame_v2 b' f d fn st n s)"
  by (simp_all add: call_frame_v1_def call_frame_v2_def Let_def core_intros)

text \<open>Entering container \<open>c\<close> by a call: its frame is prepared and it becomes the active one.\<close>

definition called_v1 :: "'b ss_build_scheme \<Rightarrow> u32 \<Rightarrow> nat \<Rightarrow> u32 \<Rightarrow> u32 \<Rightarrow> ss_state \<Rightarrow> u32 \<Rightarrow> ss_state \<Rightarrow> bool" where
  "called_v1 b f c fn args s r t \<longleftrightarrow>
     entered b \<lparr>cs_src_id = g_container_stack_curr_id s, cs_src_sp = processor_of_exc b f\<rparr> s t \<and>
     g_active_container t = c \<and> r = cx_cur_sp (g_container_context s ! c) \<and>
     memory t = memory (call_frame_v1 b f r fn (cx_cpu_status (g_container_context s ! c)) (unat args) s)"

lemma call_frame_memory:
  assumes "memory s = memory t"
  shows "memory (call_frame_v1 b f d fn st n s) = memory (call_frame_v1 b f d fn st n t)"
    "memory (call_frame_v2 b f d fn st n s) = memory (call_frame_v2 b f d fn st n t)"
  using assms by (simp_all add: call_frame_v1_def call_frame_v2_def Let_def exc_st_def exc_ld_def)

lemma push_switch_entered:
  assumes "\<forall>k \<le> g_container_stack_ptr s. keeps b k s t"
      "g_container_stack_curr_id t = dst_id" "g_container_stack_ptr t = g_container_stack_ptr s + 1"
      "g_container_stack t ! g_container_stack_ptr s = item"
    and "core_step b t t'" "mpu_build_ok b"
    and "\<forall>k. keeps b k t' u" "g_active_container u = dst_id"
      "g_container_stack_curr_id u = g_container_stack_curr_id t'"
      "g_container_stack_ptr u = g_container_stack_ptr t'" "g_container_stack u = g_container_stack t'"
  shows "entered b item s u"
proof -
  have "keeps b k t u" for k
    using keeps_trans [OF core_step_keeps [OF assms(6,5)]] assms(7) by blast
  then show ?thesis
    using assms keeps_trans [of b _ s t u] ss_fields_more [OF core_step_fields [OF assms(5)]]
    by (simp add: entered_def ids_agree_def)
qed

text \<open>The part of a call after its target is known.\<close>

lemma call_in_v1_enter:
  assumes b: "mpu_build_ok b" and inv: "ss_inv b s" and dst: "dst_id < g_vmpu_container_count s"
    and ne: "g_container_stack_curr_id s \<noteq> dst_id"
  shows "safe (\<lambda>(r, t). called_v1 b f dst_id fn args s r t)
    (res_bind (container_stack_push (g_container_stack_curr_id s) (processor_of_exc b f) nsp st dst_id s) (\<lambda>s'.
       res_bind (context_of s' dst_id) (\<lambda>dst.
         res_bind (vmpu_switch b (g_container_stack_curr_id s) dst_id
           (call_frame_v1 b f (cx_cur_sp dst) fn (cx_cpu_status dst) (unat args) s'))
           (\<lambda>s'. Inr (cx_cur_sp dst, s')))))"
proof (rule safe_bind [OF safe_push [OF inv inv_ids(1) [OF inv] dst]], elim conjE, goal_cases)
  case (1 t)
  have k0: "keeps b 0 s t"
    using 1(2) by simp
  let ?c = "g_container_context s ! dst_id"
  let ?t = "call_frame_v1 b f (cx_cur_sp ?c) fn (cx_cpu_status ?c) (unat args) t"
  have core: "core_step b t ?t"
    by (rule call_frame_core)
  have k1: "keeps b 0 s ?t"
    by (rule keeps_core [OF b k0 core])
  have t: "ss_inv b t" "dst_id < g_vmpu_container_count t" and c: "g_container_context t ! dst_id = ?c"
    using keeps_inv [OF k0 inv] keeps_count [OF k0] dst 1 ne by simp_all
  have t': "ss_inv b ?t" "dst_id < g_vmpu_container_count ?t"
    using keeps_inv [OF k1 inv] keeps_count [OF k1] dst by simp_all
  have "safe (called_v1 b f dst_id fn args s (cx_cur_sp ?c)) (vmpu_switch b (g_container_stack_curr_id s) dst_id ?t)"
  proof (rule safe_mono [OF safe_switch [OF b t']], elim conjE)
    fix u assume u: "\<forall>k. keeps b k ?t u" "g_active_container u = dst_id"
      "g_container_stack_curr_id u = g_container_stack_curr_id ?t" "g_container_stack_ptr u = g_container_stack_ptr ?t"
      "g_container_stack u = g_container_stack ?t" "memory u = memory ?t"
    then show "called_v1 b f dst_id fn args s (cx_cur_sp ?c) u"
      using push_switch_entered [OF 1(2) 1(4-6) core b u(1-5)] call_frame_memory(1) [of t s] 1
      by (simp add: called_v1_def)
  qed
  then show ?case
    using context_defined [OF t] c by (auto intro!: safe_bind)
qed

definition trap_pc :: "'b build_scheme \<Rightarrow> u32 \<Rightarrow> ss_state \<Rightarrow> u32" where
  "trap_pc b f s = exc_ld b s f Ret - 2"

lemma call_in_v1_spec:
  assumes b: "mpu_build_ok b" and inv: "ss_inv b s"
  shows "safe (\<lambda>(r, t). r = 0 \<and> t = s \<and> arc_int_active s \<or>
      (\<exists>c fn args. container_call_get_dst_id b s (trap_pc b f s) = Inr c \<and>
         0 < c \<and> c < g_vmpu_container_count s \<and> g_container_stack_curr_id s \<noteq> c \<and>
         fn = container_call_get_dst_fn b s (trap_pc b f s) \<and> fn \<noteq> 0 \<and> args = exc_ld b s f R0 AND 0xff \<and>
         registered s c fn args \<and> called_v1 b f c fn args s r t))
    (trap_container_call_in b f s)"
    (is "safe ?P _")
proof (cases "arc_int_active s")
  case True
  then show ?thesis
    by (simp add: trap_container_call_in_def)
next
  case False
  have wf: "interfaces_wf s" "g_vmpu_container_count s \<le> SECURESHIELD_MAX_CONTAINERS"
    using inv by (simp_all add: ss_inv_def wf_defs)
  show ?thesis
    unfolding trap_container_call_in_def Let_def trap_pc_def [symmetric] using False
  proof (simp, intro safe_bind [OF check_magic_safe] safe_bind [OF get_dst_id_safe], elim conjE, goal_cases)
    case (1 _ c)
    then show ?case
    proof (simp, intro impI safe_bind [OF find_interface_safe], goal_cases)
      case (4 f')
      then have ne: "g_container_stack_curr_id s \<noteq> c" "f' \<noteq> 0 \<Longrightarrow> f' = container_call_get_dst_fn b s (trap_pc b f s)"
        by auto
      then show ?case
        using 4 by (auto intro!: safe_mono [OF call_in_v1_enter [OF b inv]])
    qed (use wf in auto)
  qed
qed

lemma call_in_v1_safe:
  assumes b: "mpu_build_ok b" and inv: "ss_inv b s"
  shows "safe (\<lambda>(_, t). step_ok b k s t) (trap_container_call_in b f s)"
proof -
  have "step_ok b k s s"
    by (rule core_step_ok [OF b]) simp
  then show ?thesis
    by (intro safe_mono [OF call_in_v1_spec [OF b inv]]) (auto simp: called_v1_def intro: entered_step_ok)
qed

lemma call_out_v1_safe:
  assumes b: "mpu_build_ok b" and inv: "ss_inv b s"
  shows "safe (\<lambda>(r, t). \<exists>item. r = cs_src_sp item \<and> returned b item s t) (trap_container_call_out b f s)"
  using pop_switch_safe [OF b inv, of "\<lambda>item t. exc_st b (exc_of_processor b (cs_src_sp item)) R0 (exc_ld b t f R0) t"]
  by (simp add: trap_container_call_out_def Let_def core_intros)

lemma returned_safe_step_ok:
  "safe (\<lambda>(r, t). \<exists>item. r = cs_src_sp item \<and> returned b item s t) res \<Longrightarrow> safe (\<lambda>(_, t). step_ok b k s t) res"
  by (erule safe_mono) (auto intro: returned_step_ok)

lemma trap_handler_safe:
  assumes b: "mpu_build_ok b" and inv: "ss_inv b s"
  shows "safe (\<lambda>(_, t). step_ok b k s t) (secureshield_trap_handler b exc_frame s)"
proof -
  have wf: "ss_wf b s"
    using inv by (simp add: ss_inv_def)
  have refl: "step_ok b k s s"
    by (rule core_step_ok [OF b]) simp
  have "safe (\<lambda>(_, t). step_ok b k s t) (res_bind (secureshield_sys_ops_v1 b exc_frame s) (\<lambda>s. Inr (0 :: u32, s)))"
    by (rule safe_bind [OF sys_ops_v1_safe [OF wf]]) (simp add: core_step_ok [OF b])
  moreover have "safe (\<lambda>(_, t). step_ok b k s t) (res_bind (secureshield_int_ops_v1 b exc_frame s) (\<lambda>s. Inr (0 :: u32, s)))"
    by (rule safe_bind [OF int_ops_v1_safe [OF b wf]]) simp
  ultimately show ?thesis
    using refl call_in_v1_safe [OF b inv] returned_safe_step_ok [OF call_out_v1_safe [OF b inv]]
      returned_safe_step_ok [OF int_return_safe [OF b inv]]
    by (simp add: secureshield_trap_handler_def Let_def)
qed

section \<open>Container calls in version 2\<close>

lemma call_target_v2_safe:
  assumes "g_vmpu_container_count s \<le> SECURESHIELD_MAX_CONTAINERS"
  shows "safe (\<lambda>(fn, c). 0 < c \<and> c < g_vmpu_container_count s) (call_target_v2 b f s)"
  unfolding call_target_v2_def Let_def using assms
  by (auto intro!: safe_bind [OF check_magic_safe] safe_bind [OF get_dst_id_safe])

definition called_v2 :: "'b ss_build_scheme \<Rightarrow> u32 \<Rightarrow> nat \<Rightarrow> ss_state \<Rightarrow> u32 \<Rightarrow> ss_state \<Rightarrow> bool" where
  "called_v2 b f c s r t \<longleftrightarrow>
     entered b \<lparr>cs_src_id = g_container_stack_curr_id s, cs_src_sp = processor_of_exc b f\<rparr> s t \<and>
     g_active_container t = c \<and> r = cx_cur_sp (g_container_context s ! c)"

lemma set_context_0_cur_sp:
  assumes "(if secure then set_context 0 (\<lambda>c. c\<lparr>cx_normal_sp := v\<rparr>) s else Inr s) = Inr t"
  shows "cx_cur_sp (g_container_context t ! c) = cx_cur_sp (g_container_context s ! c)"
  using assms by (cases "c = 0") (auto simp: set_context_def split: if_splits option.splits)

lemma call_in_v2_enter:
  assumes b: "mpu_build_ok b" and inv: "ss_inv b s" and dst: "dst_id < g_vmpu_container_count s"
    and ne: "g_container_stack_curr_id s \<noteq> dst_id"
  shows "safe (\<lambda>(r, t). called_v2 b f dst_id s r t)
    (res_bind (container_stack_push (g_container_stack_curr_id s) (processor_of_exc b f) nsp st dst_id s) (\<lambda>s'.
     res_bind (container_is_secure s' (g_container_stack_curr_id s)) (\<lambda>src_secure.
     res_bind (if src_secure then set_context 0 (\<lambda>c. c\<lparr>cx_normal_sp := arc_aux_read s' AUX_KERNEL_SP\<rparr>) s'
               else Inr s') (\<lambda>s'.
     res_bind (context_of s' dst_id) (\<lambda>dst.
     res_bind (vmpu_switch b (g_container_stack_curr_id s) dst_id
        (call_frame_v2 b f (cx_cur_sp dst) fn (cx_cpu_status dst) n s')) (\<lambda>s'.
     res_bind (container_is_secure s' dst_id) (\<lambda>dst_secure.
     res_bind (if dst_secure
               then res_bind (context_of s' 0)
                 (\<lambda>c0. Inr (callee_st b (cx_cur_sp dst) Kernel_sp (cx_normal_sp c0) s'))
               else Inr s') (\<lambda>s'.
       Inr (cx_cur_sp dst, s')))))))))"
proof (rule safe_bind [OF safe_push [OF inv inv_ids(1) [OF inv] dst]], elim conjE, goal_cases)
  case (1 t)
  have k0: "keeps b 0 s t"
    using 1(2) by simp
  have t: "ss_inv b t" "dst_id < g_vmpu_container_count t" "g_container_stack_curr_id s < g_vmpu_container_count t"
    using keeps_inv [OF k0 inv] keeps_count [OF k0] dst inv_ids(1) [OF inv] by simp_all
  note push = 1
  show ?case
    unfolding secure_defined [OF inv_ids(3) [OF t(1)] t(3)] res_bind_Inr
  proof (rule safe_bind [OF set_context_normal_sp_safe [OF t(1)]], elim conjE, goal_cases)
    case (1 u)
    have "keeps b 0 t u"
      using 1(2) by simp
    then have u: "ss_inv b u" "dst_id < g_vmpu_container_count u"
      using keeps_inv [OF _ t(1)] keeps_count [of b 0 t u] t(2) by simp_all
    have sp: "cx_cur_sp (g_container_context u ! dst_id) = cx_cur_sp (g_container_context s ! dst_id)"
      using set_context_0_cur_sp [OF 1(1), of dst_id] push ne by simp
    have pu: "\<forall>k \<le> g_container_stack_ptr s. keeps b k s u" "g_container_stack_curr_id u = dst_id"
        "g_container_stack_ptr u = g_container_stack_ptr s + 1"
        "g_container_stack u ! g_container_stack_ptr s = \<lparr>cs_src_id = g_container_stack_curr_id s, cs_src_sp = processor_of_exc b f\<rparr>"
      using push 1 keeps_trans [of b _ s t u] by auto
    let ?c = "g_container_context u ! dst_id"
    let ?u = "call_frame_v2 b f (cx_cur_sp ?c) fn (cx_cpu_status ?c) n u"
    have core: "core_step b u ?u"
      by (rule call_frame_core)
    have k1: "keeps b 0 u ?u"
      by (rule core_step_keeps [OF b core])
    have u': "ss_inv b ?u" "dst_id < g_vmpu_container_count ?u"
      using keeps_inv [OF k1 u(1)] keeps_count [OF k1] u(2) by simp_all
    show ?case
      unfolding context_defined [OF u] res_bind_Inr
    proof (rule safe_bind [OF safe_switch [OF b u']], elim conjE, goal_cases)
      case (1 v)
      have ent: "entered b \<lparr>cs_src_id = g_container_stack_curr_id s, cs_src_sp = processor_of_exc b f\<rparr> s v"
        by (rule push_switch_entered [OF pu core b 1(2-6)])
      have "keeps b 0 ?u v"
        using 1(2) by simp
      then have v: "ss_inv b v" "dst_id < g_vmpu_container_count v" "0 < g_vmpu_container_count v"
        using keeps_inv [OF _ u'(1)] keeps_count [of b 0 ?u v] u'(2) by simp_all
      have "entered b \<lparr>cs_src_id = g_container_stack_curr_id s, cs_src_sp = processor_of_exc b f\<rparr> s
          (callee_st b a Kernel_sp w v)" for a w
        by (rule entered_core [OF b ent]) (simp add: core_intros)
      then show ?case
        using ent 1(3) sp by (simp add: secure_defined [OF inv_ids(3) [OF v(1)] v(2)] context_defined [OF v(1,3)]
            called_v2_def callee_st_def)
    qed
  qed
qed

lemma call_in_v2_spec:
  assumes b: "mpu_build_ok b" and inv: "ss_inv b s"
  shows "safe (\<lambda>(r, t). r = 0 \<and> t = s \<and> arc_int_active s \<or>
      (\<exists>c fn args. 0 < c \<and> c < g_vmpu_container_count s \<and> g_container_stack_curr_id s \<noteq> c \<and>
         call_target_v2 b f s = Inr (fn, c) \<and> fn \<noteq> 0 \<and> args = exc_ld b s f R0 AND 0xff \<and>
         registered s c fn args \<and> called_v2 b f c s r t))
    (container_call_in b f s)"
proof (cases "arc_int_active s")
  case True
  then show ?thesis
    by (simp add: container_call_in_def)
next
  case False
  have wf: "interfaces_wf s" "g_vmpu_container_count s \<le> SECURESHIELD_MAX_CONTAINERS"
    using inv by (simp_all add: ss_inv_def wf_defs)
  show ?thesis
    unfolding container_call_in_def Let_def using False
  proof (simp, intro impI safe_bind [OF call_target_v2_safe [OF wf(2)]], goal_cases)
    case (1 x)
    obtain fn c where x: "x = (fn, c)"
      by (cases x)
    show ?case
      using 1 unfolding x
    proof (simp, intro impI safe_bind [OF find_interface_safe], goal_cases)
      case (4 f')
      then show ?case
        by (auto intro!: safe_mono [OF call_in_v2_enter [OF b inv]])
    qed (use wf in auto)
  qed
qed

lemma call_in_v2_safe:
  assumes b: "mpu_build_ok b" and inv: "ss_inv b s"
  shows "safe (\<lambda>(_, t). step_ok b k s t) (container_call_in b f s)"
proof -
  have "step_ok b k s s"
    by (rule core_step_ok [OF b]) simp
  then show ?thesis
    by (intro safe_mono [OF call_in_v2_spec [OF b inv]]) (auto simp: called_v2_def intro: entered_step_ok)
qed

lemma call_out_v2_safe:
  assumes b: "mpu_build_ok b" and inv: "ss_inv b s" and f: "dst \<noteq> 0"
  shows "safe (\<lambda>(r, t). \<exists>item. r = cs_src_sp item \<and> returned b item s t) (container_call_out b dst s)"
  using pop_switch_safe [OF b inv, of
      "\<lambda>item t. exc_st b (exc_of_processor b (cs_src_sp item)) R0 (exc_ld b t (exc_of_processor b dst) R0) t"]
  by (simp add: container_call_out_def Let_def core_intros f)

section \<open>The running system\<close>

text \<open>
  The ways in which the processor enters the runtime. The handler of an interrupt that belongs
  to the running container is called from inside the runtime; \<open>run\<close> says what it does.
\<close>

datatype ss_event =
    Ev_trap u32
  | Ev_interrupt "u32 \<Rightarrow> ss_state \<Rightarrow> ss_state" u32
  | Ev_interrupt_return u32
  | Ev_protection_violation
  | Ev_privilege_violation
  | Ev_exception
  | Ev_call_in u32
  | Ev_call_out u32
  | Ev_sys_op u32 u32 u32 u32 u32
  | Ev_int_op u32 u32 u32

definition ss_has_entry :: "'b build_scheme \<Rightarrow> ss_event \<Rightarrow> bool" where
  "ss_has_entry b ev \<longleftrightarrow>
     (case ev of
        Ev_interrupt_return _ \<Rightarrow> secureshield_version b = 2
      | Ev_call_in _ \<Rightarrow> secureshield_version b = 2
      | Ev_call_out _ \<Rightarrow> secureshield_version b = 2
      | Ev_sys_op _ _ _ _ _ \<Rightarrow> secureshield_version b = 2
      | Ev_int_op _ _ _ \<Rightarrow> secureshield_version b = 2
      | _ \<Rightarrow> True)"

definition second :: "ss_stop + 'r \<times> ss_state \<Rightarrow> ss_stop + ss_state" where
  "second res = res_bind res (\<lambda>(_, s). Inr s)"

definition ss_handle :: "'b ss_build_scheme \<Rightarrow> ss_event \<Rightarrow> ss_state \<Rightarrow> ss_stop + ss_state" where
  "ss_handle b ev s =
     (case ev of
        Ev_trap frame \<Rightarrow>
          if secureshield_version b = 1 then second (secureshield_trap_handler b frame s)
          else secureshield_exc_handler_default s
      | Ev_interrupt run frame \<Rightarrow>
          if secureshield_version b = 1 then second (secureshield_interrupt_handle_v1 b run frame s)
          else second (secureshield_interrupt_handle_v2 b run frame s)
      | Ev_interrupt_return sp \<Rightarrow> second (secureshield_interrupt_handle_return b sp s)
      | Ev_protection_violation \<Rightarrow> secureshield_exc_handler_protect_v b s
      | Ev_privilege_violation \<Rightarrow> secureshield_exc_handler_privilege_v s
      | Ev_exception \<Rightarrow> secureshield_exc_handler_default s
      | Ev_call_in frame \<Rightarrow> second (container_call_in b frame s)
      | Ev_call_out frame \<Rightarrow> second (container_call_out b frame s)
      | Ev_sys_op i p1 p2 p3 p4 \<Rightarrow> second (secureshield_sys_ops_v2 i p1 p2 p3 p4 s)
      | Ev_int_op ops p1 p2 \<Rightarrow> second (secureshield_int_ops_v2 b ops p1 p2 s))"

text \<open>
  A run of the system on which the container stack is never lower than \<open>k\<close>. Between two events
  the code of containers runs: it may change memory and registers, but neither the variables
  of the runtime nor the entries of the protection unit. What the handlers do inside an event
  is a run of the same kind.
\<close>

inductive ss_run :: "'b ss_build_scheme \<Rightarrow> nat \<Rightarrow> ss_state \<Rightarrow> ss_state \<Rightarrow> bool" for b k where
  run_refl: "k \<le> g_container_stack_ptr s \<Longrightarrow> ss_run b k s s"
| run_container: "ss_run b k s t \<Longrightarrow> core_step b t u \<Longrightarrow> ss_run b k s u"
| run_event: "ss_run b k s t \<Longrightarrow> ss_has_entry b ev \<Longrightarrow>
    (\<forall>run frame h v. ev = Ev_interrupt run frame \<longrightarrow> k \<le> g_container_stack_ptr v \<longrightarrow> ss_run b k v (run h v)) \<Longrightarrow>
    ss_handle b ev t = Inr u \<Longrightarrow> k \<le> g_container_stack_ptr u \<Longrightarrow> ss_run b k s u"

text \<open>
  Two entry points follow a pointer to a frame without checking it first. The code in front of them
  passes its own stack pointer.
\<close>

definition frame_given :: "'b build_scheme \<Rightarrow> ss_event \<Rightarrow> bool" where
  "frame_given b ev \<longleftrightarrow>
     (case ev of
        Ev_interrupt _ frame \<Rightarrow> secureshield_version b = 1 \<longrightarrow> frame \<noteq> 0
      | Ev_call_out frame \<Rightarrow> frame \<noteq> 0
      | _ \<Rightarrow> True)"

lemma second_safe: "safe (\<lambda>(_, t). P t) res \<Longrightarrow> safe P (second res)"
  unfolding second_def by (erule safe_bind) auto

lemma ss_handle_safe:
  assumes b: "mpu_build_ok b" and inv: "ss_inv b s"
    and run: "\<And>run f h u. ev = Ev_interrupt run f \<Longrightarrow> ss_inv b u \<Longrightarrow> step_ok b k u (run h u)"
    and frame: "frame_given b ev"
  shows "safe (step_ok b k s) (ss_handle b ev s)"
proof -
  have wf: "ss_wf b s"
    using inv by (simp add: ss_inv_def)
  have "safe (\<lambda>(_, t). step_ok b k s t) (secureshield_sys_ops_v2 i p1 p2 p3 p4 s)" for i p1 p2 p3 p4
    by (rule safe_mono [OF sys_ops_v2_safe [OF wf]]) (auto simp: core_step_ok [OF b])
  moreover have "safe (\<lambda>(_, t). step_ok b k s t) (secureshield_int_ops_v2 b ops p1 p2 s)" for ops p1 p2
    unfolding secureshield_int_ops_v2_def by (rule int_ops_safe [OF b wf])
  ultimately show ?thesis
    using run frame trap_handler_safe [OF b inv] interrupt_handle_v1_safe [OF b inv] interrupt_handle_v2_safe [OF b inv]
      returned_safe_step_ok [OF interrupt_handle_return_safe [OF b inv]] protect_v_safe [OF b inv]
      call_in_v2_safe [OF b inv] returned_safe_step_ok [OF call_out_v2_safe [OF b inv]]
    by (auto simp: ss_handle_def secureshield_exc_handler_default_def secureshield_exc_handler_privilege_v_def
        frame_given_def intro!: second_safe split: ss_event.split)
qed

text \<open>An event that returned has followed no null pointer, or did not use the one it had.\<close>

lemma interrupt_handle_v1_null:
  "secureshield_interrupt_handle_v1 b run 0 s = Inr x \<Longrightarrow> secureshield_interrupt_handle_v1 b run 4 s = Inr x"
  by (auto simp: secureshield_interrupt_handle_v1_def res_simps split: option.splits)

lemma ss_handle_Inr:
  assumes "ss_handle b ev s = Inr u"
  obtains ev' where "frame_given b ev'" "ss_handle b ev' s = Inr u"
    "\<forall>run f. ev' = Ev_interrupt run f \<longrightarrow> (\<exists>f. ev = Ev_interrupt run f)"
proof (cases "frame_given b ev")
  case True
  then show ?thesis
    using that [of ev] assms by blast
next
  case False
  then consider run where "ev = Ev_interrupt run 0" "secureshield_version b = 1" | "ev = Ev_call_out 0"
    by (auto simp: frame_given_def split: ss_event.splits)
  then show ?thesis
  proof cases
    case 1
    then have "ss_handle b (Ev_interrupt run 4) s = Inr u"
      using assms by (auto simp: ss_handle_def second_def res_simps dest: interrupt_handle_v1_null)
    then show ?thesis
      using that [of "Ev_interrupt run 4"] 1 by (simp add: frame_given_def)
  next
    case 2
    then show ?thesis
      using assms by (simp add: ss_handle_def second_def container_call_out_def Let_def res_simps)
  qed
qed

lemma ss_run_keeps:
  assumes "ss_run b k s t" and b: "mpu_build_ok b"
  shows "k \<le> g_container_stack_ptr s \<and> k \<le> g_container_stack_ptr t \<and>
    (ss_inv b s \<longrightarrow> keeps b k s t \<and> (ids_agree s \<longrightarrow> ids_agree t))"
  using assms(1)
proof induction
  case (run_refl s)
  then show ?case by simp
next
  case (run_container s t u)
  then show ?case
    using core_step_keeps [OF b run_container.hyps(2), of k] keeps_trans [of b k s t u]
      ss_fields_more [OF core_step_fields [OF run_container.hyps(2)]]
    by (simp add: ids_agree_def)
next
  case (run_event s t ev u)
  have "keeps b k s u \<and> (ids_agree s \<longrightarrow> ids_agree u)" if inv: "ss_inv b s"
  proof -
    have t: "keeps b k s t" "ids_agree s \<longrightarrow> ids_agree t" "k \<le> g_container_stack_ptr t"
      using run_event inv by auto
    have h: "step_ok b k v (run h v)" if "ev = Ev_interrupt run f" "ss_inv b v" for run f h v
      using run_event.IH(2) that by (auto simp: step_ok_def)
    obtain ev' where ev': "frame_given b ev'" "ss_handle b ev' t = Inr u"
        "\<forall>run f. ev' = Ev_interrupt run f \<longrightarrow> (\<exists>f. ev = Ev_interrupt run f)"
      by (rule ss_handle_Inr [OF run_event.hyps(3)])
    have "safe (step_ok b k t) (ss_handle b ev' t)"
      by (rule ss_handle_safe [OF b keeps_inv [OF t(1) inv] _ ev'(1)]) (use ev'(3) h in blast)
    then have "step_ok b k t u"
      using ev'(2) by simp
    then show ?thesis
      using t run_event.hyps(4) keeps_trans [of b k s t u] by (auto simp: step_ok_def)
  qed
  then show ?case
    using run_event by blast
qed

end
