(* ===== verification/Ss_Region.thy ===== *)
theory Ss_Region
  imports Ss_Run
begin

text \<open>
  The regions that containers are given, as sets of addresses. When a configuration asks only
  for blocks that the protection unit can represent exactly, or that are rounded down, the
  checks of \<open>mem_region_checks\<close> make regions disjoint, unless both are marked as shared, and an
  entry of the unit matches no address outside of its region.
\<close>

section \<open>Regions as sets of addresses\<close>

definition region_in :: "MPU_REGION \<Rightarrow> u32 \<Rightarrow> bool" where
  "region_in r a \<longleftrightarrow> unat (rg_base r) \<le> unat a \<and> unat a < unat (rg_base r) + unat (rg_size r)"

definition both_shared :: "MPU_REGION \<Rightarrow> MPU_REGION \<Rightarrow> bool" where
  "both_shared r r' \<longleftrightarrow> has (rg_ac r) AC_SHARED \<and> has (rg_ac r') AC_SHARED"

definition region_exact :: "'b build_scheme \<Rightarrow> MPU_REGION \<Rightarrow> bool" where
  "region_exact b r \<longleftrightarrow>
     mpu_block_ok b (rg_base r) (rg_size r) \<and> unat (rg_base r) + unat (rg_size r) < 2 ^ 32"

definition regions_apart :: "'b build_scheme \<Rightarrow> MPU_REGION list \<Rightarrow> nat \<Rightarrow> bool" where
  "regions_apart b rs n \<longleftrightarrow>
     (\<forall>i < n. region_exact b (rs ! i)) \<and>
     (\<forall>i < n. \<forall>j < n. i \<noteq> j \<longrightarrow> \<not> both_shared (rs ! i) (rs ! j) \<longrightarrow>
        (\<forall>a. \<not> (region_in (rs ! i) a \<and> region_in (rs ! j) a)))"

text \<open>
  The blocks that are represented without rounding up: not below the unit's smallest size, below
  the end of the address space, and, in version 1, a power of two or to be rounded down.
\<close>

definition block_exact :: "'b build_scheme \<Rightarrow> u32 \<Rightarrow> u32 \<Rightarrow> u32 \<Rightarrow> bool" where
  "block_exact b addr sz ac \<longleftrightarrow>
     mpu_alignment b \<le> sz \<and> unat addr + unat sz < 2 ^ 32 \<and>
     (secureshield_version b = 1 \<longrightarrow>
        has ac AC_SIZE_ROUND_DOWN \<or> \<not> has ac AC_SIZE_ROUND_UP \<or> embarc_pow2_ceil sz = Some sz)"

text \<open>Version 1 is made for the units with power-of-two regions, version 2 for the other one.\<close>

definition unit_matches :: "'b build_scheme \<Rightarrow> bool" where
  "unit_matches b \<longleftrightarrow> (secureshield_version b = 1 \<longleftrightarrow> mpu_version b \<noteq> 4)"

section \<open>The region that is stored\<close>

lemma and_pow2_minus_1: "k < 32 \<Longrightarrow> x AND (2 ^ k - 1 :: u32) = 0 \<longleftrightarrow> unat x mod 2 ^ k = 0"
proof -
  have "x AND (2 ^ k - 1) = take_bit k x"
    by (simp add: take_bit_eq_mask mask_eq_exp_minus_1)
  then have "unat (x AND (2 ^ k - 1)) = unat x mod 2 ^ k"
    by (simp only: unsigned_take_bit_eq) (simp only: take_bit_eq_mod)
  then show ?thesis
    by (metis unat_eq_zero)
qed

lemma has_or: "has ac (x OR y) \<longleftrightarrow> has ac x \<or> has ac y"
proof -
  have "ac AND (x OR y) = 0 \<longleftrightarrow> ac AND x = 0 \<and> ac AND y = 0"
    by (simp add: bit.conj_disj_distrib or_eq_0_iff)
  then show ?thesis
    by (simp add: has_def)
qed

lemma rounded_size:
  assumes ceil: "embarc_pow2_ceil sz = Some c" and al: "mpu_alignment b \<le> sz"
    and down: "c \<noteq> sz \<longrightarrow> v = drop_bit 1 c \<and> mpu_alignment b \<le> v" and eq: "c = sz \<longrightarrow> v = c"
  shows "\<exists>m < 32. v = 2 ^ m \<and> unat v = 2 ^ m \<and> unat v \<le> unat sz \<and> mpu_alignment b \<le> v"
proof -
  obtain k where k: "k < 32" "c = 2 ^ k" "unat c = 2 ^ k" "sz \<le> c" "0 < k \<longrightarrow> 2 ^ (k - 1) < unat sz"
    using embarc_pow2_ceil_Some [OF ceil] by blast
  show ?thesis
  proof (cases "c = sz")
    case True
    then show ?thesis
      using k eq al by auto
  next
    case False
    then have v: "v = drop_bit 1 c" "mpu_alignment b \<le> v"
      using down by blast+
    have "mpu_alignment b \<noteq> 0"
      using unat_mpu_alignment [of b] by (metis unat_0 power_not_zero zero_neq_numeral)
    then have "v \<noteq> 0"
      using v(2) by auto
    then have k0: "0 < k"
      using v(1) k(2) by (cases k) (auto simp: drop_bit_eq_div)
    have uv: "unat v = 2 ^ (k - 1)"
      using k0 by (simp only: v(1) unat_drop_bit_u32 k(3)) (cases k; simp)
    then have "v = 2 ^ (k - 1)"
      using unat_pow2_u32 [of "k - 1"] k(1) by (metis less_imp_diff_less unsigned_word_eqI)
    then show ?thesis
      using uv k(1,5) k0 v(2) by (intro exI [of _ "k - 1"]) auto
  qed
qed

lemma update_region_v1_exact:
  assumes upd: "update_region_v1 b base sz ac = Inr r" and ex: "block_exact b base sz ac"
    and v: "secureshield_version b = 1" "mpu_version b \<noteq> 4"
  shows "rg_base r = base \<and> rg_ac r = ac \<and> unat (rg_size r) \<le> unat sz \<and> mpu_block_ok b base (rg_size r)"
proof -
  have al: "mpu_alignment b \<le> sz" and fit: "unat base + unat sz < 2 ^ 32"
    and round: "has ac AC_SIZE_ROUND_DOWN \<or> \<not> has ac AC_SIZE_ROUND_UP \<or> embarc_pow2_ceil sz = Some sz"
    using ex v(1) by (simp_all add: block_exact_def)
  obtain c where c: "embarc_pow2_ceil sz = Some c"
    using upd by (auto simp: update_region_v1_def split: option.splits)
  have or: "has ac (AC_SIZE_ROUND_UP OR AC_SIZE_ROUND_DOWN) \<longleftrightarrow> has ac AC_SIZE_ROUND_UP \<or> has ac AC_SIZE_ROUND_DOWN"
    by (rule has_or)
  obtain size attr where s: "c \<noteq> sz \<longrightarrow> size = drop_bit 1 c \<and> mpu_alignment b \<le> size" "c = sz \<longrightarrow> size = c"
      "base AND (size - 1) = 0" "r = \<lparr>rg_base = base, rg_attr = attr, rg_size = size, rg_ac = ac\<rparr>"
    using upd c round unfolding update_region_v1_def or Let_def
    by (auto simp: res_simps not_less split: if_splits)
  obtain m where m: "m < 32" "size = 2 ^ m" "unat size = 2 ^ m" "unat size \<le> unat sz" "mpu_alignment b \<le> size"
    using rounded_size [OF c al s(1,2)] by blast
  have "unat base mod 2 ^ m = 0"
    using s(3) and_pow2_minus_1 [OF m(1), of base] m(2) by simp
  then show ?thesis
    using m s(4) fit v(2) by (simp add: mpu_block_ok_def word_le_nat_alt bit_length_pow2)
qed

lemma update_region_v2_exact:
  assumes upd: "update_region_v2 b c base sz ac s = Inr (r, t)" and ex: "block_exact b base sz ac"
    and v: "mpu_version b = 4"
  shows "rg_base r = base \<and> rg_ac r = ac \<and> unat (rg_size r) \<le> unat sz \<and> mpu_block_ok b base (rg_size r)"
proof -
  have r: "rg_base r = base" "rg_ac r = ac" "rg_size r = sz"
      "base AND mpu_alignment_mask b = 0" "sz AND mpu_alignment_mask b = 0"
    using upd by (auto simp: update_region_v2_def res_simps split: if_splits prod.splits)
  have mask: "mpu_alignment_mask b = 2 ^ 5 - 1" "mpu_alignment b = 0x20"
    using v by (simp_all add: mpu_alignment_mask_def mpu_alignment_def mpu_alignment_bits_def)
  have "unat base mod 2 ^ 5 = 0" "unat sz mod 2 ^ 5 = 0"
    using r(4,5) and_pow2_minus_1 [of 5 base] and_pow2_minus_1 [of 5 sz] unfolding mask by simp_all
  then show ?thesis
    using r(1-3) ex v by (simp add: mpu_block_ok_def block_exact_def mask word_le_nat_alt)
qed

lemma update_region_exact:
  assumes "vmpu_ac_update_container_region b c base sz ac s = Inr (r, t)" "block_exact b base sz ac" "unit_matches b"
  shows "rg_base r = base" "rg_ac r = ac" "unat (rg_size r) \<le> unat sz" "region_exact b r"
proof -
  have "rg_base r = base \<and> rg_ac r = ac \<and> unat (rg_size r) \<le> unat sz \<and> mpu_block_ok b base (rg_size r)"
    using assms update_region_v1_exact [OF _ assms(2)] update_region_v2_exact [OF _ assms(2)]
    by (auto simp: vmpu_ac_update_container_region_def unit_matches_def res_simps split: if_splits)
  then show "rg_base r = base" "rg_ac r = ac" "unat (rg_size r) \<le> unat sz" "region_exact b r"
    using assms(2) by (auto simp: region_exact_def block_exact_def)
qed

section \<open>The checks\<close>

lemma no_conflict_apart:
  assumes chk: "\<not> region_conflicts addr (addr + sz - 1) ac r'" and r': "unat (rg_base r') + unat (rg_size r') < 2 ^ 32"
    and fit: "0 < unat sz" "unat addr + unat sz < 2 ^ 32"
    and r: "rg_base r = addr" "rg_ac r = ac" "unat (rg_size r) \<le> unat sz"
    and sh: "\<not> both_shared r r'"
  shows "\<not> (region_in r a \<and> region_in r' a)"
proof -
  have e1: "unat (rg_base r' + rg_size r') = unat (rg_base r') + unat (rg_size r')"
    by (rule unat_add_u32 [OF r'])
  have "unat (addr + sz) = unat addr + unat sz"
    by (rule unat_add_u32 [OF fit(2)])
  then have e2: "unat (addr + sz - 1) = unat addr + unat sz - 1"
    using unat_sub_u32 [of 1 "addr + sz"] fit(1) by simp
  have "\<not> (has (rg_ac r') AC_SHARED \<and> has ac AC_SHARED)"
    using sh r(2) by (auto simp: both_shared_def)
  then have "\<not> (unat (rg_base r') \<le> unat addr \<and> unat addr < unat (rg_base r') + unat (rg_size r'))"
      "\<not> (unat (rg_base r') \<le> unat addr + unat sz - 1 \<and>
           unat addr + unat sz - 1 < unat (rg_base r') + unat (rg_size r'))"
      "\<not> (unat addr < unat (rg_base r') \<and> unat (rg_base r') + unat (rg_size r') \<le> unat addr + unat sz - 1)"
    using chk by (auto simp: region_conflicts_def Let_def word_le_nat_alt word_less_nat_alt e1 e2)
  then show ?thesis
    using r fit unfolding region_in_def by auto
qed

lemma array_scan_all: "array_scan p xs 0 n = Inr None \<Longrightarrow> i < n \<Longrightarrow> \<not> p (xs ! i)"
  using array_scan_None [of p xs 0 n i] by simp

lemma checks_passed:
  assumes "mem_region_checks b s start end_addr ac = Inr False" "i < g_mpu_region_count s"
  shows "\<not> region_conflicts start end_addr ac (g_mpu_list s ! i)"
  using assms by (auto simp: mem_region_checks_def res_simps split: if_splits dest: array_scan_all)

text \<open>Storing a checked region at the end of the list keeps the regions apart.\<close>

lemma store_apart:
  assumes apart: "regions_apart b rs n" and n: "n < length rs"
    and ex: "region_exact b r" and new: "\<And>i a. i < n \<Longrightarrow> \<not> both_shared r (rs ! i) \<Longrightarrow> \<not> (region_in r a \<and> region_in (rs ! i) a)"
  shows "regions_apart b (rs[n := r]) (Suc n)"
proof -
  have sym: "both_shared r r' \<longleftrightarrow> both_shared r' r" for r r'
    by (auto simp: both_shared_def)
  have nth: "rs[n := r] ! i = (if i = n then r else rs ! i)" for i
    using n by (simp add: nth_list_update)
  show ?thesis
    using apart ex new unfolding regions_apart_def nth by (auto simp: less_Suc_eq sym)
qed

lemma regions_apart_empty [simp]: "regions_apart b rs 0"
  by (simp add: regions_apart_def)

text \<open>The region lists that differ only in the attributes.\<close>

lemma regions_apart_attr:
  assumes "regions_apart b rs n" "n \<le> length rs"
    and "\<And>i. i < n \<Longrightarrow> rg_base (rs' ! i) = rg_base (rs ! i) \<and> rg_size (rs' ! i) = rg_size (rs ! i) \<and> rg_ac (rs' ! i) = rg_ac (rs ! i)"
  shows "regions_apart b rs' n"
  using assms by (simp add: regions_apart_def region_exact_def region_in_def both_shared_def)

section \<open>What an entry of the unit matches\<close>

lemma region_covers:
  assumes "mpu_build_ok b" "region_exact b r" "mpu_entry_covers b (encode_region b r) a"
  shows "region_in r a"
proof (cases "mpu_version b = 4 \<and> rg_attr r AND AUX_MPU_ATTR_MASK b = 0")
  case True
  then show ?thesis
    using assms(3) by (simp add: encode_region_def mpu_encode_def mpu_rend_rper_def mpu_entry_covers_def Let_def)
next
  case False
  then show ?thesis
    using assms encode_covers_v23 [of b "rg_base r" "rg_size r" "rg_attr r" a]
      encode_covers_v4 [of b "rg_base r" "rg_size r" "rg_attr r" a]
    by (auto simp: region_exact_def region_in_def encode_region_def)
qed

lemma empty_covers: "mpu_build_ok b \<Longrightarrow> \<not> mpu_entry_covers b (empty_entry b) a"
  by (auto simp: empty_entry_def mpu_encode_def mpu_rend_rper_def mpu_rdp_rdb_def mpu_entry_covers_def Let_def)

end
