(* ===== verification/Ss_Boot.thy ===== *)
theory Ss_Boot
  imports Ss_Region
begin

text \<open>
  Start-up establishes the invariants. \<open>boot_wf b c s\<close> holds while container \<open>c\<close> is entered:
  the blocks of the containers before it are complete, its own block ends where the next
  region goes, and the later containers have none. The configuration is assumed to be one
  that the build can produce: access control tables as long as they say, sizes that the
  rounding macro of version 1 handles, and no grant of the registers of the protection unit.
\<close>

section \<open>Configurations\<close>

text \<open>What \<open>EMBARC_POW2_CEIL\<close> is defined for, when the build uses it.\<close>

definition size_ok :: "'b build_scheme \<Rightarrow> u32 \<Rightarrow> bool" where
  "size_ok b sz \<longleftrightarrow> secureshield_version b = 1 \<longrightarrow> 0 < sz \<and> sz \<le> 0x80000000"

definition item_ok :: "'b build_scheme \<Rightarrow> CONTAINER_AC_ITEM \<Rightarrow> bool" where
  "item_ok b item \<longleftrightarrow>
     (if has (ac_ac item) AC_IRQ \<or> has (ac_ac item) AC_INTERFACE then True
      else if has (ac_ac item) AC_AUX
      then \<forall>r. mpu_reg r \<longrightarrow> \<not> (ac_param1 item \<le> r \<and> r < ac_param1 item + ac_param2 item)
      else size_ok b (ac_param2 item))"

definition section_ok :: "'b build_scheme \<Rightarrow> u32 \<Rightarrow> u32 \<Rightarrow> bool" where
  "section_ok b p1 p2 \<longleftrightarrow> VMPU_REGION_SIZE p1 p2 = 0 \<or> size_ok b (VMPU_REGION_SIZE p1 p2)"

definition cfg_ok :: "'b build_scheme \<Rightarrow> CONTAINER_CONFIG \<Rightarrow> bool" where
  "cfg_ok b cfg \<longleftrightarrow>
     section_ok b (cc_text_start cfg) (cc_rodata_end cfg) \<and> section_ok b (cc_data_start cfg) (cc_bss_end cfg) \<and>
     (\<forall>tbl. cc_ac_table cfg = Some tbl \<longrightarrow> cc_ac_count cfg \<le> length tbl \<and> (\<forall>item \<in> set tbl. item_ok b item))"

definition config_ok :: "'b ss_build_scheme \<Rightarrow> bool" where
  "config_ok b \<longleftrightarrow>
     mpu_build_ok b \<and> cfgtbl b \<noteq> [] \<and> (\<forall>(_, cfg) \<in> set (cfgtbl b). cfg_ok b cfg) \<and>
     size_ok b (secure_rom_end b - secure_rom_start_cfg b) \<and> size_ok b (secure_ram_end b - secure_ram_start_cfg b)"

text \<open>
  The configurations whose blocks the unit can represent exactly. Only the claim that regions
  do not overlap depends on it.
\<close>

definition exact_item :: "'b build_scheme \<Rightarrow> CONTAINER_AC_ITEM \<Rightarrow> bool" where
  "exact_item b item \<longleftrightarrow>
     has (ac_ac item) AC_IRQ \<or> has (ac_ac item) AC_INTERFACE \<or> has (ac_ac item) AC_AUX \<or>
     block_exact b (ac_param1 item) (ac_param2 item) (ac_ac item)"

definition exact_section :: "'b build_scheme \<Rightarrow> u32 \<Rightarrow> u32 \<Rightarrow> bool" where
  "exact_section b p1 p2 \<longleftrightarrow> VMPU_REGION_SIZE p1 p2 = 0 \<or> block_exact b p1 (VMPU_REGION_SIZE p1 p2) 0"

definition exact_cfg :: "'b build_scheme \<Rightarrow> CONTAINER_CONFIG \<Rightarrow> bool" where
  "exact_cfg b cfg \<longleftrightarrow>
     (if secureshield_version b = 1 then exact_section b (cc_text_start cfg) (cc_rodata_end cfg)
      else exact_section b (cc_text_start cfg) (cc_text_end cfg) \<and>
           exact_section b (cc_rodata_start cfg) (cc_rodata_end cfg)) \<and>
     exact_section b (cc_data_start cfg) (cc_bss_end cfg) \<and>
     (\<forall>tbl. cc_ac_table cfg = Some tbl \<longrightarrow> (\<forall>item \<in> set tbl. exact_item b item))"

definition config_exact :: "'b ss_build_scheme \<Rightarrow> bool" where
  "config_exact b \<longleftrightarrow> unit_matches b \<and> (\<forall>(_, cfg) \<in> set (cfgtbl b). exact_cfg b cfg)"

section \<open>The invariant of start-up\<close>

definition block_end :: "nat option \<Rightarrow> nat \<Rightarrow> nat \<Rightarrow> bool" where
  "block_end block n bound \<longleftrightarrow> (case block of None \<Rightarrow> n = 0 | Some i \<Rightarrow> i + n = bound)"

text \<open>The blocks of different containers do not overlap: they are in the order of the containers.\<close>

definition blocks_apart :: "MPU_CONTAINER list \<Rightarrow> bool" where
  "blocks_apart cs \<longleftrightarrow>
     (\<forall>c1 c2 i j. c1 < c2 \<longrightarrow> c2 < SECURESHIELD_MAX_CONTAINERS \<longrightarrow> mc_region (cs ! c1) = Some i \<longrightarrow>
        mc_region (cs ! c2) = Some j \<longrightarrow> i + mc_count (cs ! c1) \<le> j)"

definition regions_wf :: "nat \<Rightarrow> ss_state \<Rightarrow> bool" where
  "regions_wf c s \<longleftrightarrow>
     mpu_tables_ok s \<and> blocks_apart (g_mpu_container s) \<and>
     (\<forall>c' < SECURESHIELD_MAX_CONTAINERS. c < c' \<longrightarrow> g_mpu_container s ! c' = \<lparr>mc_region = None, mc_count = 0\<rparr>) \<and>
     block_end (mc_region (g_mpu_container s ! c)) (mc_count (g_mpu_container s ! c)) (g_mpu_region_count s)"

definition interfaces_fresh :: "nat \<Rightarrow> ss_state \<Rightarrow> bool" where
  "interfaces_fresh c s \<longleftrightarrow>
     (\<forall>c' < SECURESHIELD_MAX_CONTAINERS. c < c' \<longrightarrow>
        g_interface_container s ! c' = \<lparr>ic_interface = None, ic_count = 0\<rparr>) \<and>
     block_end (ic_interface (g_interface_container s ! c)) (ic_count (g_interface_container s ! c)) (g_interface_count s)"

definition aux_fresh :: "nat \<Rightarrow> ss_state \<Rightarrow> bool" where
  "aux_fresh c s \<longleftrightarrow>
     (\<forall>c' < SECURESHIELD_MAX_CONTAINERS. c < c' \<longrightarrow> g_aux_container s ! c' = \<lparr>ax_aux = None, ax_count = 0\<rparr>) \<and>
     block_end (ax_aux (g_aux_container s ! c)) (ax_count (g_aux_container s ! c)) (g_aux_count s)"

definition boot_wf :: "'b ss_build_scheme \<Rightarrow> nat \<Rightarrow> ss_state \<Rightarrow> bool" where
  "boot_wf b c s \<longleftrightarrow>
     c < SECURESHIELD_MAX_CONTAINERS \<and> g_vmpu_container_count s = c + 1 \<and>
     regions_wf c s \<and> (config_exact b \<longrightarrow> regions_apart b (g_mpu_list s) (g_mpu_region_count s)) \<and>
     interfaces_wf s \<and> interfaces_fresh c s \<and> aux_wf s \<and> aux_fresh c s \<and> stack_wf s \<and> g_container_stack_ptr s = 0 \<and>
     g_active_container s = 0 \<and> g_container_stack_curr_id s = 0 \<and> g_mpu_slot s = ARC_MPU_RESERVED_REGIONS \<and>
     \<not> vmpu_load s \<and> length (g_container_context s) = SECURESHIELD_MAX_CONTAINERS \<and>
     (\<forall>c' \<le> c. cx_cfg (g_container_context s ! c') \<noteq> None) \<and>
     length (int_handler_table s) = num_exc_int b \<and> (\<forall>e \<in> set (int_handler_table s). ih_id e \<le> c)"

lemmas boot_defs = boot_wf_def regions_wf_def mpu_tables_ok_def interfaces_wf_def interfaces_fresh_def aux_wf_def
  aux_fresh_def stack_wf_def

lemma boot_more: "arc_core.more t = arc_core.more s \<Longrightarrow> boot_wf b c t \<longleftrightarrow> boot_wf b c s"
  unfolding boot_defs by (simp only: ss_fields_more [of t s])

lemma boot_core [simp]:
  "boot_wf b c (arc_aux_write r v s) = boot_wf b c s" "boot_wf b c (s\<lparr>memory := m\<rparr>) = boot_wf b c s"
  "boot_wf b c (callee_st b' f fld w s) = boot_wf b c s"
  by (rule boot_more, simp add: callee_st_def)+

lemma boot_sid_mask [simp]: "boot_wf b c (s\<lparr>g_secure_sid_mask := m\<rparr>) = boot_wf b c s"
  by (simp add: boot_defs)

lemma boot_set_context:
  assumes "boot_wf b c s" "\<And>x. cx_cfg x \<noteq> None \<Longrightarrow> cx_cfg (f x) \<noteq> None"
  shows "safe (boot_wf b c) (set_context c f s)"
  using assms by (auto simp: set_context_def boot_defs arr_get_def nth_list_update)

section \<open>Memory regions\<close>

lemma map_ac_safe: "safe (\<lambda>_. True) (vmpu_map_ac b ac)"
proof -
  have "safe (\<lambda>_. True) (if P then Inl Halt_ac_mismatch else Inr flags)" for P and flags :: u32
    by simp
  then show ?thesis
    unfolding vmpu_map_ac_def Let_def case_prod_beta .
qed

lemma pow2_ceil_defined: "0 < sz \<Longrightarrow> sz \<le> 0x80000000 \<Longrightarrow> embarc_pow2_ceil sz \<noteq> None"
proof -
  assume sz: "0 < sz" "sz \<le> 0x80000000"
  have "\<not> push_bit 31 1 < sz"
    using sz(2) by (simp add: not_less)
  then have "embarc_clz sz \<noteq> 0 \<or> \<not> push_bit (31 - embarc_clz sz) 1 < sz"
    by (cases "embarc_clz sz = 0") simp_all
  then show ?thesis
    using sz(1) by (auto simp: embarc_pow2_ceil_def)
qed

lemma update_region_v1_safe:
  assumes "0 < sz" "sz \<le> 0x80000000"
  shows "safe (\<lambda>_. True) (update_region_v1 b base sz ac)"
  using pow2_ceil_defined [OF assms] unfolding update_region_v1_def
  by (auto simp: Let_def intro!: safe_bind [where Q = "\<lambda>_. True"] map_ac_safe split: option.splits)

text \<open>Entering a region changes only the mask of secure identifiers before the region is stored.\<close>

definition sid_step :: "ss_state \<Rightarrow> ss_state \<Rightarrow> bool" where
  "sid_step s t \<longleftrightarrow> (\<exists>m. t = s\<lparr>g_secure_sid_mask := m\<rparr>)"

lemma sid_step_refl [simp]: "sid_step s s"
  unfolding sid_step_def by (rule exI [of _ "g_secure_sid_mask s"]) simp

lemma sid_step_mask [simp]: "sid_step s (s\<lparr>g_secure_sid_mask := m\<rparr>)"
  unfolding sid_step_def by blast

lemma region_sid_safe:
  assumes "c = 0 \<or> (\<exists>x. container_is_secure s c = Inr x)"
  shows "safe (\<lambda>(_, t). sid_step s t) (region_sid b c ac s)"
  using assms by (auto simp: region_sid_def Let_def)

lemma update_region_safe:
  assumes "c = 0 \<or> (\<exists>x. container_is_secure s c = Inr x)" "size_ok b sz"
  shows "safe (\<lambda>(_, t). sid_step s t) (vmpu_ac_update_container_region b c base sz ac s)"
proof (cases "secureshield_version b = 1")
  case True
  then show ?thesis
    using assms(2) unfolding vmpu_ac_update_container_region_def
    by (auto simp: size_ok_def intro!: safe_bind [OF update_region_v1_safe])
next
  case False
  then show ?thesis
    unfolding vmpu_ac_update_container_region_def update_region_v2_def
    by (auto intro!: safe_bind [OF map_ac_safe] safe_bind [OF region_sid_safe [OF assms(1)]])
qed

lemma boot_secure:
  "boot_wf b c s \<Longrightarrow> \<exists>x. container_is_secure s c = Inr x"
  by (auto simp: boot_wf_def container_is_secure_def arr_get_def)

lemma mem_region_checks_safe:
  assumes "mpu_tables_ok s"
  shows "safe (\<lambda>_. True) (mem_region_checks b s start end_addr ac)"
proof -
  have "\<exists>r. array_scan (region_conflicts start end_addr ac) (g_mpu_list s) 0 (g_mpu_region_count s) = Inr r"
    by (rule array_scan_defined) (use assms in \<open>simp add: mpu_tables_ok_def\<close>)
  then show ?thesis
    by (auto simp: mem_region_checks_def)
qed

lemma store_region_wf:
  assumes wf: "regions_wf c s" and c: "c < SECURESHIELD_MAX_CONTAINERS"
    and room: "g_mpu_region_count s < MPU_REGION_COUNT"
    and first: "first = (case mc_region (g_mpu_container s ! c) of None \<Rightarrow> g_mpu_region_count s | Some i \<Rightarrow> i)"
    and n: "n = mc_count (g_mpu_container s ! c)"
  shows "first + n = g_mpu_region_count s"
    "regions_wf c (s\<lparr>g_mpu_list := (g_mpu_list s)[first + n := r],
       g_mpu_container := (g_mpu_container s)[c := \<lparr>mc_region = Some first, mc_count = n + 1\<rparr>],
       g_mpu_region_count := g_mpu_region_count s + 1\<rparr>)"
proof -
  show eq: "first + n = g_mpu_region_count s"
    using wf first n by (auto simp: regions_wf_def block_end_def split: option.splits)
  have len: "length (g_mpu_container s) = SECURESHIELD_MAX_CONTAINERS"
    using wf by (simp add: regions_wf_def mpu_tables_ok_def)
  have old: "block_ok (mc_region (g_mpu_container s ! c')) (mc_count (g_mpu_container s ! c')) (Suc (g_mpu_region_count s))"
    if "c' < SECURESHIELD_MAX_CONTAINERS" for c'
    using wf that by (auto simp: regions_wf_def mpu_tables_ok_def block_ok_def split: option.splits)
  have blocks: "blocks_apart ((g_mpu_container s)[c := \<lparr>mc_region = Some first, mc_count = n + 1\<rparr>])"
    unfolding blocks_apart_def
  proof (intro allI impI)
    fix c1 c2 i j
    let ?cs = "(g_mpu_container s)[c := \<lparr>mc_region = Some first, mc_count = n + 1\<rparr>]"
    assume c12: "c1 < c2" "c2 < SECURESHIELD_MAX_CONTAINERS"
      and r: "mc_region (?cs ! c1) = Some i" "mc_region (?cs ! c2) = Some j"
    have b: "blocks_apart (g_mpu_container s)" "\<And>c'. c < c' \<Longrightarrow> c' < SECURESHIELD_MAX_CONTAINERS \<Longrightarrow>
        mc_region (g_mpu_container s ! c') = None"
      using wf by (simp_all add: regions_wf_def)
    have ends: "block_ok (mc_region (g_mpu_container s ! c1)) (mc_count (g_mpu_container s ! c1)) (g_mpu_region_count s)"
      using wf c12 by (simp add: regions_wf_def mpu_tables_ok_def)
    show "i + mc_count (?cs ! c1) \<le> j"
      using b c12 r ends first len unfolding blocks_apart_def
      by (cases "c1 = c"; cases "c2 = c") (auto simp: block_ok_def split: option.splits)
  qed
  show "regions_wf c (s\<lparr>g_mpu_list := (g_mpu_list s)[first + n := r],
       g_mpu_container := (g_mpu_container s)[c := \<lparr>mc_region = Some first, mc_count = n + 1\<rparr>],
       g_mpu_region_count := g_mpu_region_count s + 1\<rparr>)"
    using wf c room len eq old blocks
    by (auto simp: regions_wf_def mpu_tables_ok_def block_end_def block_ok_def nth_list_update)
qed

lemma stored_apart:
  assumes apart: "regions_apart b (g_mpu_list s) (g_mpu_region_count s)" and n: "g_mpu_region_count s < length (g_mpu_list s)"
    and chk: "mem_region_checks b s addr (addr + sz - 1) ac = Inr False"
    and upd: "vmpu_ac_update_container_region b c addr sz ac s = Inr (r, t)"
    and ex: "block_exact b addr sz ac" and u: "unit_matches b"
  shows "regions_apart b ((g_mpu_list s)[g_mpu_region_count s := r]) (Suc (g_mpu_region_count s))"
proof (rule store_apart [OF apart n])
  note r = update_region_exact [OF upd ex u]
  show "region_exact b r"
    by (rule r(4))
  have "0 < unat (mpu_alignment b)"
    by (simp add: unat_mpu_alignment)
  then have fit: "0 < unat sz" "unat addr + unat sz < 2 ^ 32"
    using ex by (auto simp: block_exact_def word_le_nat_alt)
  fix i a assume i: "i < g_mpu_region_count s" and sh: "\<not> both_shared r (g_mpu_list s ! i)"
  have "unat (rg_base (g_mpu_list s ! i)) + unat (rg_size (g_mpu_list s ! i)) < 2 ^ 32"
    using apart i by (simp add: regions_apart_def region_exact_def)
  then show "\<not> (region_in r a \<and> region_in (g_mpu_list s ! i) a)"
    by (rule no_conflict_apart [OF checks_passed [OF chk i] _ fit r(1-3) sh])
qed

lemma vmpu_ac_mem_safe:
  assumes wf: "boot_wf b c s" and sz: "size_ok b sz" and ex: "config_exact b \<Longrightarrow> block_exact b addr sz ac"
  shows "safe (boot_wf b c) (vmpu_ac_mem b c addr sz ac s)"
proof (cases "MPU_REGION_COUNT \<le> g_mpu_region_count s")
  case True
  then show ?thesis
    by (simp add: vmpu_ac_mem_def)
next
  case False
  then have room: "g_mpu_region_count s < MPU_REGION_COUNT"
    by simp
  have ok: "mpu_tables_ok s" "regions_wf c s" "c < SECURESHIELD_MAX_CONTAINERS"
    using wf by (simp_all add: boot_wf_def regions_wf_def)
  have len: "length (g_mpu_container s) = SECURESHIELD_MAX_CONTAINERS" "length (g_mpu_list s) = MPU_REGION_COUNT"
    using ok(1) by (simp_all add: mpu_tables_ok_def)
  let ?c = "g_mpu_container s ! c"
  let ?first = "case mc_region ?c of None \<Rightarrow> g_mpu_region_count s | Some i \<Rightarrow> i"
  note store = store_region_wf [OF ok(2,3) room refl refl]
  have fin: "boot_wf b c (t\<lparr>g_mpu_list := (g_mpu_list t)[?first + mc_count ?c := r],
      g_mpu_container := (g_mpu_container t)[c := ?c\<lparr>mc_region := Some ?first, mc_count := mc_count ?c + 1\<rparr>],
      g_mpu_region_count := g_mpu_region_count t + 1\<rparr>)"
    if chk: "mem_region_checks b s addr (addr + sz - 1) ac = Inr False"
      and upd: "vmpu_ac_update_container_region b c addr sz ac s = Inr (r, t)" and st: "sid_step s t" for t r
  proof -
    obtain m where t: "t = s\<lparr>g_secure_sid_mask := m\<rparr>"
      using st unfolding sid_step_def by blast
    have eq: "x\<lparr>mc_region := i, mc_count := n\<rparr> = \<lparr>mc_region = i, mc_count = n\<rparr>" for x :: MPU_CONTAINER and i n
      by simp
    have "regions_apart b ((g_mpu_list s)[g_mpu_region_count s := r]) (Suc (g_mpu_region_count s))" if E: "config_exact b"
      by (rule stored_apart [OF _ _ chk upd ex [OF E]]) (use wf E room len in \<open>auto simp: boot_wf_def config_exact_def\<close>)
    then show ?thesis
      using wf store(2) [of r] store(1) unfolding t eq
      by (simp add: boot_defs)
  qed
  have "safe (boot_wf b c) (res_bind (vmpu_ac_update_container_region b c addr sz ac s) (\<lambda>(region, s).
      Inr (s\<lparr>g_mpu_list := (g_mpu_list s)[?first + mc_count ?c := region],
        g_mpu_container := (g_mpu_container s)[c := ?c\<lparr>mc_region := Some ?first, mc_count := mc_count ?c + 1\<rparr>],
        g_mpu_region_count := g_mpu_region_count s + 1\<rparr>)))"
    if "mem_region_checks b s addr (addr + sz - 1) ac = Inr False"
    by (rule safe_bind [OF update_region_safe [OF disjI2 [OF boot_secure [OF wf]] sz]]) (use fin [OF that] in auto)
  note fin' = this [unfolded store(1), unfolded Suc_eq_plus1 [symmetric]]
  show ?thesis
    unfolding vmpu_ac_mem_def Let_def using False room store(1) len ok(3) fin'
    by (auto simp: arr_get_def intro!: safe_bind [OF mem_region_checks_safe [OF ok(1)]])
qed

section \<open>Interfaces, auxiliary registers and interrupts\<close>

lemma ac_interface_safe:
  assumes wf: "boot_wf b c s"
  shows "safe (boot_wf b c) (vmpu_ac_interface c func args_num s)"
proof (cases "c = 0 \<or> CONTAINER_INTERFACE_COUNT \<le> g_interface_count s")
  case True
  then show ?thesis
    by (auto simp: vmpu_ac_interface_def)
next
  case False
  let ?c = "g_interface_container s ! c"
  let ?first = "case ic_interface ?c of None \<Rightarrow> g_interface_count s | Some i \<Rightarrow> i"
  have ok: "interfaces_wf s" "interfaces_fresh c s" "c < SECURESHIELD_MAX_CONTAINERS"
    using wf by (simp_all add: boot_wf_def)
  have len: "length (g_interface_container s) = SECURESHIELD_MAX_CONTAINERS" "length (g_interface_list s) = CONTAINER_INTERFACE_COUNT"
    using ok(1) by (simp_all add: interfaces_wf_def)
  have index: "?first + ic_count ?c = g_interface_count s"
    using ok(2) by (auto simp: interfaces_fresh_def block_end_def split: option.splits)
  have eq: "x\<lparr>ic_interface := i, ic_count := n\<rparr> = \<lparr>ic_interface = i, ic_count = n\<rparr>" for x :: INTERFACE_CONTAINER and i n
    by simp
  have "interfaces_wf (s\<lparr>g_interface_list := xs, g_interface_container := (g_interface_container s)
        [c := \<lparr>ic_interface = Some ?first, ic_count = ic_count ?c + 1\<rparr>], g_interface_count := g_interface_count s + 1\<rparr>)
      \<and> interfaces_fresh c (s\<lparr>g_interface_list := xs, g_interface_container := (g_interface_container s)
        [c := \<lparr>ic_interface = Some ?first, ic_count = ic_count ?c + 1\<rparr>], g_interface_count := g_interface_count s + 1\<rparr>)"
    if "length xs = CONTAINER_INTERFACE_COUNT" for xs
    using that ok index False len
    by (auto simp: interfaces_wf_def interfaces_fresh_def block_ok_def block_end_def nth_list_update)
  then have "boot_wf b c (s\<lparr>g_interface_list := xs, g_interface_container := (g_interface_container s)
        [c := ?c\<lparr>ic_interface := Some ?first, ic_count := ic_count ?c + 1\<rparr>], g_interface_count := g_interface_count s + 1\<rparr>)"
    if "length xs = CONTAINER_INTERFACE_COUNT" for xs
    using that wf unfolding eq by (simp add: boot_wf_def regions_wf_def mpu_tables_ok_def aux_wf_def aux_fresh_def stack_wf_def)
  then show ?thesis
    unfolding vmpu_ac_interface_def Let_def using False index len ok(3) by (auto simp: arr_get_def arr_set_def)
qed

lemma ac_aux_safe:
  assumes wf: "boot_wf b c s" and no: "\<And>r. mpu_reg r \<Longrightarrow> \<not> (start \<le> r \<and> r < start + sz)"
  shows "safe (\<lambda>(_, t). boot_wf b c t) (vmpu_ac_aux c start sz s)"
proof (cases "CONTAINER_AUX_COUNT \<le> g_aux_count s")
  case True
  then show ?thesis
    using wf by (simp add: vmpu_ac_aux_def)
next
  case False
  let ?c = "g_aux_container s ! c"
  let ?first = "case ax_aux ?c of None \<Rightarrow> g_aux_count s | Some i \<Rightarrow> i"
  let ?xs = "(g_aux_list s)[g_aux_count s := \<lparr>ca_start = start, ca_end = start + sz\<rparr>]"
  have ok: "aux_wf s" "aux_fresh c s" "c < SECURESHIELD_MAX_CONTAINERS"
    using wf by (simp_all add: boot_wf_def)
  have len: "length (g_aux_container s) = SECURESHIELD_MAX_CONTAINERS" "length (g_aux_list s) = CONTAINER_AUX_COUNT"
    using ok(1) by (simp_all add: aux_wf_def)
  have index: "?first + ax_count ?c = g_aux_count s"
    using ok(2) by (auto simp: aux_fresh_def block_end_def split: option.splits)
  have eq: "x\<lparr>ax_aux := i, ax_count := n\<rparr> = \<lparr>ax_aux = i, ax_count = n\<rparr>" for x :: AUX_CONTAINER and i n
    by simp
  have grants: "\<forall>g \<in> set ?xs. \<forall>r. mpu_reg r \<longrightarrow> \<not> aux_grants r g"
    using ok(1) no by (auto simp: aux_wf_def aux_grants_def dest!: subsetD [OF set_update_subset_insert])
  let ?t = "s\<lparr>g_aux_list := ?xs, g_aux_container := (g_aux_container s)
        [c := \<lparr>ax_aux = Some ?first, ax_count = ax_count ?c + 1\<rparr>], g_aux_count := g_aux_count s + 1\<rparr>"
  have "aux_wf ?t" "aux_fresh c ?t"
    using ok index False len grants
    by (auto simp: aux_wf_def aux_fresh_def block_ok_def block_end_def nth_list_update)
  then have "boot_wf b c ?t"
    using wf by (simp add: boot_wf_def regions_wf_def mpu_tables_ok_def interfaces_wf_def interfaces_fresh_def stack_wf_def)
  then show ?thesis
    unfolding vmpu_ac_aux_def Let_def using False index len ok(3) by (simp add: arr_get_def arr_set_def eq)
qed

lemma boot_int_secure_set [simp]: "boot_wf b c (arc_int_secure_set i v s) = boot_wf b c s"
  by (simp add: arc_int_secure_set_def Let_def)

lemma ac_irq_safe:
  assumes wf: "boot_wf b c s"
  shows "safe (\<lambda>(_, t). boot_wf b c t) (vmpu_ac_irq b c handler intno s)"
proof (cases "secure_int_default_check b intno")
  case True
  have h: "handlers_wf b s"
    using wf by (auto simp: boot_wf_def handlers_wf_def)
  have "boot_wf b c (set_int_entry intno e s)" if "ih_id e = c" for e
    using wf that by (auto simp: boot_defs set_int_entry_def dest!: subsetD [OF set_update_subset_insert])
  then show ?thesis
    using True wf by (auto simp: vmpu_ac_irq_def Let_def intro!: safe_bind [OF int_entry_safe [OF h True]])
next
  case False
  then show ?thesis
    using wf by (simp add: vmpu_ac_irq_def)
qed

section \<open>Entering the containers\<close>

lemma setup_ac_item_safe:
  assumes wf: "boot_wf b c s" and item: "item_ok b item" and ex: "config_exact b \<Longrightarrow> exact_item b item"
  shows "safe (boot_wf b c) (setup_ac_item b c item s)"
proof -
  have irq: "safe (boot_wf b c) (res_bind (vmpu_ac_irq b c p1 p2 s) (\<lambda>(_, s). Inr s))" for p1 p2
    by (rule safe_bind [OF ac_irq_safe [OF wf]]) auto
  have aux: "safe (boot_wf b c) (res_bind (vmpu_ac_aux c p1 p2 s) (\<lambda>(_, s). Inr s))"
    if "\<And>r. mpu_reg r \<Longrightarrow> \<not> (p1 \<le> r \<and> r < p1 + p2)" for p1 p2
    by (rule safe_bind [OF ac_aux_safe [OF wf that]]) auto
  show ?thesis
    using item ex unfolding setup_ac_item_def item_ok_def exact_item_def
    by (auto intro!: irq aux ac_interface_safe [OF wf] vmpu_ac_mem_safe [OF wf] split: if_splits)
qed

lemma setup_ac_table_safe:
  assumes "boot_wf b c s" "\<forall>item \<in> set tbl. item_ok b item" "i + n \<le> length tbl"
    and "\<And>item. config_exact b \<Longrightarrow> item \<in> set tbl \<Longrightarrow> exact_item b item"
  shows "safe (boot_wf b c) (setup_ac_table b c tbl i n s)"
  using assms(1-3)
proof (induction n arbitrary: i s)
  case (Suc n)
  have i: "i < length tbl" "tbl ! i \<in> set tbl"
    using Suc.prems(3) by simp_all
  have "safe (boot_wf b c) (setup_ac_item b c (tbl ! i) s)"
    by (rule setup_ac_item_safe [OF Suc.prems(1)]) (use Suc.prems(2) assms(4) i(2) in blast)+
  then show ?case
    using Suc.prems(2,3) i(1) by (simp add: arr_get_def) (erule safe_bind, rule Suc.IH, simp_all)
qed simp

lemma block_exact_section: "block_exact b p sz 0 \<Longrightarrow> \<not> has ac AC_SIZE_ROUND_UP \<Longrightarrow> block_exact b p sz ac"
  by (simp add: block_exact_def)

lemma ac_section_safe:
  assumes "boot_wf b c s" "section_ok b p1 p2" "config_exact b \<Longrightarrow> exact_section b p1 p2"
    and "\<not> has ac AC_SIZE_ROUND_UP"
  shows "safe (boot_wf b c) (ac_section b c p1 p2 ac s)"
  using assms block_exact_section [OF _ assms(4), of b p1 "VMPU_REGION_SIZE p1 p2"]
  by (auto simp: ac_section_def section_ok_def exact_section_def Let_def intro!: vmpu_ac_mem_safe)

lemma ac_data_safe:
  assumes "boot_wf b c s" "section_ok b (cc_data_start cfg) (cc_bss_end cfg)"
    and "config_exact b \<Longrightarrow> exact_section b (cc_data_start cfg) (cc_bss_end cfg)" "\<not> has ac AC_SIZE_ROUND_UP"
  shows "safe (boot_wf b c) (ac_data b c cfg ac s)"
  using assms block_exact_section [OF _ assms(4), of b "cc_data_start cfg" "VMPU_REGION_SIZE (cc_data_start cfg) (cc_bss_end cfg)"]
  by (auto simp: ac_data_def section_ok_def exact_section_def Let_def intro!: safe_bind [OF vmpu_ac_mem_safe])

text \<open>Between two containers: \<open>n\<close> containers have been entered.\<close>

definition boot_before :: "'b ss_build_scheme \<Rightarrow> nat \<Rightarrow> ss_state \<Rightarrow> bool" where
  "boot_before b n s \<longleftrightarrow>
     n \<le> SECURESHIELD_MAX_CONTAINERS \<and> g_vmpu_container_count s = n \<and>
     mpu_tables_ok s \<and> blocks_apart (g_mpu_container s) \<and>
     (config_exact b \<longrightarrow> regions_apart b (g_mpu_list s) (g_mpu_region_count s)) \<and>
     interfaces_wf s \<and> aux_wf s \<and> stack_wf s \<and> g_container_stack_ptr s = 0 \<and>
     (\<forall>c < SECURESHIELD_MAX_CONTAINERS. n \<le> c \<longrightarrow>
        g_mpu_container s ! c = \<lparr>mc_region = None, mc_count = 0\<rparr> \<and>
        g_interface_container s ! c = \<lparr>ic_interface = None, ic_count = 0\<rparr> \<and>
        g_aux_container s ! c = \<lparr>ax_aux = None, ax_count = 0\<rparr>) \<and>
     g_active_container s = 0 \<and> g_container_stack_curr_id s = 0 \<and> g_mpu_slot s = ARC_MPU_RESERVED_REGIONS \<and>
     \<not> vmpu_load s \<and> length (g_container_context s) = SECURESHIELD_MAX_CONTAINERS \<and>
     (\<forall>c < n. cx_cfg (g_container_context s ! c) \<noteq> None) \<and>
     length (int_handler_table s) = num_exc_int b \<and> (\<forall>e \<in> set (int_handler_table s). ih_id e \<le> n - 1)"

lemma boot_wf_before: "boot_wf b c s \<Longrightarrow> boot_before b (c + 1) s"
  by (simp add: boot_defs boot_before_def Suc_le_eq less_Suc_eq_le)

lemma boot_enter:
  assumes "boot_before b n s" "n < SECURESHIELD_MAX_CONTAINERS" "\<And>x. cx_cfg (f x) \<noteq> None"
  shows "safe (boot_wf b n) (set_context n f (s\<lparr>g_vmpu_container_count := n + 1\<rparr>))"
proof -
  let ?ctx = "(g_container_context s)[n := f (g_container_context s ! n)]"
  have "cx_cfg (?ctx ! c) \<noteq> None" if "c \<le> n" for c
    using assms that by (cases "c = n") (auto simp: boot_before_def)
  moreover have "\<forall>e \<in> set (int_handler_table s). ih_id e \<le> n"
    using assms(1) by (force simp: boot_before_def)
  ultimately have "boot_wf b n (s\<lparr>g_vmpu_container_count := n + 1, g_container_context := ?ctx\<rparr>)"
    using assms(1,2) by (simp add: boot_defs boot_before_def block_end_def)
  moreover have "n < length (g_container_context s)"
    using assms(1,2) by (simp add: boot_before_def)
  ultimately show ?thesis
    by (simp add: set_context_def arr_get_def)
qed

lemma boot_context_safe:
  "boot_wf b c s \<Longrightarrow> safe (\<lambda>_. True) (get_or_undef (arr_get (g_container_context s) 0))"
  by (simp add: boot_wf_def arr_get_def)

lemma ac_container_v1_safe:
  assumes before: "boot_before b n s" and n: "n < SECURESHIELD_MAX_CONTAINERS" and cfg: "cfg_ok b cfg"
    and ex: "config_exact b \<Longrightarrow> exact_cfg b cfg" and v: "secureshield_version b = 1"
  shows "safe (boot_wf b n) (vmpu_ac_container_v1 b n cfg (s\<lparr>g_vmpu_container_count := n + 1\<rparr>))"
proof -
  have sec: "section_ok b (cc_text_start cfg) (cc_rodata_end cfg)" "section_ok b (cc_data_start cfg) (cc_bss_end cfg)"
    using cfg by (simp_all add: cfg_ok_def)
  have exs: "exact_section b (cc_text_start cfg) (cc_rodata_end cfg)" "exact_section b (cc_data_start cfg) (cc_bss_end cfg)"
    if "config_exact b"
    using ex [OF that] v by (simp_all add: exact_cfg_def)
  have ctx: "safe (boot_wf b n) (set_context n (\<lambda>c. c\<lparr>cx_cur_sp := v\<rparr>) t)"
      "safe (boot_wf b n) (set_context n (\<lambda>c. c\<lparr>cx_normal_sp := w, cx_cur_sp := v\<rparr>) t)"
    if "boot_wf b n t" for t v w
    using boot_set_context [OF that] by simp_all
  have enter: "safe (boot_wf b n) (set_context n (\<lambda>c. c\<lparr>cx_cpu_status := st, cx_cfg := Some cfg\<rparr>)
      (s\<lparr>g_vmpu_container_count := n + 1\<rparr>))" for st
    by (rule boot_enter [OF before n]) simp
  show ?thesis
    unfolding vmpu_ac_container_v1_def Let_def
    by (auto intro!: safe_bind [OF enter [unfolded Suc_eq_plus1 [symmetric]]] safe_bind [OF ac_section_safe [OF _ sec(1) exs(1)]]
        safe_bind [OF ac_data_safe [OF _ sec(2) exs(2)]] safe_bind [OF boot_context_safe] ctx simp: has_def)
qed

lemma ac_container_v2_safe:
  assumes before: "boot_before b n s" and n: "n < SECURESHIELD_MAX_CONTAINERS" and v: "secureshield_version b \<noteq> 1"
    and ex: "config_exact b \<Longrightarrow> exact_cfg b cfg"
  shows "safe (boot_wf b n) (vmpu_ac_container_v2 b n cfg (s\<lparr>g_vmpu_container_count := n + 1\<rparr>))"
proof -
  have sec: "section_ok b p q" for p q
    using v by (simp add: section_ok_def size_ok_def)
  have exs: "exact_section b (cc_text_start cfg) (cc_text_end cfg)" "exact_section b (cc_rodata_start cfg) (cc_rodata_end cfg)"
      "exact_section b (cc_data_start cfg) (cc_bss_end cfg)" if "config_exact b"
    using ex [OF that] v by (simp_all add: exact_cfg_def)
  have ctx: "safe (boot_wf b n) (set_context n (\<lambda>c. c\<lparr>cx_cur_sp := v\<rparr>) t)"
      "safe (boot_wf b n) (set_context n (\<lambda>c. c\<lparr>cx_normal_sp := w, cx_cur_sp := v\<rparr>) t)"
    if "boot_wf b n t" for t v w
    using boot_set_context [OF that] by simp_all
  have enter: "safe (boot_wf b n) (set_context n (\<lambda>c. c\<lparr>cx_cfg := Some cfg\<rparr>) (s\<lparr>g_vmpu_container_count := n + 1\<rparr>))"
    by (rule boot_enter [OF before n]) simp
  show ?thesis
    unfolding vmpu_ac_container_v2_def Let_def
    by (auto intro!: safe_bind [OF enter [unfolded Suc_eq_plus1 [symmetric]]] safe_bind [OF ac_section_safe [OF _ sec exs(1)]]
        safe_bind [OF ac_section_safe [OF _ sec exs(2)]] safe_bind [OF ac_data_safe [OF _ sec exs(3)]] ctx simp: has_def)
qed

lemma setup_container_safe:
  assumes before: "boot_before b n s" and cfg: "cfg_ok b cfg" and ex: "config_exact b \<Longrightarrow> exact_cfg b cfg"
  shows "safe (boot_before b (n + 1)) (setup_container b (addr, cfg) s)"
proof (cases "n < SECURESHIELD_MAX_CONTAINERS")
  case True
  have id: "g_vmpu_container_count s = n"
    using before by (simp add: boot_before_def)
  have c: "safe (boot_wf b n) (vmpu_ac_container b n cfg (s\<lparr>g_vmpu_container_count := n + 1\<rparr>))"
    using ac_container_v1_safe [OF before True cfg ex] ac_container_v2_safe [OF before True _ ex]
    by (simp add: vmpu_ac_container_def)
  have "safe (boot_before b (n + 1)) (setup_ac_table b n tbl 0 (cc_ac_count cfg) t)"
    if "cc_ac_table cfg = Some tbl" "boot_wf b n t" for tbl t
    by (rule safe_mono [OF setup_ac_table_safe [OF that(2)]]) (use cfg ex that boot_wf_before in \<open>auto simp: cfg_ok_def exact_cfg_def\<close>)
  moreover have "boot_before b (n + 1) t" if "boot_wf b n t" for t
    using boot_wf_before [OF that] .
  ultimately show ?thesis
    using True unfolding setup_container_def Let_def prod.case id
    by (auto intro!: safe_bind [OF c [unfolded Suc_eq_plus1 [symmetric]]] split: option.splits)
next
  case False
  then show ?thesis
    using before by (simp add: setup_container_def Let_def boot_before_def)
qed

lemma setup_containers_safe:
  assumes "boot_before b 0 (s\<lparr>g_vmpu_container_count := 0\<rparr>)" "\<forall>(_, cfg) \<in> set (cfgtbl b). cfg_ok b cfg"
  shows "safe (boot_before b (length (cfgtbl b))) (vmpu_setup_containers b s)"
proof -
  have "safe (boot_before b (n + length tbl)) (res_fold (setup_container b) tbl t)"
    if "\<forall>(_, cfg) \<in> set tbl. cfg_ok b cfg" "boot_before b n t" "set tbl \<subseteq> set (cfgtbl b)" for tbl n t
    using that
  proof (induction tbl arbitrary: n t)
    case (Cons x tbl)
    obtain addr cfg where x: "x = (addr, cfg)"
      by (cases x)
    have "safe (boot_before b (n + 1)) (setup_container b x t)"
      unfolding x by (rule setup_container_safe) (use Cons.prems x in \<open>auto simp: config_exact_def\<close>)
    then show ?case
      using Cons.IH [of "n + 1"] Cons.prems by (auto intro!: safe_bind)
  qed simp
  from this [OF assms(2,1) subset_refl] show ?thesis
    by (simp add: vmpu_setup_containers_def)
qed

section \<open>Loading the background container\<close>

definition booted :: "'b ss_build_scheme \<Rightarrow> ss_state \<Rightarrow> bool" where
  "booted b t \<longleftrightarrow> ss_inv b t \<and> ids_agree t \<and> g_container_stack_ptr t = 0 \<and> g_active_container t = 0 \<and>
     g_vmpu_container_count t = length (cfgtbl b) \<and>
     (config_exact b \<longrightarrow> \<not> ss_sid b \<longrightarrow> regions_apart b (g_mpu_list t) (g_mpu_region_count t)) \<and>
     blocks_apart (g_mpu_container t)"

lemma before_wf:
  assumes "boot_before b n s" "0 < n" "arc_core.more t = arc_core.more s'"
    and "if ss_sid b then vmpu_load s' else g_mpu_region_count s' \<noteq> 0" "2 \<le> g_mpu_slot s'"
    and "g_vmpu_container_count s' = n" "length (g_mpu_list s') = length (g_mpu_list s)"
      "g_mpu_container s' = g_mpu_container s" "g_mpu_region_count s' = g_mpu_region_count s"
      "g_container_stack s' = g_container_stack s" "g_container_stack_ptr s' = g_container_stack_ptr s"
      "g_active_container s' = 0" "g_container_stack_curr_id s' = 0" "g_container_context s' = g_container_context s"
      "g_interface_list s' = g_interface_list s" "g_interface_container s' = g_interface_container s"
      "g_aux_list s' = g_aux_list s" "g_aux_container s' = g_aux_container s"
      "int_handler_table s' = int_handler_table s"
  shows "ss_wf b t"
proof -
  have "\<forall>e \<in> set (int_handler_table s). ih_id e < n"
    using assms(1,2) by (fastforce simp: boot_before_def)
  then have "ss_wf b s'"
    using assms by (simp add: wf_defs boot_before_def)
  then show ?thesis
    using more_wf [OF assms(3)] by blast
qed

lemma load_unit:
  assumes b: "mpu_build_ok b" and before: "boot_before b n s" and n: "0 < n" and sid: "\<not> ss_sid b"
  shows "safe (\<lambda>t. ss_inv b t \<and> ids_agree t \<and> g_container_stack_ptr t = 0 \<and> g_active_container t = 0 \<and>
      g_vmpu_container_count t = n \<and> same_entries b 2 s t \<and>
      (config_exact b \<longrightarrow> regions_apart b (g_mpu_list t) (g_mpu_region_count t)) \<and> blocks_apart (g_mpu_container t))
    (vmpu_load_container b 0 s)"
proof (cases "g_mpu_region_count s = 0")
  case True
  then show ?thesis
    using sid by (simp add: vmpu_load_container_def vmpu_switch_def vmpu_switch_load_def)
next
  case False
  have ok: "mpu_tables_ok s" "(0 :: nat) < SECURESHIELD_MAX_CONTAINERS" "g_vmpu_container_count s = n"
      "g_container_stack_ptr s = 0" "g_container_stack_curr_id s = 0"
    using before by (simp_all add: boot_before_def)
  from vmpu_switch_load_spec [OF b ok(1,2) False] obtain t k where
    t: "vmpu_switch_load b 0 s = Inr t"
      "arc_core.more t = arc_core.more (s\<lparr>g_active_container := 0, g_mpu_slot := k\<rparr>)"
      "2 \<le> k" "unit_loaded b t (switch_regions s 0)" "\<forall>j < 2. mpu_entry b t j = mpu_entry b s j"
    by blast
  note f = ss_fields_more [OF t(2), simplified]
  have same: "same_tables s t"
    by (simp add: same_tables_def f)
  have "0 < g_vmpu_container_count s"
    using n ok(3) by simp
  then have "mpu_confined b t"
    unfolding mpu_confined_def using entry_allowed [OF t(4) _ _ _ same f(2)] by blast
  moreover have "ss_wf b t"
    by (rule before_wf [OF before n t(2)]) (use False sid t(3) ok in simp_all)
  ultimately show ?thesis
    using t(1,5) f ok sid before [unfolded boot_before_def]
    by (simp add: vmpu_load_container_def vmpu_switch_def ss_inv_def ids_agree_def same_entries_def)
qed

lemma sid_load_safe:
  assumes "i + n \<le> length (g_mpu_list s)"
  shows "safe (\<lambda>t. \<exists>xs. length xs = length (g_mpu_list s) \<and> arc_core.more t = arc_core.more (s\<lparr>g_mpu_list := xs\<rparr>))
    (sid_load b i n s)"
  using assms
proof (induction n arbitrary: i s)
  case 0
  show ?case
    by (simp, rule exI [of _ "g_mpu_list s"]) simp
next
  case (Suc n)
  let ?r = "g_mpu_list s ! i"
  let ?r' = "if \<not> has (rg_attr ?r) (AUX_MPU_ATTR_S OR AUX_MPU_ATTR_KE OR AUX_MPU_ATTR_UE)
    then ?r\<lparr>rg_attr := rg_attr ?r OR push_bit 16 (g_secure_sid_mask s)\<rparr> else ?r"
  let ?s = "s\<lparr>g_mpu_list := (g_mpu_list s)[i := ?r']\<rparr>"
  let ?t = "arc_mpu_region_config b (i + 2) (rg_base ?r') (rg_size ?r') (rg_attr ?r') ?s"
  have more: "arc_core.more ?t = arc_core.more ?s"
    by simp
  have "safe (\<lambda>t. \<exists>xs. length xs = length (g_mpu_list ?t) \<and> arc_core.more t = arc_core.more (?t\<lparr>g_mpu_list := xs\<rparr>))
      (sid_load b (i + 1) n ?t)"
    using Suc.prems by (intro Suc.IH) simp
  moreover have "arc_core.more (?t\<lparr>g_mpu_list := xs\<rparr>) = arc_core.more (s\<lparr>g_mpu_list := xs\<rparr>)" for xs
    using more by (cases ?t; cases s) simp
  moreover have "length (g_mpu_list ?t) = length (g_mpu_list s)"
    by simp
  ultimately have "safe (\<lambda>t. \<exists>xs. length xs = length (g_mpu_list s) \<and> arc_core.more t = arc_core.more (s\<lparr>g_mpu_list := xs\<rparr>))
      (sid_load b (i + 1) n ?t)"
    by simp
  then show ?case
    using Suc.prems by (simp add: arr_get_def Let_def)
qed

lemma load_sid:
  assumes before: "boot_before b n s" and n: "0 < n" and sid: "ss_sid b"
  shows "safe (\<lambda>t. ss_inv b t \<and> ids_agree t \<and> g_container_stack_ptr t = 0 \<and> g_active_container t = 0 \<and>
      g_vmpu_container_count t = n \<and> blocks_apart (g_mpu_container t))
    (vmpu_load_container b 0 s)"
proof -
  let ?s = "s\<lparr>g_active_container := 0\<rparr>"
  have ok: "\<not> vmpu_load s" "0 + g_mpu_region_count s \<le> length (g_mpu_list ?s)"
      "g_vmpu_container_count s = n" "g_container_stack_ptr s = 0" "g_container_stack_curr_id s = 0" "g_mpu_slot s = 2"
    using before by (simp_all add: boot_before_def mpu_tables_ok_def)
  have "safe (\<lambda>t. ss_inv b t \<and> ids_agree t \<and> g_container_stack_ptr t = 0 \<and> g_active_container t = 0 \<and>
      g_vmpu_container_count t = n \<and> blocks_apart (g_mpu_container t))
    (res_bind (sid_load b 0 (g_mpu_region_count s) ?s) (\<lambda>s. Inr (s\<lparr>vmpu_load := True\<rparr>)))"
  proof (rule safe_bind [OF sid_load_safe [OF ok(2)]], elim exE conjE)
    fix t xs assume t: "length xs = length (g_mpu_list ?s)" "arc_core.more t = arc_core.more (?s\<lparr>g_mpu_list := xs\<rparr>)"
    have more: "arc_core.more (t\<lparr>vmpu_load := True\<rparr>) = arc_core.more (?s\<lparr>g_mpu_list := xs, vmpu_load := True\<rparr>)"
      using t(2) by (cases t; cases s) simp
    note f = ss_fields_more [OF more, simplified]
    have "ss_wf b (t\<lparr>vmpu_load := True\<rparr>)"
      by (rule before_wf [OF before n more]) (use t(1) sid ok in simp_all)
    then show "safe (\<lambda>t. ss_inv b t \<and> ids_agree t \<and> g_container_stack_ptr t = 0 \<and> g_active_container t = 0 \<and>
        g_vmpu_container_count t = n \<and> blocks_apart (g_mpu_container t)) (Inr (t\<lparr>vmpu_load := True\<rparr>))"
      using sid ok f before [unfolded boot_before_def] by (simp add: ss_inv_def ids_agree_def)
  qed
  then show ?thesis
    using sid ok(1) by (simp add: vmpu_load_container_def vmpu_switch_def vmpu_switch_sid_def Let_def)
qed

section \<open>Initialisation\<close>

lemma int_init_one_more: "arc_core.more (int_init_one b i s) = arc_core.more s"
  by (simp add: int_init_one_def Let_def)

lemma int_init_fold_more: "arc_core.more (fold (int_init_one b) is s) = arc_core.more s"
  by (induction "is" arbitrary: s) (simp_all add: int_init_one_more)

lemma int_init_more: "arc_core.more (secureshield_int_init b s) = arc_core.more s"
  by (simp add: secureshield_int_init_def Let_def int_init_fold_more arc_int_ipm_set_def)

lemma boot_before_more:
  assumes "arc_core.more t = arc_core.more s"
  shows "boot_before b n (t\<lparr>g_vmpu_container_count := m\<rparr>) \<longleftrightarrow> boot_before b n (s\<lparr>g_vmpu_container_count := m\<rparr>)"
  using ss_fields_more [OF assms]
  by (simp add: boot_before_def mpu_tables_ok_def interfaces_wf_def aux_wf_def stack_wf_def)

lemma cleared_before:
  assumes "ss_cleared b s"
  shows "boot_before b 0 (s\<lparr>g_mpu_slot := 2, g_secure_sid_mask := m, g_vmpu_container_count := 0\<rparr>)"
  using assms by (simp add: ss_cleared_def boot_before_def mpu_tables_ok_def interfaces_wf_def aux_wf_def
      stack_wf_def block_ok_def aux_grants_def blocks_apart_def)

lemma static_region_safe:
  assumes "size_ok b sz"
  shows "safe (\<lambda>(_, t). \<exists>m. arc_core.more t = arc_core.more (s\<lparr>g_secure_sid_mask := m\<rparr>))
    (vmpu_ac_static_region b i base sz ac s)"
proof (cases "mpu_regions b \<le> i")
  case True
  then show ?thesis
    by (simp add: vmpu_ac_static_region_def) (rule exI [of _ "g_secure_sid_mask s"], simp)
next
  case False
  have "safe (\<lambda>(_, t). \<exists>m. arc_core.more t = arc_core.more (s\<lparr>g_secure_sid_mask := m\<rparr>))
      (case x of (res, s) \<Rightarrow> Inr (rg_size res, arc_mpu_region_config b i (rg_base res) (rg_size res) (rg_attr res) s))"
    if st: "case x of (_, t) \<Rightarrow> sid_step s t" for x
  proof -
    obtain r m where "x = (r, s\<lparr>g_secure_sid_mask := m\<rparr>)"
      using st unfolding sid_step_def by (cases x) auto
    then show ?thesis
      by auto
  qed
  then show ?thesis
    using False unfolding vmpu_ac_static_region_def
    by (auto intro!: safe_bind [OF update_region_safe [OF disjI1 [OF refl] assms]])
qed

lemma arch_init_safe:
  assumes "size_ok b (secure_rom_end b - secure_rom_start_cfg b)" "size_ok b (secure_ram_end b - secure_ram_start_cfg b)"
  shows "safe (\<lambda>t. \<exists>m. arc_core.more t = arc_core.more (s\<lparr>g_mpu_slot := 2, g_secure_sid_mask := m\<rparr>)) (vmpu_arch_init b s)"
proof -
  let ?s = "if secureshield_version b = 2 then sjli_init b (s\<lparr>g_mpu_slot := 2\<rparr>) else s\<lparr>g_mpu_slot := 2\<rparr>"
  have s: "arc_core.more ?s = arc_core.more (s\<lparr>g_mpu_slot := 2\<rparr>)"
    by (simp add: sjli_init_def)
  have mask_twice: "u\<lparr>g_secure_sid_mask := m, g_secure_sid_mask := m'\<rparr> = u\<lparr>g_secure_sid_mask := m'\<rparr>"
    for u :: ss_state and m m'
    by simp
  have upd: "arc_core.more (t\<lparr>g_secure_sid_mask := m\<rparr>) = arc_core.more (u\<lparr>g_secure_sid_mask := m\<rparr>)"
    if "arc_core.more t = arc_core.more u" for t u :: ss_state and m
    using that by (cases t; cases u) simp
  show ?thesis
    unfolding vmpu_arch_init_def Let_def
  proof (rule safe_bind [OF static_region_safe [OF assms(1)]], goal_cases)
    case (1 x)
    then obtain y t m where x: "x = (y, t)" "arc_core.more t = arc_core.more (?s\<lparr>g_secure_sid_mask := m\<rparr>)"
      by (cases x) auto
    show ?case
      unfolding x(1) prod.case
    proof (rule safe_bind [OF static_region_safe [OF assms(2)]], goal_cases)
      case (1 z)
      then obtain w u m' where z: "z = (w, u)" "arc_core.more u = arc_core.more (t\<lparr>g_secure_sid_mask := m'\<rparr>)"
        by (cases z) auto
      have "arc_core.more u = arc_core.more (s\<lparr>g_mpu_slot := 2, g_secure_sid_mask := m'\<rparr>)"
        unfolding z(2) upd [OF x(2)] mask_twice by (rule upd [OF s])
      then show ?case
        unfolding z(1) by auto
    qed
  qed
qed

lemma secureshield_init_safe:
  assumes cfg: "config_ok b" and cleared: "ss_cleared b s"
  shows "safe (booted b) (secureshield_init b s)"
  unfolding secureshield_init_def vmpu_init_post_def
proof (rule safe_bind [OF arch_init_safe], goal_cases)
  case (3 t)
  let ?s = "secureshield_int_init b s"
  obtain m where m: "arc_core.more t = arc_core.more (?s\<lparr>g_mpu_slot := 2, g_secure_sid_mask := m\<rparr>)"
    using 3 by blast
  moreover have "arc_core.more (?s\<lparr>g_mpu_slot := 2, g_secure_sid_mask := m\<rparr>)
      = arc_core.more (s\<lparr>g_mpu_slot := 2, g_secure_sid_mask := m\<rparr>)"
    using int_init_more [of b s] by (cases s; cases ?s) simp
  ultimately have "arc_core.more t = arc_core.more (s\<lparr>g_mpu_slot := 2, g_secure_sid_mask := m\<rparr>)"
    by (rule trans)
  then have "boot_before b 0 (t\<lparr>g_vmpu_container_count := 0\<rparr>)"
    by (rule boot_before_more [THEN iffD2]) (rule cleared_before [OF cleared])
  then have set: "safe (boot_before b (length (cfgtbl b))) (vmpu_setup_containers b t)"
    using cfg by (intro setup_containers_safe) (simp_all add: config_ok_def)
  have b: "mpu_build_ok b" and n: "0 < length (cfgtbl b)"
    using cfg by (simp_all add: config_ok_def)
  show ?case
  proof (rule safe_bind [OF set])
    fix u assume u: "boot_before b (length (cfgtbl b)) u"
    show "safe (booted b) (vmpu_load_container b 0 u)"
    proof (cases "ss_sid b")
      case True
      show ?thesis
        by (rule safe_mono [OF load_sid [OF u n True]]) (simp add: booted_def True)
    next
      case False
      show ?thesis
        by (rule safe_mono [OF load_unit [OF b u n False]]) (simp add: booted_def)
    qed
  qed
qed (use cfg in \<open>simp_all add: config_ok_def\<close>)

end
