(* ===== verification/Ss_Demo.thy ===== *)
theory Ss_Demo
  imports Ss_Boot
begin

text \<open>
  A small system to evaluate the runtime on: version 1 without secure identifiers, a protection
  unit of eight entries, the background container and one normal container that offers one
  function with one argument and owns one interrupt. \<open>demo_reset\<close> is its state before start-up.
  \<open>demo_call\<close> is a state in which the background container has just executed the trap that calls
  the function: the description of the call is at address \<open>0x20000100\<close>, the frame the trap has
  left at \<open>0x40000800\<close>.
\<close>

section \<open>The system\<close>

definition demo_cfg :: CONTAINER_CONFIG where
  "demo_cfg = \<lparr>cc_magic = CONTAINER_MAGIC, cc_type = CONTAINER_NORMAL, cc_stack_secure = 0x40000900,
     cc_stack_size = 0x100, cc_stack_area = 0x80000800, cc_ac_table = None, cc_ac_count = 0,
     cc_text_start = 0x20000000, cc_text_end = 0x20000800, cc_rodata_start = 0x20000800,
     cc_rodata_end = 0x20001000, cc_data_start = 0x80000000, cc_data_end = 0x80000800,
     cc_data_load_start = 0x20000800, cc_bss_start = 0x80000800, cc_bss_end = 0x80001000\<rparr>"

definition demo_cfg1 :: CONTAINER_CONFIG where
  "demo_cfg1 = demo_cfg\<lparr>cc_stack_secure := 0x40000A00, cc_stack_area := 0x80011000,
     cc_ac_table := Some
       [\<lparr>ac_param1 = 0x20010100, ac_param2 = 1, ac_ac = AC_INTERFACE\<rparr>,
        \<lparr>ac_param1 = 0x20010200, ac_param2 = 17, ac_ac = AC_IRQ\<rparr>,
        \<lparr>ac_param1 = 0x80010000, ac_param2 = 0x1000, ac_ac = ACDEF_URAM\<rparr>],
     cc_ac_count := 3,
     cc_text_start := 0x20010000, cc_text_end := 0x20010800, cc_rodata_start := 0x20010800,
     cc_rodata_end := 0x20011000, cc_data_start := 0, cc_data_end := 0, cc_bss_start := 0, cc_bss_end := 0\<rparr>"

definition demo_ss :: ss_build where
  "demo_ss = build.extend demo_build (ss_build.fields False True 0 0 0x10000 0x40000000 0x20000000 0x80000000
     0x400 0x40 0x41524353 0 0x1000 0x40000000 0x40001000 0x20000000 0x80000000
     0x500 0x508 [(0x600, demo_cfg), (0x700, demo_cfg1)] 0x800 0x900 0xA00 2)"

definition demo_reset :: ss_state where
  "demo_reset = arc_core.extend core_zero (ss_state.fields 0 0
     (replicate STACK_MAX_DEPTH \<lparr>cs_src_id = 0, cs_src_sp = 0\<rparr>) 0
     (replicate SECURESHIELD_MAX_CONTAINERS
       \<lparr>cx_cur_sp = 0, cx_normal_sp = 0, cx_cpu_status = 0, cx_cfg = None\<rparr>) 0 0 0
     (replicate MPU_REGION_COUNT \<lparr>rg_base = 0, rg_attr = 0, rg_size = 0, rg_ac = 0\<rparr>)
     (replicate SECURESHIELD_MAX_CONTAINERS \<lparr>mc_region = None, mc_count = 0\<rparr>) 0
     (replicate CONTAINER_INTERFACE_COUNT \<lparr>if_func = 0, if_args_num = 0\<rparr>)
     (replicate SECURESHIELD_MAX_CONTAINERS \<lparr>ic_interface = None, ic_count = 0\<rparr>) 0 False 0
     (replicate CONTAINER_AUX_COUNT \<lparr>ca_start = 0, ca_end = 0\<rparr>)
     (replicate SECURESHIELD_MAX_CONTAINERS \<lparr>ax_aux = None, ax_count = 0\<rparr>)
     (replicate 4 \<lparr>ih_handler = 0, ih_id = 0, ih_enabled = False\<rparr>) 0)"

lemmas demo_defs = demo_ss_def demo_build_def build.defs ss_build.defs demo_cfg_def demo_cfg1_def

lemma demo_cleared: "ss_cleared demo_ss demo_reset"
  by (simp add: ss_cleared_def demo_reset_def demo_defs arc_core.defs ss_state.defs core_zero_def)

lemma demo_exact: "config_exact demo_ss"
  by (simp add: config_exact_def unit_matches_def exact_cfg_def exact_section_def exact_item_def block_exact_def has_def
      mpu_alignment_def mpu_alignment_bits_def VMPU_REGION_SIZE_def demo_defs)

lemma demo_config: "config_ok demo_ss"
  by (simp add: config_ok_def mpu_build_ok_def cfg_ok_def section_ok_def size_ok_def item_ok_def has_def
      VMPU_REGION_SIZE_def demo_defs)

text \<open>The memory with the description of the call and the frame of the trap.\<close>

definition demo_mem :: mem where
  "demo_mem = fold (\<lambda>(a, v) m. st32 m a v)
     [(0x20000100, 0x783E), (0x20000106, 0x12345678), (0x2000010A, 0x20010100), (0x2000010E, 0x504),
      (exc_at demo_build 0x40000800 Ret, 0x20000102), (exc_at demo_build 0x40000800 R0, 1),
      (exc_at demo_build 0x40000800 R1, 42)] (\<lambda>_. 0)"

text \<open>The regions that start-up enters.\<close>

lemma demo_regions:
  "update_region_v1 demo_ss 0 0x1000 (SECURE_ROM_ATTR demo_ss)
     = Inr \<lparr>rg_base = 0, rg_attr = 0x148, rg_size = 0x1000, rg_ac = 0x129\<rparr>"
  "update_region_v1 demo_ss 0x40000000 0x1000 (SECURE_RAM_ATTR demo_ss)
     = Inr \<lparr>rg_base = 0x40000000, rg_attr = 0x180, rg_size = 0x1000, rg_ac = 0x130\<rparr>"
  "update_region_v1 demo_ss 0x20000000 0x1000 ACDEF_UTEXT
     = Inr \<lparr>rg_base = 0x20000000, rg_attr = 0x168, rg_size = 0x1000, rg_ac = ACDEF_UTEXT\<rparr>"
  "update_region_v1 demo_ss 0x80000000 0x1000 ACDEF_URAM
     = Inr \<lparr>rg_base = 0x80000000, rg_attr = 0x1B0, rg_size = 0x1000, rg_ac = ACDEF_URAM\<rparr>"
  "update_region_v1 demo_ss 0x20010000 0x1000 ACDEF_UTEXT
     = Inr \<lparr>rg_base = 0x20010000, rg_attr = 0x168, rg_size = 0x1000, rg_ac = ACDEF_UTEXT\<rparr>"
  "update_region_v1 demo_ss 0x80010000 0x1000 ACDEF_URAM
     = Inr \<lparr>rg_base = 0x80010000, rg_attr = 0x1B0, rg_size = 0x1000, rg_ac = ACDEF_URAM\<rparr>"
  by (simp_all add: update_region_v1_def embarc_pow2_ceil_def embarc_clz_def vmpu_map_ac_def has_def
      SECURE_ROM_ATTR_def SECURE_RAM_ATTR_def demo_defs)

lemma demo_arch_init:
  "\<exists>t. vmpu_arch_init demo_ss s = Inr t \<and> arc_core.more t = arc_core.more (s\<lparr>g_mpu_slot := 2\<rparr>)"
  using demo_regions(1,2)
  by (simp add: vmpu_arch_init_def vmpu_ac_static_region_def vmpu_ac_update_container_region_def demo_defs)

text \<open>Entering the containers, whatever the registers and the memory hold.\<close>

lemma demo_fields:
  "cfgtbl demo_ss = [(0x600, demo_cfg), (0x700, demo_cfg1)]" "secureshield_version demo_ss = 1" "\<not> ss_sid demo_ss"
  "secure_rom_size_cfg demo_ss = 0x10000" "secure_rom_start_cfg demo_ss = 0" "num_exc_int demo_ss = 4"
  by (simp_all add: demo_defs)

lemmas array_scan_numeral = array_scan.simps(2) [where n = "pred_numeral k" for k, folded numeral_eq_Suc]

lemmas setup_ac_table_numeral =
  setup_ac_table.simps(2) [where n = "pred_numeral k" for k, folded numeral_eq_Suc]

lemma demo_setup:
  assumes "ss_cleared demo_ss s0" "arc_core.more s = arc_core.more (s0\<lparr>g_mpu_slot := 2\<rparr>)"
  shows "\<exists>t. vmpu_setup_containers demo_ss s = Inr t \<and> g_mpu_region_count t = 4 \<and> mpu_tables_ok t \<and>
    cx_cfg (g_container_context t ! 0) = Some demo_cfg \<and>
    g_mpu_container t ! 1 = \<lparr>mc_region = Some 2, mc_count = 2\<rparr> \<and>
    g_mpu_list t ! 2 = \<lparr>rg_base = 0x20010000, rg_attr = 0x168, rg_size = 0x1000, rg_ac = ACDEF_UTEXT\<rparr> \<and>
    g_interface_container t ! 1 = \<lparr>ic_interface = Some 0, ic_count = 1\<rparr> \<and>
    g_interface_list t ! 0 = \<lparr>if_func = 0x20010100, if_args_num = 1\<rparr> \<and>
    cx_cur_sp (g_container_context t ! 1) = frame_below demo_ss 0x40000A00"
  using ss_fields_more [OF assms(2)] assms(1)
  by (simp add: ss_cleared_def vmpu_setup_containers_def setup_container_def vmpu_ac_container_def vmpu_ac_container_v1_def
      ac_section_def ac_data_def vmpu_ac_mem_def mem_region_checks_def vmpu_ac_update_container_region_def
      VMPU_REGION_SIZE_def VMPU_SECURE_ROM_ADDR_def set_context_def arr_get_def arr_set_def demo_regions has_def
      region_conflicts_def setup_ac_item_def vmpu_ac_irq_def vmpu_ac_interface_def callee_st_def
      secure_int_default_check_def secureshield_exc_entry_table_def int_entry_def set_int_entry_def
      demo_fields demo_cfg_def demo_cfg1_def array_scan_numeral setup_ac_table_numeral Let_def
      mpu_tables_ok_def block_ok_def nth_list_update)

section \<open>After start-up\<close>

definition demo_booted :: ss_state where
  "demo_booted = (case secureshield_init demo_ss demo_reset of Inr t \<Rightarrow> t | Inl _ \<Rightarrow> demo_reset)"

definition demo_call :: ss_state where
  "demo_call = arc_aux_write AUX_IRQ_ACT 0 (demo_booted\<lparr>memory := demo_mem\<rparr>)"

lemma demo_init_tables:
  "\<exists>t. secureshield_init demo_ss demo_reset = Inr t \<and>
    cx_cfg (g_container_context t ! 0) = Some demo_cfg \<and>
    g_mpu_container t ! 1 = \<lparr>mc_region = Some 2, mc_count = 2\<rparr> \<and>
    g_mpu_list t ! 2 = \<lparr>rg_base = 0x20010000, rg_attr = 0x168, rg_size = 0x1000, rg_ac = ACDEF_UTEXT\<rparr> \<and>
    g_interface_container t ! 1 = \<lparr>ic_interface = Some 0, ic_count = 1\<rparr> \<and>
    g_interface_list t ! 0 = \<lparr>if_func = 0x20010100, if_args_num = 1\<rparr> \<and>
    cx_cur_sp (g_container_context t ! 1) = frame_below demo_ss 0x40000A00"
proof -
  let ?s = "secureshield_int_init demo_ss demo_reset"
  obtain t where t: "vmpu_arch_init demo_ss ?s = Inr t" "arc_core.more t = arc_core.more (?s\<lparr>g_mpu_slot := 2\<rparr>)"
    using demo_arch_init by blast
  have "arc_core.more t = arc_core.more (demo_reset\<lparr>g_mpu_slot := 2\<rparr>)"
    unfolding t(2) by (rule more_slot [OF int_init_more])
  then obtain u where u: "vmpu_setup_containers demo_ss t = Inr u" "g_mpu_region_count u = 4" "mpu_tables_ok u"
      "cx_cfg (g_container_context u ! 0) = Some demo_cfg"
      "g_mpu_container u ! 1 = \<lparr>mc_region = Some 2, mc_count = 2\<rparr>"
      "g_mpu_list u ! 2 = \<lparr>rg_base = 0x20010000, rg_attr = 0x168, rg_size = 0x1000, rg_ac = ACDEF_UTEXT\<rparr>"
      "g_interface_container u ! 1 = \<lparr>ic_interface = Some 0, ic_count = 1\<rparr>"
      "g_interface_list u ! 0 = \<lparr>if_func = 0x20010100, if_args_num = 1\<rparr>"
      "cx_cur_sp (g_container_context u ! 1) = frame_below demo_ss 0x40000A00"
    using demo_setup [OF demo_cleared] by blast
  obtain v k where v: "vmpu_switch_load demo_ss 0 u = Inr v"
      "arc_core.more v = arc_core.more (u\<lparr>g_active_container := 0, g_mpu_slot := k\<rparr>)"
    using vmpu_switch_load_spec [OF _ u(3), of demo_ss 0] demo_config u(2) by (auto simp: config_ok_def)
  show ?thesis
    using t(1) u(1,4-9) v(1) ss_fields_more [OF v(2)] demo_fields(3)
    by (simp add: secureshield_init_def vmpu_init_post_def vmpu_load_container_def vmpu_switch_def)
qed

lemma demo_init: "secureshield_init demo_ss demo_reset = Inr demo_booted"
  using demo_init_tables by (auto simp: demo_booted_def)

lemma demo_booted_ok: "booted demo_ss demo_booted"
  using secureshield_init_safe [OF demo_config demo_cleared] by (simp add: demo_init)

end
