(* ===== verification/Ss_Props.thy ===== *)
theory Ss_Props
  imports Ss_Demo
begin

text \<open>
  What the runtime guarantees to containers: which calls it accepts and where they enter the
  callee, that a call returns to its caller whatever happens in between, what a protection
  fault can make accessible, and who may use which interrupt and which auxiliary register.
\<close>

section \<open>Accepted calls\<close>

text \<open>The description of a call in version 1 is well-formed and names a function that the callee offers.\<close>

definition call_valid_v1 :: "'b ss_build_scheme \<Rightarrow> u32 \<Rightarrow> ss_state \<Rightarrow> nat \<Rightarrow> bool" where
  "call_valid_v1 b f s c \<longleftrightarrow>
     call_opcode_ok b s (trap_pc b f s) \<and>
     ld32 (memory s) (trap_pc b f s + call_opcode_len b + 4) = CONTAINER_CALL_MAGIC \<and>
     c = unat (cfg_index b (ld32 (memory s) (trap_pc b f s + call_opcode_len b + 12))) \<and>
     0 < c \<and> c < g_vmpu_container_count s \<and> c \<noteq> g_container_stack_curr_id s \<and>
     container_call_get_dst_fn b s (trap_pc b f s) \<noteq> 0 \<and>
     registered s c (container_call_get_dst_fn b s (trap_pc b f s)) (exc_ld b s f R0 AND 0xff)"

lemma find_interface_registered:
  assumes "interfaces_wf s" "0 < c" "c < SECURESHIELD_MAX_CONTAINERS"
  shows "vmpu_find_interface s c fn n = Inr (if registered s c fn n then fn else 0)"
proof -
  let ?c = "g_interface_container s ! c"
  have ok: "block_ok (ic_interface ?c) (ic_count ?c) CONTAINER_INTERFACE_COUNT"
      "length (g_interface_list s) = CONTAINER_INTERFACE_COUNT" "c < length (g_interface_container s)"
    using assms by (simp_all add: interfaces_wf_def)
  have match: "interface_matches fn n i \<longleftrightarrow> i = \<lparr>if_func = fn, if_args_num = n\<rparr>" for i
    by (cases i) (simp add: interface_matches_def)
  obtain r where r: "block_scan (interface_matches fn n) (g_interface_list s) (ic_interface ?c) (ic_count ?c) = Inr r"
      "case r of None \<Rightarrow> \<forall>i \<in> set (block_items (g_interface_list s) (ic_interface ?c) (ic_count ?c)). \<not> interface_matches fn n i
       | Some j \<Rightarrow> j < length (g_interface_list s) \<and>
           g_interface_list s ! j \<in> set (block_items (g_interface_list s) (ic_interface ?c) (ic_count ?c)) \<and>
           interface_matches fn n (g_interface_list s ! j)"
    using block_scan_items [OF ok(1), of "g_interface_list s" "interface_matches fn n"] ok(2) by auto
  then have reg: "registered s c fn n \<longleftrightarrow> r \<noteq> None"
    by (cases r) (auto simp: registered_def match)
  show ?thesis
    unfolding reg using r(1) assms(2) ok by (cases "ic_interface ?c"; cases r)
      (simp_all add: vmpu_find_interface_def arr_get_def block_scan_def block_ok_def)
qed

lemma push_succeeds:
  assumes "ss_inv b s" "src_id < g_vmpu_container_count s" "g_container_stack_ptr s < STACK_MAX_DEPTH"
  shows "\<exists>t. container_stack_push src_id sp nsp st dst_id s = Inr t"
  using assms by (auto simp: container_stack_push_def set_context_def arr_get_def arr_set_def ss_inv_def wf_defs)

lemma switch_succeeds:
  assumes "mpu_build_ok b" "ss_inv b s" "dst_id < g_vmpu_container_count s"
  shows "\<exists>t. vmpu_switch b src_id dst_id s = Inr t"
  by (rule vmpu_switch_keeps [OF assms]) blast

lemma call_in_v1_accepts:
  assumes b: "mpu_build_ok b" and inv: "ss_inv b s" and act: "\<not> arc_int_active s"
    and valid: "call_valid_v1 b f s c" and room: "g_container_stack_ptr s < STACK_MAX_DEPTH"
  shows "\<exists>r t. trap_container_call_in b f s = Inr (r, t)"
proof -
  let ?pc = "trap_pc b f s" and ?src = "g_container_stack_curr_id s"
  let ?fn = "container_call_get_dst_fn b s ?pc" and ?args = "exc_ld b s f R0 AND 0xff"
  have c: "0 < c" "c < g_vmpu_container_count s" "c \<noteq> ?src" "?fn \<noteq> 0" "registered s c ?fn ?args"
    using valid unfolding call_valid_v1_def by blast+
  have wf: "interfaces_wf s" "c < SECURESHIELD_MAX_CONTAINERS"
    using inv c(2) by (simp_all add: ss_inv_def wf_defs)
  have target: "container_call_check_magic b s ?pc = Inr ()" "container_call_get_dst_id b s ?pc = Inr c"
    using valid c(1,2) by (simp_all add: call_valid_v1_def container_call_check_magic_def
        container_call_get_dst_id_def Let_def not_le unat_gt_0)
  let ?push = "container_stack_push ?src (processor_of_exc b f) (arc_aux_read s AUX_USER_SP) (exc_ld b s f Status32) c s"
  obtain t where t: "?push = Inr t"
    using push_succeeds [OF inv inv_ids(1) [OF inv] room] by blast
  have kt: "keeps b 0 s t"
    using safe_Inr [OF safe_push [OF inv inv_ids(1) [OF inv] c(2)] t] by blast
  have t': "ss_inv b t" "c < g_vmpu_container_count t"
    using keeps_inv [OF kt inv] keeps_count [OF kt] c(2) by simp_all
  let ?x = "g_container_context t ! c"
  let ?u = "call_frame_v1 b f (cx_cur_sp ?x) ?fn (cx_cpu_status ?x) (unat ?args) t"
  have ku: "keeps b 0 t ?u"
    by (rule core_step_keeps [OF b call_frame_core(1)])
  obtain u where "vmpu_switch b ?src c ?u = Inr u"
    using switch_succeeds [OF b keeps_inv [OF ku t'(1)]] keeps_count [OF ku] t'(2) by auto
  then show ?thesis
    using target c(3-5) t act find_interface_registered [OF wf(1) c(1) wf(2)] context_defined [OF t']
    unfolding trap_container_call_in_def trap_pc_def [symmetric] Let_def by simp
qed

lemma call_in_v1_rejects:
  assumes inv: "ss_inv b s" and act: "\<not> arc_int_active s" and res: "trap_container_call_in b f s = Inr (r, t)"
  shows "\<exists>c. call_valid_v1 b f s c" "g_container_stack_ptr s < STACK_MAX_DEPTH"
proof -
  let ?pc = "trap_pc b f s" and ?src = "g_container_stack_curr_id s"
  let ?fn = "container_call_get_dst_fn b s ?pc" and ?args = "exc_ld b s f R0 AND 0xff"
  obtain c func u where r: "container_call_check_magic b s ?pc = Inr ()" "container_call_get_dst_id b s ?pc = Inr c"
      "?src \<noteq> c" "vmpu_find_interface s c ?fn ?args = Inr func" "func \<noteq> 0"
      "container_stack_push ?src (processor_of_exc b f) (arc_aux_read s AUX_USER_SP) (exc_ld b s f Status32) c s = Inr u"
    using res act unfolding trap_container_call_in_def trap_pc_def [symmetric] Let_def
    by (auto simp: res_bind_eq_Inr split: if_splits)
  have c: "0 < c" "c < g_vmpu_container_count s"
    using r(2) get_dst_id_safe [of s b ?pc] by simp_all
  have wf: "interfaces_wf s" "c < SECURESHIELD_MAX_CONTAINERS" "g_container_stack_ptr s \<le> STACK_MAX_DEPTH"
    using inv c(2) by (simp_all add: ss_inv_def wf_defs)
  have "registered s c ?fn ?args" "?fn \<noteq> 0"
    using r(4,5) find_interface_registered [OF wf(1) c(1) wf(2), of ?fn ?args] by (auto split: if_splits)
  moreover have "call_opcode_ok b s ?pc" "ld32 (memory s) (?pc + call_opcode_len b + 4) = CONTAINER_CALL_MAGIC"
      "c = unat (cfg_index b (ld32 (memory s) (?pc + call_opcode_len b + 12)))"
    using r(1,2) by (auto simp: container_call_check_magic_def container_call_get_dst_id_def Let_def split: if_splits)
  ultimately show "\<exists>c. call_valid_v1 b f s c"
    using c r(3) unfolding call_valid_v1_def by metis
  show "g_container_stack_ptr s < STACK_MAX_DEPTH"
    using r(6) wf(3) by (auto simp: container_stack_push_def split: if_splits)
qed

text \<open>
  C4. Which container calls version 1 carries out, in every state that satisfies the invariant.
  While an interrupt is active the call is ignored: the answer is 0 and nothing changes. While
  none is active, the call is carried out exactly when it is well-formed, names a container other
  than the current one and the background one, names a function that the container offers with
  that number of arguments, and the container stack has room; otherwise the runtime halts, and it
  halts deliberately, not by an access outside its tables.
\<close>

theorem trap_container_call_in_accepts_iff:
  assumes "mpu_build_ok b" "ss_inv b s"
  shows "if arc_int_active s then trap_container_call_in b f s = Inr (0, s)
    else if (\<exists>c. call_valid_v1 b f s c) \<and> g_container_stack_ptr s < STACK_MAX_DEPTH
    then \<exists>r t. trap_container_call_in b f s = Inr (r, t)
    else \<exists>e. trap_container_call_in b f s = Inl e \<and> e \<noteq> Undefined"
proof (cases "arc_int_active s")
  case False
  then show ?thesis
    using call_in_v1_accepts [OF assms False, of f] call_in_v1_rejects [OF assms(2) False, of f]
      call_in_v1_spec [OF assms, of f]
    by (cases "trap_container_call_in b f s") (auto simp: safe_def)
qed (simp add: trap_container_call_in_def)

section \<open>The frame of the callee\<close>

text \<open>Two areas of \<open>n\<close> words that do not overlap.\<close>

definition areas_apart :: "nat \<Rightarrow> u32 \<Rightarrow> u32 \<Rightarrow> bool" where
  "areas_apart n a a' \<longleftrightarrow> (\<forall>i < n. \<forall>j < n. word_apart (a + 4 * of_nat i) (a' + 4 * of_nat j))"

lemma areas_far:
  fixes d :: u32 and i j k :: nat
  assumes "4 * int k \<le> uint d" "uint d \<le> 2 ^ 32 - 4 * int k" "i < k" "j < k"
  shows "4 \<le> uint (d + 4 * of_nat j - 4 * of_nat i)"
proof -
  let ?z = "uint d + 4 * int j - 4 * int i"
  have "word_of_int ?z = d + 4 * of_nat j - 4 * of_nat i"
    by simp
  then have "uint (d + 4 * of_nat j - 4 * of_nat i) = uint (word_of_int ?z :: u32)"
    by (rule arg_cong [OF sym])
  also have "\<dots> = ?z mod 2 ^ 32"
    by (simp only: uint_word_of_int) simp
  also have "\<dots> = ?z"
    by (rule mod_pos_pos_trivial) (use assms in linarith)+
  finally show ?thesis
    using assms by linarith
qed

lemma areas_apartI:
  assumes "4 * int k \<le> uint (a' - a :: u32)" "uint (a' - a) \<le> 2 ^ 32 - 4 * int k"
    "4 * int k \<le> uint (a - a')" "uint (a - a') \<le> 2 ^ 32 - 4 * int k"
  shows "areas_apart k a a'"
  unfolding areas_apart_def word_apart_def
proof (intro allI impI)
  fix i j :: nat assume ij: "i < k" "j < k"
  have "a' + 4 * of_nat j - (a + 4 * of_nat i) = a' - a + 4 * of_nat j - 4 * of_nat i"
    "a + 4 * of_nat i - (a' + 4 * of_nat j) = a - a' + 4 * of_nat i - 4 * of_nat j"
    by simp_all
  then show "4 \<le> unat (a' + 4 * of_nat j - (a + 4 * of_nat i)) \<and> 4 \<le> unat (a + 4 * of_nat i - (a' + 4 * of_nat j))"
    using areas_far [OF assms(1,2) ij] areas_far [OF assms(3,4) ij(2,1)]
    by (simp only: unat_eq_nat_uint) (simp only: le_nat_iff [OF uint_ge_0] of_nat_numeral simp_thms)
qed

lemma copy_args_other:
  assumes "\<forall>i < n. word_apart (dst + 4 * of_nat i) a"
  shows "ld32 (copy_args n dst src m) a = ld32 m a"
  using assms
proof (induction n arbitrary: dst src m)
  case (Suc n)
  have "word_apart dst a"
    using spec [OF Suc.prems, of 0] by simp
  moreover have "word_apart (dst + 4 + 4 * of_nat i) a" if "i < n" for i
    using spec [OF Suc.prems, of "Suc i"] that by (simp add: algebra_simps)
  ultimately show ?case
    by (simp add: Suc.IH mem_simps)
qed simp

lemma copy_args_copies:
  assumes "areas_apart n dst src" "n < 1024" "i < n"
  shows "ld32 (copy_args n dst src m) (dst + 4 * of_nat i) = ld32 m (src + 4 * of_nat i)"
  using assms
proof (induction n arbitrary: dst src m i)
  case (Suc n)
  have step: "areas_apart n (dst + 4) (src + 4)"
    unfolding areas_apart_def
  proof (intro allI impI)
    fix i j assume "i < n" "j < n"
    then show "word_apart (dst + 4 + 4 * of_nat i) (src + 4 + 4 * of_nat j)"
      using Suc.prems(1) [unfolded areas_apart_def, rule_format, of "Suc i" "Suc j"] by (simp add: algebra_simps)
  qed
  show ?case
  proof (cases i)
    case 0
    have "word_apart (dst + 4 + 4 * of_nat j) dst" if "j < n" for j
      using word_apart_array [of "Suc j" 0 dst] that Suc.prems(2) by (simp add: algebra_simps)
    then show ?thesis
      using 0 by (simp add: copy_args_other mem_simps)
  next
    case (Suc j)
    have "word_apart dst (src + 4 * of_nat i)"
      using Suc.prems(1) [unfolded areas_apart_def, rule_format, of 0 i] Suc.prems(3) by simp
    then show ?thesis
      using Suc.IH [OF step, of j "st32 m dst (ld32 m src)"] Suc.prems(2,3) Suc
      by (simp add: mem_simps algebra_simps)
  qed
qed simp

text \<open>The words of a frame from \<open>r0\<close> up to \<open>blink\<close>, into which arguments are copied.\<close>

definition args_room :: "'b build_scheme \<Rightarrow> nat" where
  "args_room b = (if feat_rf16 b then 6 else 12)"

lemma frame_positions:
  "field_index (INT_EXC_FRAME_T b) R1 = Suc (field_index (INT_EXC_FRAME_T b) R0)"
  "field_index (INT_EXC_FRAME_T b) Blink = field_index (INT_EXC_FRAME_T b) R0 + args_room b"
  "field_index (INT_EXC_FRAME_T b) Blink < field_index (INT_EXC_FRAME_T b) Ret"
  "field_index (INT_EXC_FRAME_T b) Ret < field_index (INT_EXC_FRAME_T b) Status32"
  "field_index (INT_EXC_FRAME_T b) Gp < field_index (INT_EXC_FRAME_T b) R0"
  "field_index (INT_EXC_FRAME_T b) Status32 < 32"
  by (simp_all add: INT_EXC_FRAME_T_def args_room_def)

lemma exc_at_add: "exc_at b a f + 4 * of_nat i = a + 4 * of_nat (field_index (INT_EXC_FRAME_T b) f + i)"
  by (simp add: exc_at_def algebra_simps)

lemma args_apart_field:
  assumes "n \<le> args_room b" "i < n" "f \<in> {Gp, Blink, Ret, Status32}"
  shows "word_apart (exc_at b d R0 + 4 * of_nat i) (exc_at b d f)"
proof -
  have "field_index (INT_EXC_FRAME_T b) R0 + i \<noteq> field_index (INT_EXC_FRAME_T b) f"
      "field_index (INT_EXC_FRAME_T b) R0 + i < 32" "field_index (INT_EXC_FRAME_T b) f < 32"
    using assms frame_positions [of b] by auto
  then show ?thesis
    unfolding exc_at_add unfolding exc_at_def by (intro word_apart_array) simp_all
qed

lemma frame_members: "{Erbta, Gp, Blink, Ret, Status32} \<subseteq> set (INT_EXC_FRAME_T b)"
  using INT_EXC_FRAME_T_members by auto

lemma exc_ld_st:
  assumes "f \<in> {Erbta, Gp, Blink, Ret, Status32}" "g \<in> {Erbta, Gp, Blink, Ret, Status32}"
  shows "exc_ld b (exc_st b d f v s) d g = (if f = g then v else exc_ld b s d g)"
  using exc_fields_apart [of f b g d] frame_members [of b] assms
  by (auto simp: exc_ld_def exc_st_def mem_simps)

lemma exc_st_area:
  assumes "areas_apart 32 d f" "fld \<in> {Erbta, Gp, Blink, Ret, Status32}" "j < 32"
  shows "ld32 (memory (exc_st b d fld v s)) (f + 4 * of_nat j) = ld32 (memory s) (f + 4 * of_nat j)"
proof -
  have "field_index (INT_EXC_FRAME_T b) fld < 32"
    using field_index_less [of fld "INT_EXC_FRAME_T b"] frame_members [of b] length_INT_EXC_FRAME_T [of b] assms(2)
    by fastforce
  then show ?thesis
    using assms by (simp add: exc_st_def exc_at_def areas_apart_def mem_simps)
qed

lemma call_frame_v1_copied:
  fixes b :: "'b ss_build_scheme" and f r fn st :: u32 and n i :: nat and s :: ss_state
  assumes apart: "areas_apart 32 (exc_of_processor b r) f" and n: "n < 1024" "i < n"
    and args: "areas_apart n (exc_at b (exc_of_processor b r) R0) (exc_at b f R1)"
    and pos: "field_index (INT_EXC_FRAME_T b) R1 + i < 32"
  shows "ld32 (memory (call_frame_v1 b f r fn st n s)) (exc_at b (exc_of_processor b r) R0 + 4 * of_nat i) =
    ld32 (memory s) (exc_at b f R1 + 4 * of_nat i)"
proof -
  let ?d = "exc_of_processor b r"
  let ?s1 = "exc_st b ?d Blink (call_out_addr b) (exc_st b ?d Status32 st (exc_st b ?d Ret fn (exc_st b ?d Erbta 0 s)))"
  let ?s2 = "if ss_copy_gp b then exc_st b ?d Gp (exc_ld b ?s1 f Gp) ?s1 else ?s1"
  have "ld32 (memory ?s2) (exc_at b f R1 + 4 * of_nat i) = ld32 (memory s) (exc_at b f R1 + 4 * of_nat i)"
    unfolding exc_at_add by (simp add: exc_st_area [OF apart _ pos] del: of_nat_add)
  then show ?thesis
    using copy_args_copies [OF args n, of "memory ?s2"] by (simp add: call_frame_v1_def Let_def)
qed

text \<open>What the callee finds in its frame, when the arguments end before \<open>blink\<close>.\<close>

lemma call_frame_v1_fields:
  fixes b :: "'b ss_build_scheme" and f r fn st :: u32 and n i :: nat and s :: ss_state
  assumes apart: "areas_apart 32 (exc_of_processor b r) f" and n: "n \<le> args_room b"
  defines "t \<equiv> call_frame_v1 b f r fn st n s" and "d \<equiv> exc_of_processor b r"
  shows "exc_ld b t d Ret = fn" "exc_ld b t d Status32 = st" "exc_ld b t d Blink = call_out_addr b"
    "ss_copy_gp b \<Longrightarrow> exc_ld b t d Gp = exc_ld b s f Gp"
    "i < n \<Longrightarrow> ld32 (memory t) (exc_at b d R0 + 4 * of_nat i) = ld32 (memory s) (exc_at b f R1 + 4 * of_nat i)"
proof -
  let ?s1 = "exc_st b d Blink (call_out_addr b) (exc_st b d Status32 st (exc_st b d Ret fn (exc_st b d Erbta 0 s)))"
  let ?s2 = "if ss_copy_gp b then exc_st b d Gp (exc_ld b ?s1 f Gp) ?s1 else ?s1"
  have t: "memory t = copy_args n (exc_at b d R0) (exc_at b f R1) (memory ?s2)"
    by (simp add: t_def d_def call_frame_v1_def Let_def)
  have fld: "exc_ld b t d g = exc_ld b ?s2 d g" if "g \<in> {Gp, Blink, Ret, Status32}" for g
    using args_apart_field [OF n _ that, of _ d] by (simp add: exc_ld_def t copy_args_other)
  show "exc_ld b t d Ret = fn" "exc_ld b t d Status32 = st" "exc_ld b t d Blink = call_out_addr b"
    by (simp_all add: fld exc_ld_st)
  have gp: "field_index (INT_EXC_FRAME_T b) Gp < 32"
    using frame_positions [of b] by simp
  show "exc_ld b t d Gp = exc_ld b s f Gp" if "ss_copy_gp b"
    using that by (simp add: fld exc_ld_st) (simp add: exc_ld_def exc_at_def exc_st_area [OF apart [folded d_def] _ gp])
  have pos: "field_index (INT_EXC_FRAME_T b) R0 + i < 32" "field_index (INT_EXC_FRAME_T b) R1 + i < 32" if "i < n" for i
    using that n frame_positions [of b] by linarith+
  moreover have "args_room b \<le> 12"
    by (simp add: args_room_def)
  moreover have "areas_apart n (exc_at b d R0) (exc_at b f R1)"
    unfolding areas_apart_def exc_at_add d_def using apart [unfolded areas_apart_def] pos by blast
  ultimately show "ld32 (memory t) (exc_at b d R0 + 4 * of_nat i) = ld32 (memory s) (exc_at b f R1 + 4 * of_nat i)" if "i < n"
    unfolding t_def d_def using n that by (intro call_frame_v1_copied [OF apart]) simp_all
qed

text \<open>When they do not, the word after the caller's \<open>blink\<close> replaces the return address.\<close>

lemma call_frame_v1_blink:
  assumes apart: "areas_apart (32 + n) (exc_of_processor b r) f" and n: "args_room b < n" "n < 1024"
  shows "exc_ld b (call_frame_v1 b f r fn st n s) (exc_of_processor b r) Blink =
    ld32 (memory s) (exc_at b f Blink + 4)"
proof -
  let ?i = "field_index (INT_EXC_FRAME_T b)"
  have pos: "?i R0 < 32" "?i R1 < 32" "?i R1 + args_room b = Suc (?i Blink)" "Suc (?i Blink) < 32"
    using frame_positions [of b] by simp_all
  have at: "exc_at b d R0 + 4 * of_nat (args_room b) = exc_at b d Blink"
      "exc_at b d R1 + 4 * of_nat (args_room b) = exc_at b d Blink + 4" for d
    unfolding exc_at_add frame_positions(2) [symmetric] pos(3) by (simp_all add: exc_at_def algebra_simps)
  have sub: "word_apart (exc_of_processor b r + 4 * of_nat i) (f + 4 * of_nat j)" if "i < 32 + n" "j < 32 + n" for i j
    using apart that by (simp add: areas_apart_def)
  have "areas_apart 32 (exc_of_processor b r) f" "areas_apart n (exc_at b (exc_of_processor b r) R0) (exc_at b f R1)"
    unfolding areas_apart_def exc_at_add by (intro allI impI sub; use pos(1,2) in linarith)+
  then show ?thesis
    using call_frame_v1_copied [of b r f n "args_room b"] n pos unfolding at exc_ld_def by simp
qed

text \<open>The container entered, and the memory it starts with.\<close>

lemma called_v1_memory:
  assumes "mpu_build_ok b" "ss_inv b s" "\<not> arc_int_active s"
    and res: "trap_container_call_in b f s = Inr (r, t)" and valid: "call_valid_v1 b f s c"
  shows "g_active_container t = c" "r = cx_cur_sp (g_container_context s ! c)" "keeps b 0 s t"
    "memory t = memory (call_frame_v1 b f r (container_call_get_dst_fn b s (trap_pc b f s))
       (cx_cpu_status (g_container_context s ! c)) (unat (exc_ld b s f R0 AND 0xff)) s)"
proof -
  obtain c' where c': "container_call_get_dst_id b s (trap_pc b f s) = Inr c'"
      "called_v1 b f c' (container_call_get_dst_fn b s (trap_pc b f s)) (exc_ld b s f R0 AND 0xff) s r t"
    using safe_Inr [OF call_in_v1_spec [OF assms(1,2)] res] assms(3) by auto
  have "c' = c"
    using c'(1) valid by (auto simp: container_call_get_dst_id_def call_valid_v1_def Let_def split: if_splits)
  then show "g_active_container t = c" "r = cx_cur_sp (g_container_context s ! c)" "keeps b 0 s t"
    "memory t = memory (call_frame_v1 b f r (container_call_get_dst_fn b s (trap_pc b f s))
       (cx_cpu_status (g_container_context s ! c)) (unat (exc_ld b s f R0 AND 0xff)) s)"
    using c'(2) by (auto simp: called_v1_def entered_def)
qed

text \<open>
  C3. A call that version 1 carries out while no interrupt is active enters the container it
  names, and nothing else: the frame the callee starts from is its own, its program counter is the
  registered function, its return address leads back into the runtime, and the words from \<open>r0\<close> on
  hold the caller's arguments. This is for calls whose arguments fit between \<open>r0\<close> and \<open>blink\<close> (six
  words with the reduced register file, twelve otherwise) and for a frame of the callee that does
  not overlap the 32 words from the caller's frame on.
\<close>

theorem trap_container_call_in_enters:
  assumes "mpu_build_ok b" "ss_inv b s" "\<not> arc_int_active s"
    and res: "trap_container_call_in b f s = Inr (r, t)" and valid: "call_valid_v1 b f s c"
    and room: "unat (exc_ld b s f R0 AND 0xff) \<le> args_room b" and apart: "areas_apart 32 (exc_of_processor b r) f"
  shows "g_active_container t = c \<and> r = cx_cur_sp (g_container_context s ! c) \<and> ss_inv b t \<and>
    exc_ld b t (exc_of_processor b r) Ret = container_call_get_dst_fn b s (trap_pc b f s) \<and>
    exc_ld b t (exc_of_processor b r) Status32 = cx_cpu_status (g_container_context s ! c) \<and>
    exc_ld b t (exc_of_processor b r) Blink = call_out_addr b \<and>
    (\<forall>i < unat (exc_ld b s f R0 AND 0xff).
       ld32 (memory t) (exc_at b (exc_of_processor b r) R0 + 4 * of_nat i) =
       ld32 (memory s) (exc_at b f R1 + 4 * of_nat i))"
proof -
  note t = called_v1_memory [OF assms(1-3) res valid]
  have ld: "exc_ld b t d fld = exc_ld b (call_frame_v1 b f r (container_call_get_dst_fn b s (trap_pc b f s))
      (cx_cpu_status (g_container_context s ! c)) (unat (exc_ld b s f R0 AND 0xff)) s) d fld" for d fld
    by (simp add: exc_ld_def t(4))
  show ?thesis
    unfolding ld t(4) using t(1,2) keeps_inv [OF t(3) assms(2)] call_frame_v1_fields [OF apart room] by blast
qed

text \<open>
  C31. The number of arguments is not checked against the frame. When a container offers a function
  with more arguments than fit between \<open>r0\<close> and \<open>blink\<close>, a well-formed call of it is carried out
  while no interrupt is active and the container stack has room, and the copied arguments replace
  the return address that leads back into the runtime: the callee's \<open>blink\<close> is then the word that
  follows \<open>blink\<close> in the frame of the caller, provided the copied areas do not overlap.
\<close>

theorem trap_container_call_in_args_overflow:
  assumes b: "mpu_build_ok b" and inv: "ss_inv b s" and act: "\<not> arc_int_active s"
    and valid: "call_valid_v1 b f s c" and room: "g_container_stack_ptr s < STACK_MAX_DEPTH"
    and n: "n = unat (exc_ld b s f R0 AND 0xff)" "args_room b < n"
    and d: "d = exc_of_processor b (cx_cur_sp (g_container_context s ! c))" "areas_apart (32 + n) d f"
  shows "\<exists>r t. trap_container_call_in b f s = Inr (r, t) \<and> g_active_container t = c \<and>
    d = exc_of_processor b r \<and> exc_ld b t d Blink = ld32 (memory s) (exc_at b f Blink + 4)"
proof -
  obtain r t where res: "trap_container_call_in b f s = Inr (r, t)"
    using call_in_v1_accepts [OF b inv act valid room] by blast
  have "n < 1024"
    using word_and_le1 [of "exc_ld b s f R0" "0xff"] by (simp add: n(1) word_le_nat_alt)
  then show ?thesis
    using called_v1_memory [OF b inv act res valid] call_frame_v1_blink [of n b "cx_cur_sp (g_container_context s ! c)" f] n d res
    by (auto simp: exc_ld_def)
qed

section \<open>A call on the small system\<close>

lemma demo_call_ok:
  "ss_inv demo_ss demo_call" "ids_agree demo_call" "mpu_build_ok demo_ss" "\<not> arc_int_active demo_call"
  "g_container_stack_ptr demo_call = 0" "g_container_stack_curr_id demo_call = 0" "memory demo_call = demo_mem"
  "g_vmpu_container_count demo_call = 2"
proof -
  show b: "mpu_build_ok demo_ss"
    using demo_config by (simp add: config_ok_def)
  have core: "core_step demo_ss demo_booted demo_call"
    by (simp add: demo_call_def core_intros)
  show "ss_inv demo_ss demo_call"
    using keeps_inv [OF core_step_keeps [OF b core]] demo_booted_ok by (simp add: booted_def)
  show "ids_agree demo_call" "g_container_stack_ptr demo_call = 0" "g_container_stack_curr_id demo_call = 0"
      "g_vmpu_container_count demo_call = 2"
    using ss_fields_more [OF core_step_fields [OF core]] demo_booted_ok
    by (simp_all add: booted_def ids_agree_def demo_fields)
  show "\<not> arc_int_active demo_call" "memory demo_call = demo_mem"
    by (simp_all add: demo_call_def arc_int_active_def aux_defs)
qed

lemma demo_exc_at:
  "exc_at demo_ss a R0 = a + 24" "exc_at demo_ss a R1 = a + 28" "exc_at demo_ss a Ret = a + 64"
  "exc_at demo_build a R0 = a + 24" "exc_at demo_build a R1 = a + 28" "exc_at demo_build a Ret = a + 64"
  by (simp_all add: exc_at_def INT_EXC_FRAME_T_def demo_defs)

lemma demo_args_room: "args_room demo_ss = 6"
  by (simp add: args_room_def demo_defs)

lemma demo_words:
  "ld32 demo_mem 0x20000106 = 0x12345678" "ld32 demo_mem 0x2000010A = 0x20010100" "ld32 demo_mem 0x2000010E = 0x504"
  "ld32 demo_mem 0x40000818 = 1" "ld32 demo_mem 0x4000081C = 42" "ld32 demo_mem 0x40000840 = 0x20000102"
  by (simp_all add: demo_mem_def demo_exc_at mem_simps word_apart_def)

lemma demo_opcode: "ld16 demo_mem 0x20000100 = 0x783E"
  by (simp add: demo_mem_def demo_exc_at ld16_def st32_def)

lemma demo_interfaces:
  "g_interface_container demo_call ! 1 = \<lparr>ic_interface = Some 0, ic_count = 1\<rparr>"
  "g_interface_list demo_call ! 0 = \<lparr>if_func = 0x20010100, if_args_num = 1\<rparr>"
  "length (g_interface_list demo_call) = CONTAINER_INTERFACE_COUNT"
proof -
  show "g_interface_container demo_call ! 1 = \<lparr>ic_interface = Some 0, ic_count = 1\<rparr>"
      "g_interface_list demo_call ! 0 = \<lparr>if_func = 0x20010100, if_args_num = 1\<rparr>"
    using demo_init_tables demo_init by (auto simp: demo_call_def)
  show "length (g_interface_list demo_call) = CONTAINER_INTERFACE_COUNT"
    using demo_call_ok(1) by (simp add: ss_inv_def wf_defs)
qed

lemma demo_registered: "registered demo_call 1 0x20010100 1"
  using demo_interfaces by (cases "g_interface_list demo_call") (simp_all add: registered_def block_items_def)

lemma demo_target:
  "call_opcode_len demo_ss = 2" "exc_of_processor demo_ss a = a + 16"
  "trap_pc demo_ss 0x40000800 demo_call = 0x20000100" "exc_ld demo_ss demo_call 0x40000800 R0 = 1"
  "container_call_get_dst_fn demo_ss demo_call 0x20000100 = 0x20010100"
proof -
  show len: "call_opcode_len demo_ss = 2" and "exc_of_processor demo_ss a = a + 16"
    by (simp_all add: call_opcode_len_def exc_of_processor_def ARC_CALLEE_FRAME_T_SIZE_def CALLEE_FRAME_T_def demo_defs)
  show "trap_pc demo_ss 0x40000800 demo_call = 0x20000100" "exc_ld demo_ss demo_call 0x40000800 R0 = 1"
    "container_call_get_dst_fn demo_ss demo_call 0x20000100 = 0x20010100"
    by (simp_all add: trap_pc_def exc_ld_def container_call_get_dst_fn_def len demo_call_ok demo_exc_at demo_words)
qed

lemma demo_call_valid: "call_valid_v1 demo_ss 0x40000800 demo_call 1"
proof -
  have "cfgtbl_ptr_start demo_ss = 0x500"
    by (simp add: demo_defs)
  then show ?thesis
    using demo_registered
    by (simp add: call_valid_v1_def demo_target call_opcode_ok_def demo_fields demo_call_ok demo_words demo_opcode
        cfg_index_def)
qed

theorem trap_container_call_in_accepts_iff_witness:
  "\<exists>r t. trap_container_call_in demo_ss 0x40000800 demo_call = Inr (r, t)"
  using trap_container_call_in_accepts_iff [OF demo_call_ok(3,1), of "0x40000800"] demo_call_ok(4,5)
    exI [of "call_valid_v1 demo_ss 0x40000800 demo_call", OF demo_call_valid]
  by simp

lemma demo_cur_sp: "cx_cur_sp (g_container_context demo_call ! 1) = 0x400009A8"
proof -
  have "cx_cur_sp (g_container_context demo_call ! 1) = frame_below demo_ss 0x40000A00"
    using demo_init_tables demo_init by (auto simp: demo_call_def)
  then show ?thesis
    by (simp add: frame_below_def ARC_PROCESSOR_FRAME_T_SIZE_def PROCESSOR_FRAME_T_def CALLEE_FRAME_T_def
        INT_EXC_FRAME_T_def demo_defs)
qed

lemma demo_called:
  obtains t where "trap_container_call_in demo_ss 0x40000800 demo_call = Inr (0x400009A8, t)"
proof -
  obtain r t where t: "trap_container_call_in demo_ss 0x40000800 demo_call = Inr (r, t)"
    using call_in_v1_accepts [OF demo_call_ok(3,1,4) demo_call_valid] demo_call_ok(5) by auto
  then show ?thesis
    using called_v1_memory(2) [OF demo_call_ok(3,1,4) t demo_call_valid] demo_cur_sp that by simp
qed

theorem trap_container_call_in_enters_witness:
  "\<exists>t. trap_container_call_in demo_ss 0x40000800 demo_call = Inr (0x400009A8, t) \<and>
     g_active_container t = 1 \<and> exc_ld demo_ss t 0x400009B8 Ret = 0x20010100 \<and> ld32 (memory t) 0x400009D0 = 42"
proof -
  obtain t where t: "trap_container_call_in demo_ss 0x40000800 demo_call = Inr (0x400009A8, t)"
    by (rule demo_called)
  have "areas_apart 32 (exc_of_processor demo_ss 0x400009A8) 0x40000800"
    unfolding demo_target by (rule areas_apartI) simp_all
  then show ?thesis
    using trap_container_call_in_enters [OF demo_call_ok(3,1,4) t demo_call_valid] t
    unfolding demo_target demo_exc_at demo_call_ok(7) demo_args_room by (simp add: demo_words)
qed

text \<open>The same call with seven arguments, one more than the frame has room for.\<close>

definition demo_mem7 :: mem where
  "demo_mem7 = fold (\<lambda>(a, v) m. st32 m a v) [(0x40000818, 7), (0x40000834, 0x20000200)] demo_mem"

definition demo_call7 :: ss_state where
  "demo_call7 = demo_call\<lparr>memory := demo_mem7,
     g_interface_list := (g_interface_list demo_call)[0 := \<lparr>if_func = 0x20010100, if_args_num = 7\<rparr>]\<rparr>"

lemma demo_mem7_words:
  "ld32 demo_mem7 0x20000106 = 0x12345678" "ld32 demo_mem7 0x2000010A = 0x20010100" "ld32 demo_mem7 0x2000010E = 0x504"
  "ld32 demo_mem7 0x40000818 = 7" "ld32 demo_mem7 0x40000834 = 0x20000200" "ld32 demo_mem7 0x40000840 = 0x20000102"
  "ld16 demo_mem7 0x20000100 = 0x783E"
  by (simp_all add: demo_mem7_def demo_words mem_simps word_apart_def)
    (simp add: demo_mem_def demo_exc_at ld16_def st32_def)

lemma demo_call7_ok:
  "ss_inv demo_ss demo_call7" "\<not> arc_int_active demo_call7" "g_container_stack_ptr demo_call7 = 0"
  "registered demo_call7 1 0x20010100 7"
proof -
  have "mpu_entry demo_ss demo_call7 j = mpu_entry demo_ss demo_call j" for j
    by (simp add: mpu_entry_def demo_call7_def)
  moreover have "allowed_regions demo_call7 = allowed_regions demo_call"
    by (simp add: allowed_regions_def container_regions_def is_secure_def container_is_secure_def demo_call7_def)
  moreover have "ss_wf demo_ss demo_call7"
    using demo_call_ok(1) by (simp add: demo_call7_def ss_inv_def wf_defs)
  ultimately show "ss_inv demo_ss demo_call7"
    using demo_call_ok(1) by (simp add: ss_inv_def mpu_confined_def)
  show "\<not> arc_int_active demo_call7" "g_container_stack_ptr demo_call7 = 0"
    using demo_call_ok(4,5) by (simp_all add: demo_call7_def arc_int_active_def aux_defs)
  show "registered demo_call7 1 0x20010100 7"
    using demo_interfaces
    by (cases "g_interface_list demo_call") (simp_all add: registered_def block_items_def demo_call7_def)
qed

lemma demo_call7_target:
  "memory demo_call7 = demo_mem7" "g_vmpu_container_count demo_call7 = 2" "g_container_stack_curr_id demo_call7 = 0"
  "trap_pc demo_ss 0x40000800 demo_call7 = 0x20000100" "exc_ld demo_ss demo_call7 0x40000800 R0 = 7"
  "container_call_get_dst_fn demo_ss demo_call7 0x20000100 = 0x20010100"
  "cx_cur_sp (g_container_context demo_call7 ! 1) = 0x400009A8"
proof -
  show m: "memory demo_call7 = demo_mem7" and "g_vmpu_container_count demo_call7 = 2"
      "g_container_stack_curr_id demo_call7 = 0"
    using demo_call_ok(6,8) by (simp_all add: demo_call7_def)
  show "trap_pc demo_ss 0x40000800 demo_call7 = 0x20000100" "exc_ld demo_ss demo_call7 0x40000800 R0 = 7"
      "container_call_get_dst_fn demo_ss demo_call7 0x20000100 = 0x20010100"
    by (simp_all add: trap_pc_def exc_ld_def container_call_get_dst_fn_def demo_target m demo_exc_at demo_mem7_words)
  show "cx_cur_sp (g_container_context demo_call7 ! 1) = 0x400009A8"
    using demo_cur_sp by (simp add: demo_call7_def)
qed

lemma demo_call7_valid: "call_valid_v1 demo_ss 0x40000800 demo_call7 1"
proof -
  have "cfgtbl_ptr_start demo_ss = 0x500"
    by (simp add: demo_defs)
  then show ?thesis
    using demo_call7_ok(4)
    by (simp add: call_valid_v1_def demo_call7_target demo_target call_opcode_ok_def demo_fields demo_mem7_words
        cfg_index_def)
qed

theorem trap_container_call_in_args_overflow_witness:
  "\<exists>r t. trap_container_call_in demo_ss 0x40000800 demo_call7 = Inr (r, t) \<and> g_active_container t = 1 \<and>
     exc_ld demo_ss t 0x400009B8 Blink = 0x20000200"
proof -
  have "areas_apart (32 + 7) 0x400009B8 0x40000800"
    by (rule areas_apartI) simp_all
  moreover have "exc_at demo_ss 0x40000800 Blink = 0x40000830"
    by (simp add: exc_at_def INT_EXC_FRAME_T_def demo_defs)
  ultimately show ?thesis
    using trap_container_call_in_args_overflow [OF demo_call_ok(3) demo_call7_ok(1,2) demo_call7_valid, of 7 "0x400009B8"]
    unfolding demo_call7_target demo_target demo_args_room demo_call7_ok(3) by (auto simp: demo_mem7_words)
qed

section \<open>Returns\<close>

lemma load_regions_memory: "load_regions b r n k s = Inr (k', t) \<Longrightarrow> memory t = memory s"
  by (induction b r n k s rule: load_regions.induct) (auto simp: res_simps split: if_splits option.splits)

lemma sid_load_memory: "sid_load b i n s = Inr t \<Longrightarrow> memory t = memory s"
  by (induction b i n s rule: sid_load.induct) (auto simp: res_simps Let_def)

lemma switch_memory:
  assumes "vmpu_switch b src dst s = Inr t"
  shows "memory t = memory s"
  using assms
  by (auto simp: vmpu_switch_def vmpu_switch_sid_def vmpu_switch_load_def load_container_def res_simps Let_def
      split: if_splits dest!: sid_load_memory load_regions_memory)

lemma pop_memory: "container_stack_pop d sp nsp st s = Inr t \<Longrightarrow> memory t = memory s"
  by (auto simp: container_stack_pop_def set_context_def res_simps split: if_splits option.splits)

lemma call_out_v1_result:
  assumes "trap_container_call_out b g u = Inr (r, v)"
  shows "exc_ld b v (exc_of_processor b r) R0 = exc_ld b u g R0"
  using assms
  by (auto simp: trap_container_call_out_def Let_def res_simps exc_ld_def exc_st_def mem_simps
      dest!: switch_memory pop_memory)

text \<open>What lies between a call and the matching return keeps what the call has saved.\<close>

lemma matching_return:
  assumes b: "mpu_build_ok b" and inv: "ss_inv b s" and ent: "entered b item s t"
    and run: "ss_run b (g_container_stack_ptr t) t u" and top: "g_container_stack_ptr u = g_container_stack_ptr t"
    and ret: "returned b item' u v"
  shows "item' = item" "g_container_stack_ptr v = g_container_stack_ptr s" "g_container_stack_curr_id v = cs_src_id item"
    "keeps b (g_container_stack_ptr s) s v" "ids_agree s \<Longrightarrow> g_active_container v = cs_src_id item"
proof -
  let ?k = "g_container_stack_ptr s"
  have t: "keeps b ?k s t" "g_container_stack_ptr t = ?k + 1" "g_container_stack t ! ?k = item" "ids_agree s \<longrightarrow> ids_agree t"
    using ent by (auto simp: entered_def)
  have u: "keeps b (?k + 1) t u" "ids_agree t \<longrightarrow> ids_agree u"
    using ss_run_keeps [OF run b] keeps_inv [OF t(1) inv] t(2) by simp_all
  have v: "g_container_stack_ptr v = ?k" "item' = g_container_stack u ! ?k" "g_container_stack_curr_id v = cs_src_id item'"
      "keeps b ?k u v" "ids_agree u \<longrightarrow> ids_agree v"
    using ret top t(2) by (auto simp: returned_def)
  show ii: "item' = item"
    using u(1) t(3) v(2) by (simp add: keeps_def same_stack_def)
  show "g_container_stack_ptr v = ?k" "g_container_stack_curr_id v = cs_src_id item"
    using v ii by simp_all
  have "keeps b ?k t u"
    using u(1) by (simp add: keeps_def same_stack_def)
  then show "keeps b ?k s v"
    using keeps_trans [OF keeps_trans [OF t(1)] v(4)] by blast
  show "g_active_container v = cs_src_id item" if "ids_agree s"
    using that t(4) u(2) v(3,5) ii by (simp add: ids_agree_def)
qed

text \<open>
  C2. A container call of version 1 returns to its caller. Whatever runs between an accepted call
  and the matching return - code of containers, nested calls, interrupts and faults in any order,
  as long as the container stack does not drop below the call - the return continues in the
  frame the caller was interrupted in, with the caller as the active container and the callee's
  result in the caller's result register, and the older entries of the container stack, the
  tables and the entries of the protection unit that belong to the runtime are as before.
\<close>

theorem trap_container_call_returns:
  assumes "mpu_build_ok b" "ss_inv b s" "ids_agree s" "\<not> arc_int_active s"
    and call: "trap_container_call_in b f s = Inr (r, t)"
    and run: "ss_run b (g_container_stack_ptr t) t u" and top: "g_container_stack_ptr u = g_container_stack_ptr t"
    and ret: "trap_container_call_out b g u = Inr (r', v)"
  shows "r' = processor_of_exc b f \<and> exc_ld b v f R0 = exc_ld b u g R0 \<and>
    g_active_container v = g_active_container s \<and> g_container_stack_curr_id v = g_container_stack_curr_id s \<and>
    g_container_stack_ptr v = g_container_stack_ptr s \<and> ss_inv b v \<and> same_tables s v \<and>
    (\<forall>i < g_container_stack_ptr s. g_container_stack v ! i = g_container_stack s ! i) \<and>
    (\<forall>j < ARC_MPU_RESERVED_REGIONS. mpu_entry b v j = mpu_entry b s j)"
proof -
  let ?item = "\<lparr>cs_src_id = g_container_stack_curr_id s, cs_src_sp = processor_of_exc b f\<rparr>"
  have ent: "entered b ?item s t"
    using safe_Inr [OF call_in_v1_spec [OF assms(1,2)] call] assms(4) by (auto simp: called_v1_def)
  have "keeps b 0 s t"
    using ent by (simp add: entered_def)
  then have "ss_inv b u"
    using ss_run_keeps [OF run assms(1)] keeps_inv [OF _ assms(2), of 0 t]
      keeps_inv [of b "g_container_stack_ptr t" t u] by blast
  then obtain item' where ret': "r' = cs_src_sp item'" "returned b item' u v"
    using safe_Inr [OF call_out_v1_safe [OF assms(1)] ret] by blast
  note m = matching_return [OF assms(1,2) ent run top ret'(2)]
  have "exc_ld b v f R0 = exc_ld b u g R0"
    using call_out_v1_result [OF ret] ret'(1) m(1) by simp
  then show ?thesis
    using m(2-4) m(5) [OF assms(3)] assms(2,3) ret'(1) m(1)
    by (simp add: keeps_def same_stack_def same_entries_def ids_agree_def)
qed

text \<open>A return succeeds whenever there is something to return to.\<close>

lemma call_out_v1_succeeds:
  assumes b: "mpu_build_ok b" and inv: "ss_inv b s" and ptr: "0 < g_container_stack_ptr s"
  shows "\<exists>r t. trap_container_call_out b g s = Inr (r, t)"
proof -
  let ?id = "g_container_stack_curr_id s"
  have id: "?id < g_vmpu_container_count s" "?id < length (g_container_context s)"
    using inv_ids(1) [OF inv] inv_ids(5) [OF inv] by simp_all
  have "g_container_stack_ptr s \<le> STACK_MAX_DEPTH" "length (g_container_stack s) = STACK_MAX_DEPTH"
    using inv by (simp_all add: ss_inv_def wf_defs)
  then have "g_container_stack_ptr s - 1 < length (g_container_stack s)"
    using ptr by linarith
  then obtain t where t: "container_stack_pop ?id (processor_of_exc b g) (arc_aux_read s AUX_USER_SP) (exc_ld b s g Status32) s = Inr t"
    using ptr id by (auto simp: container_stack_pop_def set_context_def arr_get_def)
  let ?item = "g_container_stack s ! g_container_stack_ptr t"
  have p: "keeps b 0 s t" "stack_item t = Inr ?item" "cs_src_id ?item < g_vmpu_container_count t"
    using safe_Inr [OF safe_pop [OF inv id(1)] t] by auto
  let ?t = "exc_st b (exc_of_processor b (cs_src_sp ?item)) R0 (exc_ld b t g R0) t"
  have k: "keeps b 0 t ?t"
    by (rule core_step_keeps [OF b]) (simp add: core_intros)
  have "\<exists>u. vmpu_switch b ?id (cs_src_id ?item) ?t = Inr u"
    using switch_succeeds [OF b keeps_inv [OF k keeps_inv [OF p(1) inv]]] p(3) keeps_count [OF k] by simp
  then show ?thesis
    using t p(2) by (auto simp: trap_container_call_out_def Let_def)
qed

theorem trap_container_call_returns_witness:
  "\<exists>r t u r' v. trap_container_call_in demo_ss 0x40000800 demo_call = Inr (r, t) \<and>
     ss_run demo_ss (g_container_stack_ptr t) t u \<and> exc_ld demo_ss u 0x400009B8 R0 = 99 \<and>
     trap_container_call_out demo_ss 0x400009B8 u = Inr (r', v) \<and>
     g_active_container v = g_active_container demo_call \<and> exc_ld demo_ss v 0x40000800 R0 = 99"
proof -
  obtain t where t: "trap_container_call_in demo_ss 0x40000800 demo_call = Inr (0x400009A8, t)"
    by (rule demo_called)
  then have ent: "keeps demo_ss 0 demo_call t" "g_container_stack_ptr t = 1"
    using safe_Inr [OF call_in_v1_spec [OF demo_call_ok(3,1)] t] demo_call_ok(4,5) by (auto simp: called_v1_def entered_def)
  let ?u = "exc_st demo_ss 0x400009B8 R0 99 t"
  have core: "core_step demo_ss t ?u"
    by (simp add: core_intros)
  have ptr: "g_container_stack_ptr ?u = g_container_stack_ptr t"
    using ss_fields_more [OF core_step_fields [OF core]] by simp
  have run: "ss_run demo_ss (g_container_stack_ptr t) t ?u"
    by (rule run_container [OF run_refl core]) simp
  have "ss_inv demo_ss ?u"
    using keeps_inv [OF core_step_keeps [OF demo_call_ok(3) core] keeps_inv [OF ent(1) demo_call_ok(1)]] .
  then obtain r' v where v: "trap_container_call_out demo_ss 0x400009B8 ?u = Inr (r', v)"
    using call_out_v1_succeeds [OF demo_call_ok(3), of ?u "0x400009B8"] ptr ent(2) by auto
  have "exc_ld demo_ss ?u 0x400009B8 R0 = 99"
    by (simp add: exc_ld_def exc_st_def mem_simps)
  then show ?thesis
    using trap_container_call_returns [OF demo_call_ok(3,1,2,4) t run ptr v] t run v by metis
qed

end
