(* ===== verification/Ss_Guard.thy ===== *)
theory Ss_Guard
  imports Ss_Props
begin

text \<open>
  What guards the memory, the auxiliary registers and the interrupts of a container: the access
  rights that reach the protection unit, the regions a switch and a fault load, the registers and
  interrupts that a service lets a container use; and the cases in which the checks of regions
  at start-up do not do what they are there for.
\<close>

section \<open>Access rights\<close>

lemma has_and_mask: "has (ac AND m) x = has ac x" if "x AND m = x" for ac m x :: u32
  unfolding has_def and.assoc and.commute [of m x] that ..

text \<open>
  C12. The attributes that reach the protection unit are exactly the access rights asked for:
  every combination of rights that the unit cannot express stops the runtime instead of being
  widened or narrowed.
\<close>

theorem vmpu_map_ac_exact:
  assumes "vmpu_map_ac b ac = Inr flags"
  shows "(has flags AUX_MPU_ATTR_UR \<longleftrightarrow> has ac AC_UREAD) \<and> (has flags AUX_MPU_ATTR_UW \<longleftrightarrow> has ac AC_UWRITE) \<and>
    (has flags AUX_MPU_ATTR_UE \<longleftrightarrow> has ac AC_UEXECUTE) \<and> (has flags AUX_MPU_ATTR_KR \<longleftrightarrow> has ac AC_KREAD) \<and>
    (has flags AUX_MPU_ATTR_KW \<longleftrightarrow> has ac AC_KWRITE) \<and> (has flags AUX_MPU_ATTR_KE \<longleftrightarrow> has ac AC_KEXECUTE) \<and>
    (has flags AUX_MPU_ATTR_S \<longleftrightarrow> has ac AC_SECURE)"
proof -
  have mask: "has ac AC_UREAD = has (ac AND AC_ACCESS) AC_UREAD" "has ac AC_UWRITE = has (ac AND AC_ACCESS) AC_UWRITE"
      "has ac AC_UEXECUTE = has (ac AND AC_ACCESS) AC_UEXECUTE" "has ac AC_KREAD = has (ac AND AC_ACCESS) AC_KREAD"
      "has ac AC_KWRITE = has (ac AND AC_ACCESS) AC_KWRITE" "has ac AC_KEXECUTE = has (ac AND AC_ACCESS) AC_KEXECUTE"
      "has ac AC_SECURE = has (ac AND AC_ACCESS) AC_SECURE"
    by (simp_all add: has_and_mask)
  obtain r where r: "ac AND AC_ACCESS = r"
    by simp
  show ?thesis
    using assms unfolding vmpu_map_ac_def mask Let_def unfolding r
    by (simp split: if_splits) (auto simp: has_def)
qed

theorem vmpu_map_ac_exact_witness:
  "vmpu_map_ac demo_ss ACDEF_URAM = Inr 0x1B0 \<and> has 0x1B0 AUX_MPU_ATTR_UW \<and> \<not> has 0x1B0 AUX_MPU_ATTR_UE"
proof -
  have "vmpu_map_ac demo_ss ACDEF_URAM = Inr 0x1B0"
    by (simp add: vmpu_map_ac_def has_def demo_defs)
  then show ?thesis
    using vmpu_map_ac_exact [of demo_ss ACDEF_URAM "0x1B0"] by (simp add: has_def)
qed

section \<open>Loading the unit\<close>

text \<open>
  C8. A switch without secure identifiers always succeeds in a consistent state and makes the unit
  hold the regions of the new container, then those of the background container, in that order
  and as far as the entries reach; all other entries are empty, the runtime's own are untouched.
\<close>

theorem vmpu_switch_loads:
  assumes "mpu_build_ok b" "\<not> ss_sid b" "ss_inv b s" "dst_id < g_vmpu_container_count s"
  shows "\<exists>t. vmpu_switch b src_id dst_id s = Inr t \<and> g_active_container t = dst_id \<and> memory t = memory s \<and>
    (\<forall>j. ARC_MPU_RESERVED_REGIONS \<le> j \<and> j < mpu_regions b \<longrightarrow>
       mpu_entry b t j = (if j - ARC_MPU_RESERVED_REGIONS < length (switch_regions s dst_id)
         then encode_region b (switch_regions s dst_id ! (j - ARC_MPU_RESERVED_REGIONS)) else empty_entry b)) \<and>
    (\<forall>j < ARC_MPU_RESERVED_REGIONS. mpu_entry b t j = mpu_entry b s j)"
proof -
  have ok: "mpu_tables_ok s" "dst_id < SECURESHIELD_MAX_CONTAINERS" "g_mpu_region_count s \<noteq> 0"
    using assms(2-4) by (simp_all add: ss_inv_def wf_defs)
  obtain t k where "vmpu_switch_load b dst_id s = Inr t" "memory t = memory s"
      "arc_core.more t = arc_core.more (s\<lparr>g_active_container := dst_id, g_mpu_slot := k\<rparr>)"
      "unit_loaded b t (switch_regions s dst_id)" "\<forall>j < 2. mpu_entry b t j = mpu_entry b s j"
    using vmpu_switch_load_spec [OF assms(1) ok] by blast
  then show ?thesis
    using assms(2) ss_fields_more(2) [of t] by (auto simp: vmpu_switch_def unit_loaded_def)
qed

theorem vmpu_switch_loads_witness:
  "\<exists>t. vmpu_switch demo_ss 0 1 demo_booted = Inr t \<and> g_active_container t = 1 \<and>
     mpu_entry demo_ss t 0 = mpu_entry demo_ss demo_booted 0"
  using vmpu_switch_loads [OF demo_call_ok(3) demo_fields(3), of demo_booted 1 0] demo_booted_ok
  by (auto simp: booted_def demo_fields)

text \<open>
  C11. After a protection fault the runtime either changes nothing and reports failure, or it loads
  one region into the current entry: a region that contains the faulting address and that the
  active container may access. All other entries stay as they are.
\<close>

theorem vmpu_fault_recovery_allowed:
  assumes b: "mpu_build_ok b" and inv: "ss_inv b s" and res: "vmpu_fault_recovery_mpu b a s = Inr (ret, t)"
  shows "ret = -1 \<and> t = s \<or>
    ret = 0 \<and> (\<exists>r \<in> allowed_regions s. region_has_addr a r \<and>
      (\<forall>j < 16. mpu_entry b t j =
        (if j = g_mpu_slot s \<and> j < mpu_regions b then encode_region b r else mpu_entry b s j)))"
proof -
  have wf: "ss_wf b s"
    using inv by (simp add: ss_inv_def)
  obtain r where r: "vmpu_fault_find_region s a = Inr r"
    "case r of None \<Rightarrow> True | Some j \<Rightarrow> j < length (g_mpu_list s) \<and> region_has_addr a (g_mpu_list s ! j)
       \<and> g_mpu_list s ! j \<in> allowed_regions s"
    using find_region_spec [OF wf] by blast
  show ?thesis
  proof (cases r)
    case None
    then show ?thesis
      using r res by (simp add: vmpu_fault_recovery_mpu_def)
  next
    case (Some i)
    let ?r = "g_mpu_list s ! i"
    let ?t = "arc_mpu_region_config b (g_mpu_slot s) (rg_base ?r) (rg_size ?r) (rg_attr ?r) s"
    have "ret = 0" "mpu_entry b t j = mpu_entry b ?t j" for j
      using res r Some by (auto simp: vmpu_fault_recovery_mpu_def Let_def arr_get_def)
    moreover have "mpu_entry b ?t j =
        (if j = g_mpu_slot s \<and> j < mpu_regions b then encode_region b ?r else mpu_entry b s j)" if "j < 16" for j
      by (cases "g_mpu_slot s < mpu_regions b")
        (auto simp: mpu_entry_config [OF b _ that] arc_mpu_region_config_out_of_range encode_region_def)
    ultimately show ?thesis
      using r Some by auto
  qed
qed

section \<open>Auxiliary registers\<close>

definition aux_granted :: "ss_state \<Rightarrow> u32 \<Rightarrow> bool" where
  "aux_granted s addr \<longleftrightarrow>
     (\<exists>c \<in> {g_active_container s, 0}.
        \<exists>g \<in> set (block_items (g_aux_list s) (ax_aux (g_aux_container s ! c)) (ax_count (g_aux_container s ! c))).
          aux_grants addr g)"

lemma aux_block_scan:
  assumes "aux_wf s" "c < SECURESHIELD_MAX_CONTAINERS"
  obtains r where "block_scan (aux_grants addr) (g_aux_list s) (ax_aux (g_aux_container s ! c)) (ax_count (g_aux_container s ! c)) = Inr r"
    "(\<exists>g \<in> set (block_items (g_aux_list s) (ax_aux (g_aux_container s ! c)) (ax_count (g_aux_container s ! c))).
        aux_grants addr g) = (r \<noteq> None)"
proof -
  have ok: "block_ok (ax_aux (g_aux_container s ! c)) (ax_count (g_aux_container s ! c)) CONTAINER_AUX_COUNT"
      "CONTAINER_AUX_COUNT \<le> length (g_aux_list s)"
    using assms by (simp_all add: aux_wf_def)
  obtain r where r: "block_scan (aux_grants addr) (g_aux_list s) (ax_aux (g_aux_container s ! c)) (ax_count (g_aux_container s ! c)) = Inr r"
    "case r of None \<Rightarrow> \<forall>x \<in> set (block_items (g_aux_list s) (ax_aux (g_aux_container s ! c)) (ax_count (g_aux_container s ! c))). \<not> aux_grants addr x
     | Some j \<Rightarrow> j < length (g_aux_list s) \<and>
         g_aux_list s ! j \<in> set (block_items (g_aux_list s) (ax_aux (g_aux_container s ! c)) (ax_count (g_aux_container s ! c))) \<and>
         aux_grants addr (g_aux_list s ! j)"
    using block_scan_items [OF ok, of "aux_grants addr"] by blast
  show ?thesis
    by (rule that [OF r(1)]) (use r(2) in \<open>cases r; auto\<close>)
qed

lemma aux_check_iff:
  assumes wf: "ss_wf b s"
  shows "secureshield_aux_check s (g_active_container s) addr = Inr (aux_granted s addr)"
proof -
  let ?c = "g_active_container s"
  have aux: "aux_wf s" and len: "length (g_aux_container s) = SECURESHIELD_MAX_CONTAINERS" and c: "?c < SECURESHIELD_MAX_CONTAINERS"
    using wf by (simp_all add: wf_defs)
  obtain r where r: "block_scan (aux_grants addr) (g_aux_list s) (ax_aux (g_aux_container s ! ?c)) (ax_count (g_aux_container s ! ?c)) = Inr r"
    "(\<exists>g \<in> set (block_items (g_aux_list s) (ax_aux (g_aux_container s ! ?c)) (ax_count (g_aux_container s ! ?c))).
        aux_grants addr g) = (r \<noteq> None)"
    by (rule aux_block_scan [OF aux c])
  obtain q where q: "block_scan (aux_grants addr) (g_aux_list s) (ax_aux (g_aux_container s ! 0)) (ax_count (g_aux_container s ! 0)) = Inr q"
    "(\<exists>g \<in> set (block_items (g_aux_list s) (ax_aux (g_aux_container s ! 0)) (ax_count (g_aux_container s ! 0))).
        aux_grants addr g) = (q \<noteq> None)"
    by (rule aux_block_scan [OF aux, of 0]) simp
  have "aux_granted s addr \<longleftrightarrow> r \<noteq> None \<or> q \<noteq> None"
    unfolding aux_granted_def using r(2) q(2) by blast
  moreover have "q = None" if "ax_aux (g_aux_container s ! 0) = None"
    using q(2) that by (simp add: block_items_def)
  ultimately show ?thesis
    unfolding secureshield_aux_check_def using r(1) q(1) c len by (simp add: arr_get_def)
qed

text \<open>
  C10. A container reads and writes an auxiliary register through the runtime exactly when the
  register lies in a range granted to it or to the background container; otherwise a write has
  no effect at all and a read gives all ones.
\<close>

theorem secure_aux_access_granted:
  assumes "ss_wf b s"
  shows "secure_arc_sr_reg addr v s = Inr (if aux_granted s addr then arc_aux_write addr v s else s) \<and>
    secure_arc_lr_reg addr s = Inr (if aux_granted s addr then arc_aux_read s addr else 0xffffffff)"
  by (simp add: secure_arc_sr_reg_def secure_arc_lr_reg_def aux_check_iff [OF assms])

theorem vmpu_fault_recovery_allowed_witness:
  "\<exists>ret t. vmpu_fault_recovery_mpu demo_ss 0x20000004 demo_booted = Inr (ret, t) \<and>
     (ret = -1 \<and> t = demo_booted \<or>
      ret = 0 \<and> (\<exists>r \<in> allowed_regions demo_booted. region_has_addr 0x20000004 r))"
proof -
  have inv: "ss_inv demo_ss demo_booted"
    using demo_booted_ok by (simp add: booted_def)
  obtain ret t where "vmpu_fault_recovery_mpu demo_ss 0x20000004 demo_booted = Inr (ret, t)"
    by (rule fault_recovery_keeps [OF demo_call_ok(3) inv])
  then show ?thesis
    using vmpu_fault_recovery_allowed [OF demo_call_ok(3) inv] by blast
qed

theorem secure_aux_access_granted_witness:
  "secure_arc_sr_reg AUX_MPU_RDB0 7 demo_booted = Inr demo_booted \<and>
   secure_arc_lr_reg AUX_MPU_RDB0 demo_booted = Inr 0xffffffff"
proof -
  have wf: "ss_wf demo_ss demo_booted"
    using demo_booted_ok by (simp add: booted_def ss_inv_def)
  then have "aux_wf demo_booted"
    by (simp add: ss_wf_def)
  then have "\<not> aux_grants AUX_MPU_RDB0 g" if "g \<in> set (g_aux_list demo_booted)" for g
    using that by (auto simp: aux_wf_def mpu_reg_def)
  then have "\<not> aux_granted demo_booted AUX_MPU_RDB0"
    by (auto simp: aux_granted_def block_items_def split: option.splits dest!: in_set_takeD in_set_dropD)
  then show ?thesis
    using secure_aux_access_granted [OF wf, of AUX_MPU_RDB0 7] by simp
qed

section \<open>Interrupts\<close>

text \<open>
  Interrupt \<open>i\<close> (counted from the first external one) belongs to a container other than the active
  one and other than the background container. Owner 0 stands for the background container and for
  interrupts that nobody has claimed; those are open to every container.
\<close>

definition foreign_int :: "ss_state \<Rightarrow> nat \<Rightarrow> bool" where
  "foreign_int s i \<longleftrightarrow>
     i < length (int_handler_table s) \<and> ih_id (int_handler_table s ! i) \<noteq> 0 \<and>
     ih_id (int_handler_table s ! i) \<noteq> g_active_container s"

text \<open>A step that changes nothing of an interrupt: neither its table entry nor its registers.\<close>

definition same_int :: "nat \<Rightarrow> ss_state \<Rightarrow> ss_state \<Rightarrow> bool" where
  "same_int i s t \<longleftrightarrow>
     int_handler_table t ! i = int_handler_table s ! i \<and>
     irq_bank t (of_nat (i + NUM_EXC_CPU)) = irq_bank s (of_nat (i + NUM_EXC_CPU))"

lemma same_int_refl [simp]: "same_int i s s"
  by (simp add: same_int_def)

lemma same_int_helpers:
  assumes "n \<noteq> of_nat (i + NUM_EXC_CPU)"
  shows "same_int i s (arc_int_disable n s)" "same_int i s (arc_int_enable n s)"
    "same_int i s (arc_int_pri_set n p s)" "same_int i s (snd (arc_int_pri_get n s))"
    "same_int i s (arc_int_sw_trigger n s)" "same_int i s (snd (arc_int_probe n s))"
    "same_int i s (arc_int_level_config n l s)" "same_int i s (arc_aux_write AUX_IRQ_SELECT n s)"
  using assms
  by (simp_all add: same_int_def arc_int_disable_def arc_int_enable_def arc_int_pri_set_def arc_int_pri_get_def
      arc_int_sw_trigger_def arc_int_probe_def arc_int_level_config_def aux_write_simps Let_def)

lemma active_int_helpers [simp]:
  "g_active_container (arc_int_disable n s) = g_active_container s"
  "g_active_container (arc_int_enable n s) = g_active_container s"
  by (simp_all add: arc_int_disable_def arc_int_enable_def)

lemma table_int_helpers [simp]:
  "int_handler_table (arc_int_disable n s) = int_handler_table s"
  "int_handler_table (arc_int_enable n s) = int_handler_table s"
  by (simp_all add: arc_int_disable_def arc_int_enable_def)

lemma unat_int_number: "i < 240 \<Longrightarrow> unat (of_nat (i + NUM_EXC_CPU) :: u32) = i + NUM_EXC_CPU"
  by (rule unat_of_nat_u32) simp

lemma int_number_differs:
  assumes "unat n - NUM_EXC_CPU \<noteq> i" "i < 240"
  shows "n \<noteq> (of_nat (i + NUM_EXC_CPU) :: u32)"
  using assms(1) unat_int_number [OF assms(2)] by (metis add_diff_cancel_right')

lemma cpu_lock_same_int:
  assumes "\<And>k. k < length es \<Longrightarrow> j + k = i \<Longrightarrow> ih_id (es ! k) \<noteq> 0 \<and> ih_id (es ! k) \<noteq> g_active_container s"
    and "j + length es \<le> 240" "i < 240" "same_int i s t" "g_active_container t = g_active_container s"
  shows "same_int i s (cpu_lock_loop j es t) \<and> same_int i s (cpu_unlock_loop j es t)"
  using assms
proof (induction es arbitrary: j t)
  case (Cons e es)
  have IH: "same_int i s (cpu_lock_loop (j + 1) es u) \<and> same_int i s (cpu_unlock_loop (j + 1) es u)"
    if u: "same_int i s u" "g_active_container u = g_active_container s" for u
  proof (rule Cons.IH [OF _ _ Cons.prems(3) u])
    show "ih_id (es ! k) \<noteq> 0 \<and> ih_id (es ! k) \<noteq> g_active_container s" if "k < length es" "j + 1 + k = i" for k
      using Cons.prems(1) [of "Suc k"] that by simp
  qed (use Cons.prems in simp)
  have head: "same_int i s (if owned_or_background t e then arc_int_disable (of_nat (j + NUM_EXC_CPU)) t else t)"
    "same_int i s (if owned_or_background t e \<and> ih_enabled e then arc_int_enable (of_nat (j + NUM_EXC_CPU)) t else t)"
  proof -
    have "(of_nat (j + NUM_EXC_CPU) :: u32) \<noteq> of_nat (i + NUM_EXC_CPU)" if "j \<noteq> i"
      by (rule int_number_differs [OF _ Cons.prems(3)]) (use that Cons.prems(2) unat_int_number [of j] in simp)
    moreover have "\<not> owned_or_background t e" if "j = i"
      using Cons.prems(1) [of 0] Cons.prems(5) that by (simp add: owned_or_background_def)
    ultimately show "same_int i s (if owned_or_background t e then arc_int_disable (of_nat (j + NUM_EXC_CPU)) t else t)"
      "same_int i s (if owned_or_background t e \<and> ih_enabled e then arc_int_enable (of_nat (j + NUM_EXC_CPU)) t else t)"
      using Cons.prems(4) same_int_helpers [of "of_nat (j + NUM_EXC_CPU)" i t]
      by (auto simp: same_int_def simp del: of_nat_add)
  qed
  show ?case
    using IH [OF head(1)] IH [OF head(2)] Cons.prems(5) by (simp del: of_nat_add split: if_splits)
qed simp


lemma set_int_entry_same_int:
  "unat n - NUM_EXC_CPU \<noteq> i \<Longrightarrow> same_int i t (set_int_entry n e t)"
  by (simp add: same_int_def set_int_entry_def)

lemma same_int_trans: "same_int i s t \<Longrightarrow> same_int i t u \<Longrightarrow> same_int i s u"
  by (simp add: same_int_def)

lemma if_int_allowed_same_int:
  assumes foreign: "foreign_int s i" and normal: "container_is_secure s (g_active_container s) = Inr False"
    and res: "if_int_allowed b n failed act s = Inr (r, t)"
    and act: "\<And>r t. unat n - NUM_EXC_CPU \<noteq> i \<Longrightarrow> act s = Inr (r, t) \<Longrightarrow> same_int i s t"
  shows "same_int i s t"
proof -
  have "t = s \<or> unat n - NUM_EXC_CPU \<noteq> i \<and> act s = Inr (r, t)"
    using foreign normal res
    by (auto simp: if_int_allowed_def secure_int_ac_check_def int_entry_def arr_get_def foreign_int_def
        split: if_splits)
  then show ?thesis
    using act by auto
qed

lemma int_services_same_int:
  assumes "foreign_int s i" "container_is_secure s (g_active_container s) = Inr False" "i < 240"
  shows "secure_int_handler_get b n s = Inr (r, t) \<Longrightarrow> same_int i s t"
    and "secure_int_enable b n s = Inr (r, t) \<Longrightarrow> same_int i s t"
    and "secure_int_disable b n s = Inr (r, t) \<Longrightarrow> same_int i s t"
    and "secure_int_enabled b n s = Inr (r, t) \<Longrightarrow> same_int i s t"
    and "secure_int_pri_set b n p s = Inr (r, t) \<Longrightarrow> same_int i s t"
    and "secure_int_pri_get b n s = Inr (r, t) \<Longrightarrow> same_int i s t"
    and "secure_int_probe b n s = Inr (r, t) \<Longrightarrow> same_int i s t"
    and "secure_int_level_config b n l s = Inr (r, t) \<Longrightarrow> same_int i s t"
    and "secure_int_sw_trigger b n s = Inr (r, t) \<Longrightarrow> same_int i s t"
  unfolding secure_int_handler_get_def secure_int_enable_def secure_int_disable_def secure_int_enabled_def
    secure_int_pri_set_def secure_int_pri_get_def secure_int_probe_def secure_int_level_config_def
    secure_int_sw_trigger_def
  by (erule if_int_allowed_same_int [OF assms(1,2)];
      frule int_number_differs [OF _ assms(3)], use same_int_helpers [of n i s] in
      \<open>auto simp: res_simps Let_def split_beta intro: same_int_trans set_int_entry_same_int\<close>)+

lemma secure_int_handler_install_same_int:
  assumes "foreign_int s i" "secure_int_handler_install b n h s = Inr (r, t)"
  shows "same_int i s t"
proof -
  have "t = s \<or> unat n - NUM_EXC_CPU \<noteq> i \<and> (\<exists>e. t = set_int_entry n e s)"
    using assms by (auto simp: secure_int_handler_install_def foreign_int_def int_entry_def arr_get_def split: if_splits)
  then show ?thesis
    using set_int_entry_same_int by auto
qed

text \<open>
  C9. A normal container cannot touch an interrupt that another container other than the background
  container owns: whatever interrupt service it asks for, with whatever parameters, the handler,
  owner and enable flag recorded for the interrupt and its priority, enable and trigger registers
  stay as they are. Interrupts with owner 0, the background container, are not protected in this
  way: the code lets every container use them.
\<close>

theorem int_ops_foreign_unchanged:
  assumes "num_exc_int b \<le> 240" "length (int_handler_table s) = num_exc_int b"
    and "foreign_int s i" "container_is_secure s (g_active_container s) = Inr False"
    and "int_ops b lock_result ops par1 par2 s = Inr (r, t)"
  shows "same_int i s t"
proof -
  have i: "i < 240"
    using assms(1-3) by (simp add: foreign_int_def)
  have lock: "same_int i s (secure_cpu_lock s)" "same_int i s (secure_cpu_unlock s)"
    using cpu_lock_same_int [of "int_handler_table s" 0 i s s] assms(1-3) i
    by (auto simp: secure_cpu_lock_def secure_cpu_unlock_def foreign_int_def)
  show ?thesis
    using assms(5) lock secure_int_handler_install_same_int [OF assms(3)] int_services_same_int [OF assms(3,4) i]
    unfolding int_ops_def by (auto split: if_split_asm)
qed

text \<open>The demonstration system with interrupt 17 given to container 1 while the background container runs.\<close>

definition demo_irq :: ss_state where
  "demo_irq = demo_reset\<lparr>g_container_context := (g_container_context demo_reset)[0 := \<lparr>cx_cur_sp = 0,
       cx_normal_sp = 0, cx_cpu_status = 0, cx_cfg = Some demo_cfg\<rparr>],
     int_handler_table := (int_handler_table demo_reset)[1 := \<lparr>ih_handler = 0x20010200, ih_id = 1, ih_enabled = True\<rparr>]\<rparr>"

theorem int_ops_foreign_unchanged_witness:
  "\<exists>t. int_ops demo_ss 0 INT_EXC_CPU_LOCK 0 0 demo_irq = Inr (0, t) \<and> same_int 1 demo_irq t"
proof -
  have s: "num_exc_int demo_ss \<le> 240" "length (int_handler_table demo_irq) = num_exc_int demo_ss" "foreign_int demo_irq 1"
      "container_is_secure demo_irq (g_active_container demo_irq) = Inr False"
    by (simp_all add: demo_irq_def demo_reset_def demo_fields foreign_int_def container_is_secure_def arr_get_def
        demo_cfg_def arc_core.defs ss_state.defs core_zero_def)
  have "int_ops demo_ss 0 INT_EXC_CPU_LOCK 0 0 demo_irq = Inr (0, secure_cpu_lock demo_irq)"
    by (simp add: int_ops_def)
  then show ?thesis
    using int_ops_foreign_unchanged [OF s] by blast
qed

section \<open>Regions that the checks let through\<close>

lemmas ac_mem_eval = demo_reset_def vmpu_ac_mem_def mem_region_checks_def vmpu_ac_update_container_region_def
  VMPU_REGION_SIZE_def VMPU_SECURE_ROM_ADDR_def arr_get_def arr_set_def has_def update_region_v1_def
  embarc_pow2_ceil_def embarc_clz_def vmpu_map_ac_def region_conflicts_def demo_fields array_scan_numeral
  Let_def nth_list_update arc_core.defs ss_state.defs core_zero_def region_in_def demo_defs

text \<open>The container has no region so far, and the next entry of the list of regions is free.\<close>

definition no_region_yet :: "ss_state \<Rightarrow> nat \<Rightarrow> bool" where
  "no_region_yet s c \<longleftrightarrow>
     c < length (g_mpu_container s) \<and> g_mpu_container s ! c = \<lparr>mc_region = None, mc_count = 0\<rparr> \<and>
     g_mpu_region_count s < MPU_REGION_COUNT \<and> length (g_mpu_list s) = MPU_REGION_COUNT \<and>
     rg_attr (g_mpu_list s ! g_mpu_region_count s) = 0"

text \<open>A region that ends below the top of the address space and shares no address with a range.\<close>

definition region_clear :: "u32 \<Rightarrow> u32 \<Rightarrow> MPU_REGION \<Rightarrow> bool" where
  "region_clear addr sz r \<longleftrightarrow>
     unat (rg_base r) + unat (rg_size r) < 2 ^ 32 \<and>
     (unat (rg_base r) + unat (rg_size r) \<le> unat addr \<or> unat addr + unat sz \<le> unat (rg_base r))"

lemma has_either: "has ac (x OR y) \<longleftrightarrow> has ac x \<or> has ac y"
  unfolding has_def bit.conj_disj_distrib by (simp add: or_eq_0_iff)

lemma unat_last_addr:
  fixes addr sz :: u32
  assumes "0 < unat sz" "unat addr + unat sz \<le> 2 ^ 32"
  shows "unat (addr + sz - 1) = unat addr + unat sz - 1"
proof -
  have eq: "addr + sz - 1 = addr + (sz - 1)" "unat (sz - 1) = unat sz - 1"
    using assms(1) by (simp_all add: unat_minus_one unat_gt_0)
  have "unat (addr + (sz - 1)) = unat addr + unat (sz - 1)"
    using assms by (intro unat_add_u32) (simp add: eq(2))
  then show ?thesis
    using assms(1) unfolding eq by simp
qed

lemma clear_no_conflict:
  assumes "region_clear addr sz r" "0 < unat sz" "unat addr + unat sz \<le> 2 ^ 32"
  shows "\<not> region_conflicts addr (addr + sz - 1) ac r"
proof -
  have "unat (rg_base r + rg_size r) = unat (rg_base r) + unat (rg_size r)"
    using assms(1) by (intro unat_add_u32) (simp add: region_clear_def)
  then show ?thesis
    using assms unat_last_addr [OF assms(2,3)]
    by (auto simp: region_conflicts_def region_clear_def Let_def word_le_nat_alt word_less_nat_alt)
qed

lemma checks_pass:
  assumes "\<not> has ac AC_SHARED" "g_mpu_region_count s < length (g_mpu_list s)"
    and "\<forall>j < g_mpu_region_count s. \<not> region_conflicts start e ac (g_mpu_list s ! j)"
  shows "mem_region_checks b s start e ac = Inr False"
proof -
  obtain x where x: "array_scan (region_conflicts start e ac) (g_mpu_list s) 0 (g_mpu_region_count s) = Inr x"
    using array_scan_defined [of 0 "g_mpu_region_count s" "g_mpu_list s" "region_conflicts start e ac"] assms(2) by auto
  have "x = None"
    using array_scan_Some [of "region_conflicts start e ac" "g_mpu_list s" 0 "g_mpu_region_count s"] x assms(3)
    by (cases x) auto
  then show ?thesis
    using assms(1) x by (simp add: mem_region_checks_def)
qed

text \<open>A request that passes the check and that the unit can express is stored as the container's first region.\<close>

lemma vmpu_ac_mem_stores:
  assumes free: "no_region_yet s c" and chk: "mem_region_checks b s addr (addr + sz - 1) ac = Inr False"
    and upd: "vmpu_ac_update_container_region b c addr sz ac s = Inr (r, s')"
  shows "rg_base r = addr"
    "\<exists>t. vmpu_ac_mem b c addr sz ac s = Inr t \<and> g_mpu_list t = (g_mpu_list s)[g_mpu_region_count s := r] \<and>
       mc_region (g_mpu_container t ! c) = Some (g_mpu_region_count s)"
proof -
  have s': "g_mpu_list s' = g_mpu_list s" "g_mpu_container s' = g_mpu_container s"
      "g_mpu_region_count s' = g_mpu_region_count s" and base: "rg_base r = addr"
    using upd by (auto simp: vmpu_ac_update_container_region_def update_region_v1_def update_region_v2_def
        region_sid_def res_simps Let_def split: if_splits option.splits)
  show "rg_base r = addr"
    by (rule base)
  show "\<exists>t. vmpu_ac_mem b c addr sz ac s = Inr t \<and> g_mpu_list t = (g_mpu_list s)[g_mpu_region_count s := r] \<and>
       mc_region (g_mpu_container t ! c) = Some (g_mpu_region_count s)"
    using free chk upd by (simp add: vmpu_ac_mem_def no_region_yet_def arr_get_def Let_def s')
qed

text \<open>
  C32. The check for conflicts uses the size a container asks for and not the size rounded up to
  a power of two. Take a container without regions, in version 1, that asks with \<open>AC_SIZE_ROUND_UP\<close>
  for a range that is not shared and that no region entered so far touches, where none of them
  reaches the top of the address space. If the range is aligned to the rounded size and its rights
  can be expressed, the region is accepted although the entry that is stored for it covers whatever
  address another container owns between the end of the range and the end of the rounded one.
\<close>

theorem vmpu_ac_mem_round_up_overlaps:
  assumes v: "secureshield_version b = 1" and free: "no_region_yet s c"
    and ac: "has ac AC_SIZE_ROUND_UP" "\<not> has ac AC_SIZE_ROUND_DOWN" "\<not> has ac AC_SHARED" "vmpu_map_ac b ac = Inr attr"
    and sz: "0 < unat sz" "embarc_pow2_ceil sz = Some p" "addr AND (p - 1) = 0"
    and clear: "\<forall>j < g_mpu_region_count s. region_clear addr sz (g_mpu_list s ! j)"
    and a: "i < g_mpu_region_count s" "region_in (g_mpu_list s ! i) a"
      "unat addr + unat sz \<le> unat a" "unat a < unat addr + unat p"
  shows "\<exists>t. vmpu_ac_mem b c addr sz ac s = Inr t \<and> mc_region (g_mpu_container t ! c) = Some (g_mpu_region_count s) \<and>
    g_mpu_list t ! i = g_mpu_list s ! i \<and> region_in (g_mpu_list t ! i) a \<and>
    region_in (g_mpu_list t ! g_mpu_region_count s) a"
proof -
  have fit: "unat addr + unat sz \<le> 2 ^ 32"
    using a(3) unat_lt_2p32 [of a] by simp
  have len: "g_mpu_region_count s < length (g_mpu_list s)"
    using free by (simp add: no_region_yet_def)
  have "mem_region_checks b s addr (addr + sz - 1) ac = Inr False"
    using clear clear_no_conflict [OF _ sz(1) fit] by (intro checks_pass [OF ac(3) len]) blast
  moreover have "vmpu_ac_update_container_region b c addr sz ac s =
      Inr (\<lparr>rg_base = addr, rg_attr = attr, rg_size = p, rg_ac = ac\<rparr>, s)"
    using v ac sz has_either [of ac AC_SIZE_ROUND_UP AC_SIZE_ROUND_DOWN]
    by (cases "p = sz") (simp_all add: vmpu_ac_update_container_region_def update_region_v1_def)
  ultimately show ?thesis
    using vmpu_ac_mem_stores(2) [OF free] a len by (fastforce simp: region_in_def)
qed

theorem vmpu_ac_mem_round_up_overlaps_witness:
  "\<exists>s t. vmpu_ac_mem demo_ss 0 0x80001800 0x800 ACDEF_URAM demo_reset = Inr s \<and>
     vmpu_ac_mem demo_ss 1 0x80000000 0x1800 (ACDEF_URAM OR AC_SIZE_ROUND_UP) s = Inr t \<and>
     region_in (g_mpu_list t ! 0) 0x80001800 \<and> region_in (g_mpu_list t ! 1) 0x80001800"
proof -
  obtain s where s: "vmpu_ac_mem demo_ss 0 0x80001800 0x800 ACDEF_URAM demo_reset = Inr s" "no_region_yet s 1"
      "g_mpu_region_count s = 1"
      "g_mpu_list s ! 0 = \<lparr>rg_base = 0x80001800, rg_attr = 0x1B0, rg_size = 0x800, rg_ac = ACDEF_URAM\<rparr>"
    by (simp add: ac_mem_eval no_region_yet_def)
  have "vmpu_map_ac demo_ss (ACDEF_URAM OR AC_SIZE_ROUND_UP) = Inr 0x1B0" "embarc_pow2_ceil 0x1800 = Some 0x2000"
      "secureshield_version demo_ss = 1"
    by (simp_all add: ac_mem_eval)
  then show ?thesis
    using vmpu_ac_mem_round_up_overlaps [OF _ s(2), of demo_ss "ACDEF_URAM OR AC_SIZE_ROUND_UP" "0x1B0" "0x1800" "0x2000"
        "0x80000000" 0 "0x80001800"] s
    by (auto simp: has_def region_clear_def region_in_def)
qed

text \<open>
  C33. A region that ends at the top of the address space makes \<open>base + size\<close> wrap to zero in the
  check for conflicts. A container without regions that asks for a range inside such a region of
  another container is then served, provided every other region ends below the top and has no
  address of the range, the range is not shared and the unit can express it as a region that is not
  empty: both regions contain the address it asked for.
\<close>

theorem vmpu_ac_mem_top_overlaps:
  assumes free: "no_region_yet s c" and ac: "\<not> has ac AC_SHARED"
    and sz: "0 < unat sz" "unat addr + unat sz \<le> 2 ^ 32"
    and upd: "vmpu_ac_update_container_region b c addr sz ac s = Inr (r, s')" "0 < unat (rg_size r)"
    and top: "i < g_mpu_region_count s" "rg_base (g_mpu_list s ! i) \<le> addr"
      "unat (rg_base (g_mpu_list s ! i)) + unat (rg_size (g_mpu_list s ! i)) = 2 ^ 32"
    and clear: "\<forall>j < g_mpu_region_count s. j \<noteq> i \<longrightarrow> region_clear addr sz (g_mpu_list s ! j)"
  shows "\<exists>t. vmpu_ac_mem b c addr sz ac s = Inr t \<and> mc_region (g_mpu_container t ! c) = Some (g_mpu_region_count s) \<and>
    g_mpu_list t ! i = g_mpu_list s ! i \<and> region_in (g_mpu_list t ! i) addr \<and>
    region_in (g_mpu_list t ! g_mpu_region_count s) addr"
proof -
  have len: "g_mpu_region_count s < length (g_mpu_list s)"
    using free by (simp add: no_region_yet_def)
  have "rg_base (g_mpu_list s ! i) + rg_size (g_mpu_list s ! i) = 0"
    using top(3) by (simp add: unat_word_ariths(1) unat_eq_zero [symmetric])
  then have "\<not> region_conflicts addr (addr + sz - 1) ac (g_mpu_list s ! i)"
    using top(2) by (simp add: region_conflicts_def not_less [symmetric])
  then have "mem_region_checks b s addr (addr + sz - 1) ac = Inr False"
    using clear clear_no_conflict [OF _ sz] by (intro checks_pass [OF ac len]) blast
  then show ?thesis
    using vmpu_ac_mem_stores [OF free _ upd(1)] upd(2) top len unat_lt_2p32 [of addr]
    by (fastforce simp: region_in_def word_le_nat_alt)
qed

theorem vmpu_ac_mem_top_overlaps_witness:
  "\<exists>s t. vmpu_ac_mem demo_ss 0 0xFFFFF000 0x1000 ACDEF_URAM demo_reset = Inr s \<and>
     vmpu_ac_mem demo_ss 1 0xFFFFF800 0x800 ACDEF_URAM s = Inr t \<and>
     region_in (g_mpu_list t ! 0) 0xFFFFF800 \<and> region_in (g_mpu_list t ! 1) 0xFFFFF800"
proof -
  obtain s where s: "vmpu_ac_mem demo_ss 0 0xFFFFF000 0x1000 ACDEF_URAM demo_reset = Inr s" "no_region_yet s 1"
      "g_mpu_region_count s = 1"
      "g_mpu_list s ! 0 = \<lparr>rg_base = 0xFFFFF000, rg_attr = 0x1B0, rg_size = 0x1000, rg_ac = ACDEF_URAM\<rparr>"
    by (simp add: ac_mem_eval no_region_yet_def)
  have "vmpu_ac_update_container_region demo_ss 1 0xFFFFF800 0x800 ACDEF_URAM s =
      Inr (\<lparr>rg_base = 0xFFFFF800, rg_attr = 0x1B0, rg_size = 0x800, rg_ac = ACDEF_URAM\<rparr>, s)"
    by (simp add: ac_mem_eval)
  then show ?thesis
    using vmpu_ac_mem_top_overlaps [OF s(2), of ACDEF_URAM "0x800" "0xFFFFF800" demo_ss _ s 0] s
    by (auto simp: has_def)
qed

end
