(* ===== verification/Nt_Libc.thy ===== *)
theory Nt_Libc
  imports Emb_Prelude "HOL-Library.Monad_Syntax"
begin

text \<open>
  The string library of NT-Shell, \<open>middleware/ntshell/src/ntlibc.c\<close>.

  A \<open>char *\<close> that a function only walks forward is the list of the bytes from the place it
  points to up to the end of the array it points into, so that \<open>p++\<close> is the tail and an access
  past the array has no result (\<open>None\<close>). A function that writes through such a pointer returns
  the new bytes. Plain \<open>char\<close> is unsigned on the ARC. \<open>c_string\<close> is the text that such a list
  of bytes holds as a C string.
\<close>

section \<open>C strings\<close>

definition c_string :: "u8 list \<Rightarrow> u8 list" where
  "c_string s = takeWhile (\<lambda>c. c \<noteq> 0) s"

abbreviation terminated :: "u8 list \<Rightarrow> bool" where
  "terminated s \<equiv> 0 \<in> set s"

lemma c_string_simps [simp]:
  "c_string [] = []" "c_string (0 # s) = []" "c \<noteq> 0 \<Longrightarrow> c_string (c # s) = c # c_string s"
  by (simp_all add: c_string_def)

lemma c_string_Cons: "c_string (c # s) = (if c = 0 then [] else c # c_string s)"
  by simp

lemma c_string_nonzero [simp]: "0 \<notin> set (c_string s)"
  by (auto simp: c_string_def dest: set_takeWhileD)

lemma c_string_append_0 [simp]: "0 \<notin> set t \<Longrightarrow> c_string (t @ 0 # s) = t"
  by (induction t) (auto simp: c_string_Cons)

lemma c_string_length_less: "terminated s \<Longrightarrow> length (c_string s) < length s"
  by (induction s) (auto simp: c_string_Cons)

section \<open>Functions\<close>

fun ntlibc_strlen :: "u8 list \<Rightarrow> nat option" where
  "ntlibc_strlen [] = None"
| "ntlibc_strlen (c # p) = (if c \<noteq> 0 then map_option Suc (ntlibc_strlen p) else Some 0)"

fun ntlibc_strcpy :: "u8 list \<Rightarrow> u8 list \<Rightarrow> u8 list option" where
  "ntlibc_strcpy d [] = None"
| "ntlibc_strcpy [] (c # s) = None"
| "ntlibc_strcpy (x # d) (c # s) = (if c \<noteq> 0 then map_option (Cons c) (ntlibc_strcpy d s) else Some (0 # d))"

fun ntlibc_strcat :: "u8 list \<Rightarrow> u8 list \<Rightarrow> u8 list option" where
  "ntlibc_strcat [] src = None"
| "ntlibc_strcat (x # d) src =
     (if x \<noteq> 0 then map_option (Cons x) (ntlibc_strcat d src) else ntlibc_strcpy (x # d) src)"

fun ntlibc_strcmp :: "u8 list \<Rightarrow> u8 list \<Rightarrow> int option" where
  "ntlibc_strcmp (a # p1) (b # p2) =
     (if a \<noteq> 0 \<or> b \<noteq> 0
      then if a \<noteq> b then Some (if a < b then -1 else 1) else ntlibc_strcmp p1 p2
      else Some 0)"
| "ntlibc_strcmp _ _ = None"

text \<open>The loop of \<open>ntlibc_strncmp\<close> reads \<open>*p1\<close>, and \<open>*p2\<close> when that is zero, before it looks at \<open>n\<close>.\<close>

fun strncmp_loop :: "u8 list \<Rightarrow> u8 list \<Rightarrow> int \<Rightarrow> int \<Rightarrow> int option" where
  "strncmp_loop [] p2 n len = None"
| "strncmp_loop (a # p1) p2 n len =
     (if a \<noteq> 0 \<and> n \<le> len then Some 0
      else case p2 of
        [] \<Rightarrow> None
      | b # p2 \<Rightarrow>
          if a = 0 \<and> b = 0 then Some 0
          else if n \<le> len then Some 0
          else if a \<noteq> b then Some (if a < b then -1 else 1)
          else strncmp_loop p1 p2 n (len + 1))"

definition ntlibc_strncmp :: "u8 list \<Rightarrow> u8 list \<Rightarrow> int \<Rightarrow> int option" where
  "ntlibc_strncmp s1 s2 n = strncmp_loop s1 s2 n 0"

definition ntlibc_isdigit :: "int \<Rightarrow> int" where
  "ntlibc_isdigit c = (if 0x30 \<le> c \<and> c \<le> 0x39 then 1 else 0)"

definition ntlibc_isalpha :: "int \<Rightarrow> int" where
  "ntlibc_isalpha c = (if 0x41 \<le> c \<and> c \<le> 0x5A then 1 else if 0x61 \<le> c \<and> c \<le> 0x7A then 1 else 0)"

definition ntlibc_iscntrl :: "int \<Rightarrow> int" where
  "ntlibc_iscntrl c =
     (if c = 0x07 then 0 else if c = 0x08 then 0 else if c = 0x09 then 0 else if c = 0x0a then 0
      else if c = 0x0b then 0 else if c = 0x0c then 0 else if c = 0x0d then 0
      else if 0x00 \<le> c \<and> c \<le> 0x1f then 1 else 0)"

definition ntlibc_toupper :: "int \<Rightarrow> int" where
  "ntlibc_toupper c = (if 0x61 \<le> c \<and> c \<le> 0x7A then c - (0x61 - 0x41) else c)"

definition ntlibc_tolower :: "int \<Rightarrow> int" where
  "ntlibc_tolower c = (if 0x41 \<le> c \<and> c \<le> 0x5A then c + (0x61 - 0x41) else c)"

fun ntlibc_strchr :: "u8 list \<Rightarrow> int \<Rightarrow> u8 list option option" where
  "ntlibc_strchr [] c = None"
| "ntlibc_strchr (x # p) c =
     (if x \<noteq> 0 then if uint x = c then Some (Some (x # p)) else ntlibc_strchr p c else Some None)"

subsection \<open>Numbers\<close>

text \<open>
  \<open>ntlibc_atoi\<close>: the first loop walks over the whole string, counts the blanks and the signs
  and gives up (\<open>Some None\<close>) at a second sign; the second one reads digits from that offset.
  A number that does not fit an \<open>int\<close> is undefined.
\<close>

abbreviation (input) "INT_MAX \<equiv> (2147483647 :: int)"

fun atoi_scan :: "u8 list \<Rightarrow> nat \<Rightarrow> bool \<Rightarrow> nat \<Rightarrow> (nat \<times> bool) option option" where
  "atoi_scan [] ofs sign scnt = None"
| "atoi_scan (c # p) ofs sign scnt =
     (if c = 0 then Some (Some (ofs, sign))
      else if ntlibc_isdigit (uint c) = 0 \<and> c = 0x20 then atoi_scan p (ofs + 1) sign scnt
      else if ntlibc_isdigit (uint c) = 0 \<and> c = 0x2B
      then if scnt > 0 then Some None else atoi_scan p (ofs + 1) False (scnt + 1)
      else if ntlibc_isdigit (uint c) = 0 \<and> c = 0x2D
      then if scnt > 0 then Some None else atoi_scan p (ofs + 1) True (scnt + 1)
      else atoi_scan p ofs sign scnt)"

fun atoi_digits :: "u8 list \<Rightarrow> int \<Rightarrow> int option" where
  "atoi_digits [] num = None"
| "atoi_digits (c # p) num =
     (if 0x30 \<le> c \<and> c \<le> 0x39
      then let num = 10 * num + (uint c - 0x30) in if INT_MAX < num then None else atoi_digits p num
      else Some num)"

definition ntlibc_atoi :: "u8 list \<Rightarrow> int option" where
  "ntlibc_atoi nptr = do {
     r \<leftarrow> atoi_scan nptr 0 False 0;
     (case r of
        None \<Rightarrow> Some 0
      | Some (ofs, sign) \<Rightarrow> do {
          num \<leftarrow> atoi_digits (drop ofs nptr) 0;
          Some (if sign then - num else num) })
   }"

text \<open>
  \<open>ntlibc_utoa\<close>: digits from the last to the first, a terminator, then the reversal in place.
  With radix 1 the first loop does not end.
\<close>

definition utoa_chars :: "u8 list" where
  "utoa_chars = map of_nat ([0x30..<0x3A] @ [0x61..<0x7B]) @ [0]"

partial_function (option) utoa_loop :: "u32 \<Rightarrow> u32 \<Rightarrow> nat \<Rightarrow> u8 list \<Rightarrow> (nat \<times> u8 list) option" where
  "utoa_loop radix value s2 s =
     (if radix = 0 then None
      else do {
        c \<leftarrow> arr_get utoa_chars (unat (value mod radix));
        s \<leftarrow> arr_set s s2 c;
        (if value div radix > 0 then utoa_loop radix (value div radix) (s2 + 1) s else Some (s2 + 1, s))
      })"

function utoa_reverse :: "nat \<Rightarrow> nat \<Rightarrow> u8 list \<Rightarrow> u8 list option" where
  "utoa_reverse s1 s2 s =
     (if s1 < s2
      then do {
        c1 \<leftarrow> arr_get s s1;
        c2 \<leftarrow> arr_get s s2;
        s \<leftarrow> arr_set s s1 c2;
        s \<leftarrow> arr_set s s2 c1;
        utoa_reverse (s1 + 1) (s2 - 1) s
      }
      else Some s)"
  by pat_completeness auto
termination
  by (relation "measure (\<lambda>(s1, s2, s). s2)") auto

declare utoa_reverse.simps [simp del]

definition ntlibc_utoa :: "u32 \<Rightarrow> u8 list \<Rightarrow> u32 \<Rightarrow> u8 list option" where
  "ntlibc_utoa value s radix = do {
     (s2, s) \<leftarrow> utoa_loop radix value 0 s;
     s \<leftarrow> arr_set s s2 0;
     utoa_reverse 0 (s2 - 1) s
   }"

section \<open>Strings\<close>

lemma ntlibc_strlen_eq: "terminated s \<Longrightarrow> ntlibc_strlen s = Some (length (c_string s))"
  by (induction s) (auto simp: c_string_Cons)

lemma ntlibc_strcpy_eq:
  "terminated s \<Longrightarrow> length (c_string s) < length d \<Longrightarrow>
    ntlibc_strcpy d s = Some (c_string s @ 0 # drop (Suc (length (c_string s))) d)"
proof (induction d s rule: ntlibc_strcpy.induct)
  case (3 x d c s)
  then show ?case by (cases "c = 0") auto
qed auto

lemma ntlibc_strcmp_0:
  "terminated s \<Longrightarrow> terminated t \<Longrightarrow>
    \<exists>r. ntlibc_strcmp s t = Some r \<and> (r = 0 \<longleftrightarrow> c_string s = c_string t)"
proof (induction s t rule: ntlibc_strcmp.induct)
  case (1 a p1 b p2)
  show ?case
  proof (cases "a = b \<and> a \<noteq> 0")
    case True
    then show ?thesis using 1 by auto
  next
    case False
    then show ?thesis by (auto simp: c_string_Cons)
  qed
qed auto

lemma strncmp_loop_0:
  "terminated s \<Longrightarrow> terminated t \<Longrightarrow>
    \<exists>r. strncmp_loop s t n len = Some r \<and>
      (r = 0 \<longleftrightarrow> take (nat (n - len)) (c_string s) = take (nat (n - len)) (c_string t))"
proof (induction s arbitrary: t len)
  case (Cons a p1)
  obtain b p2 where t: "t = b # p2"
    using Cons.prems(2) by (cases t) auto
  show ?case
  proof (cases "n \<le> len \<or> a = 0 \<or> a \<noteq> b")
    case True
    then show ?thesis by (auto simp: t c_string_Cons take_Cons' )
  next
    case False
    then have "nat (n - len) = Suc (nat (n - (len + 1)))" "a = b" "a \<noteq> 0"
      by auto
    then show ?thesis
      using False Cons.IH [of p2 "len + 1"] Cons.prems t by auto
  qed
qed simp

lemma ntlibc_strncmp_0:
  "terminated s \<Longrightarrow> terminated t \<Longrightarrow>
    \<exists>r. ntlibc_strncmp s t n = Some r \<and> (r = 0 \<longleftrightarrow> take (nat n) (c_string s) = take (nat n) (c_string t))"
  using strncmp_loop_0 [of s t n 0] by (simp add: ntlibc_strncmp_def)

section \<open>Numbers\<close>

text \<open>The digits of a number in a radix, the last one first, and the characters they are written with.\<close>

function digits :: "nat \<Rightarrow> nat \<Rightarrow> nat list" where
  "digits r v = v mod r # (if 2 \<le> r \<and> 0 < v div r then digits r (v div r) else [])"
  by pat_completeness auto
termination
  by (relation "measure snd") (auto simp: div_greater_zero_iff intro!: div_less_dividend)

declare digits.simps [simp del]

lemma digits_less: "0 < r \<Longrightarrow> d \<in> set (digits r v) \<Longrightarrow> d < r"
  by (induction r v rule: digits.induct) (subst (asm) (2) digits.simps, auto split: if_splits)

lemma digits_value: "2 \<le> r \<Longrightarrow> foldr (\<lambda>d n. d + r * n) (digits r v) 0 = v"
proof (induction r v rule: digits.induct)
  case (1 r v)
  show ?case
  proof (cases "0 < v div r")
    case True
    then show ?thesis
      using 1 by (subst digits.simps) simp
  next
    case False
    then have "v < r"
      using "1.prems" by (simp add: div_greater_zero_iff)
    then show ?thesis
      using False by (subst digits.simps) simp
  qed
qed

lemma length_digits_le: "2 \<le> r \<Longrightarrow> v < r ^ n \<Longrightarrow> 0 < n \<Longrightarrow> length (digits r v) \<le> n"
proof (induction n arbitrary: v)
  case (Suc n)
  show ?case
  proof (cases "0 < v div r")
    case True
    have "v div r < r ^ n"
      using Suc.prems(1,2) by (simp add: less_mult_imp_div_less mult.commute)
    moreover have "0 < n"
      using True \<open>v div r < r ^ n\<close> by (cases n) auto
    ultimately show ?thesis
      using Suc.IH [of "v div r"] Suc.prems True by (subst digits.simps) simp
  qed (subst digits.simps, simp)
qed simp

lemma utoa_chars_nth: "d < 36 \<Longrightarrow> utoa_chars ! d = of_nat (if d < 10 then 0x30 + d else 0x57 + d)"
  by (auto simp: utoa_chars_def nth_append simp del: upt_rec_numeral)

lemma uint_utoa_chars: "uint (utoa_chars ! d) = 0x30 + int d" if "d < 10"
proof -
  have "unat (utoa_chars ! d) = 0x30 + d"
    using that by (simp add: utoa_chars_nth unsigned_of_nat take_bit_nat_eq_self del: of_nat_add of_nat_numeral)
  then show ?thesis
    unfolding uint_nat by simp
qed

lemma utoa_loop_eq:
  assumes "2 \<le> unat radix" "unat radix \<le> 36"
  shows "s2 + length (digits (unat radix) (unat v)) \<le> length s \<Longrightarrow>
    utoa_loop radix v s2 s = Some (s2 + length (digits (unat radix) (unat v)),
      take s2 s @ map ((!) utoa_chars) (digits (unat radix) (unat v)) @
      drop (s2 + length (digits (unat radix) (unat v))) s)"
proof (induction "unat radix" "unat v" arbitrary: s2 s v rule: digits.induct)
  case 1
  let ?c = "utoa_chars ! (unat v mod unat radix)"
  have radix: "radix \<noteq> 0"
    using assms(1) by auto
  have "unat v mod unat radix < 36"
    using assms mod_less_divisor [of "unat radix" "unat v"] by linarith
  then have get: "arr_get utoa_chars (unat (v mod radix)) = Some ?c"
    by (simp add: unat_mod_distrib utoa_chars_def)
  have s2: "s2 < length s"
    using "1.prems" by (subst (asm) digits.simps) simp
  show ?case
  proof (cases "0 < unat v div unat radix")
    case True
    have ds: "digits (unat radix) (unat v) = unat v mod unat radix # digits (unat radix) (unat (v div radix))"
      using True assms(1) by (subst digits.simps) (simp add: unat_div_distrib)
    have "utoa_loop radix v s2 s = utoa_loop radix (v div radix) (s2 + 1) (s[s2 := ?c])"
      using True s2 radix by (subst utoa_loop.simps) (simp add: get arr_set_def word_less_nat_alt unat_div_distrib)
    also have "\<dots> = Some (s2 + 1 + length (digits (unat radix) (unat (v div radix))),
      take (s2 + 1) (s[s2 := ?c]) @ map ((!) utoa_chars) (digits (unat radix) (unat (v div radix))) @
      drop (s2 + 1 + length (digits (unat radix) (unat (v div radix)))) (s[s2 := ?c]))"
      using "1.hyps" True assms(1) "1.prems" ds by (simp add: unat_div_distrib)
    finally show ?thesis
      using s2 ds by (simp add: take_Suc_conv_app_nth)
  next
    case False
    then have "digits (unat radix) (unat v) = [unat v mod unat radix]"
      by (subst digits.simps) simp
    moreover have "utoa_loop radix v s2 s = Some (s2 + 1, s[s2 := ?c])"
      using False s2 radix by (subst utoa_loop.simps) (simp add: get arr_set_def word_less_nat_alt unat_div_distrib)
    ultimately show ?thesis
      using s2 by (simp add: upd_conv_take_nth_drop)
  qed
qed

lemma utoa_reverse_eq:
  "utoa_reverse (length xs) (length xs + length ys - 1) (xs @ ys @ zs) = Some (xs @ rev ys @ zs)"
proof (induction "length ys" arbitrary: xs ys zs rule: less_induct)
  case less
  show ?case
  proof (cases "length ys \<le> 1")
    case True
    then have "rev ys = ys"
      by (cases ys) auto
    then show ?thesis
      using True by (subst utoa_reverse.simps) auto
  next
    case False
    then obtain a ms b where ys: "ys = a # ms @ [b]"
      by (metis One_nat_def Suc_le_mono append_butlast_last_id le0 length_Cons list.exhaust list.size(3) nat_le_linear)
    have "utoa_reverse (length xs) (length xs + length ys - 1) (xs @ ys @ zs)
        = utoa_reverse (length (xs @ [b])) (length (xs @ [b]) + length ms - 1) ((xs @ [b]) @ ms @ (a # zs))"
      by (subst utoa_reverse.simps) (simp add: ys arr_get_def arr_set_def nth_append list_update_append)
    also have "\<dots> = Some ((xs @ [b]) @ rev ms @ (a # zs))"
      by (rule less) (simp add: ys)
    finally show ?thesis
      by (simp add: ys)
  qed
qed

lemma ntlibc_utoa_eq:
  assumes "2 \<le> unat radix" "unat radix \<le> 36" "length (digits (unat radix) (unat v)) < length s"
  shows "\<exists>rest. ntlibc_utoa v s radix =
    Some (map ((!) utoa_chars) (rev (digits (unat radix) (unat v))) @ 0 # rest)"
proof -
  let ?ds = "digits (unat radix) (unat v)"
  obtain x rest where rest: "drop (length ?ds) s = x # rest"
    using assms(3) by (metis Cons_nth_drop_Suc)
  have loop: "utoa_loop radix v 0 s = Some (length ?ds, map ((!) utoa_chars) ?ds @ x # rest)"
    using utoa_loop_eq [OF assms(1,2), of 0 v s] assms(3) rest by simp
  have "utoa_reverse 0 (length ?ds - 1) (map ((!) utoa_chars) ?ds @ 0 # rest)
      = Some (rev (map ((!) utoa_chars) ?ds) @ 0 # rest)"
    using utoa_reverse_eq [of "[]" "map ((!) utoa_chars) ?ds" "0 # rest"] by simp
  then show ?thesis
    by (simp add: ntlibc_utoa_def loop arr_set_def list_update_append rev_map)
qed

text \<open>Reading back digits only.\<close>

lemma decimal_ge: "0 \<le> n \<Longrightarrow> n \<le> foldl (\<lambda>n d. 10 * n + int d) n ds"
proof (induction ds arbitrary: n)
  case (Cons d ds)
  then have "10 * n + int d \<le> foldl (\<lambda>n d. 10 * n + int d) (10 * n + int d) ds"
    by simp
  then show ?case
    using Cons.prems by simp
qed simp

lemma atoi_digits_eq:
  assumes "\<And>d. d \<in> set ds \<Longrightarrow> d < 10" "\<not> (0x30 \<le> c \<and> c \<le> 0x39)"
    and "foldl (\<lambda>n d. 10 * n + int d) num ds \<le> INT_MAX" "0 \<le> num"
  shows "atoi_digits (map ((!) utoa_chars) ds @ c # rest) num = Some (foldl (\<lambda>n d. 10 * n + int d) num ds)"
  using assms
proof (induction ds arbitrary: num)
  case Nil
  show ?case
    using Nil.prems(2) by (simp only: list.map append.simps atoi_digits.simps foldl.simps if_False)
next
  case (Cons d ds)
  have d: "d < 10"
    using Cons.prems(1) by simp
  have "10 * num + int d \<le> INT_MAX"
    using decimal_ge [of "10 * num + int d" ds] Cons.prems(3,4) by simp
  moreover have "atoi_digits (map ((!) utoa_chars) ds @ c # rest) (10 * num + int d)
      = Some (foldl (\<lambda>n d. 10 * n + int d) (10 * num + int d) ds)"
    using Cons.prems by (intro Cons.IH) simp_all
  moreover have c: "uint (utoa_chars ! d) = 0x30 + int d"
    using d by (rule uint_utoa_chars)
  moreover have "0x30 \<le> utoa_chars ! d \<and> utoa_chars ! d \<le> 0x39"
    using d by (simp add: word_le_def c)
  ultimately show ?case
    by (simp only: list.map append.simps atoi_digits.simps foldl.simps if_True Let_def not_less [symmetric] if_False) simp
qed

lemma atoi_scan_digits:
  assumes "\<And>d. d \<in> set ds \<Longrightarrow> d < 10"
  shows "atoi_scan (map ((!) utoa_chars) ds @ 0 # rest) ofs sign scnt = Some (Some (ofs, sign))"
  using assms
proof (induction ds)
  case (Cons d ds)
  then have d: "uint (utoa_chars ! d) = 0x30 + int d" "d < 10"
    by (simp_all add: uint_utoa_chars)
  then have "utoa_chars ! d \<noteq> 0"
    by auto
  moreover have "ntlibc_isdigit (uint (utoa_chars ! d)) \<noteq> 0"
    using d by (simp add: ntlibc_isdigit_def)
  ultimately show ?case
    using Cons by simp
qed simp

lemma digits_int_value: "foldl (\<lambda>n d. 10 * n + int d) 0 (rev (digits 10 v)) = int v"
proof -
  have "foldr (\<lambda>d n. 10 * n + int d) ds 0 = int (foldr (\<lambda>d n. d + 10 * n) ds 0)" for ds
    by (induction ds) simp_all
  then show ?thesis
    by (simp add: foldl_conv_foldr digits_value)
qed

text \<open>
  C30. A number that \<open>ntlibc_utoa\<close> has written in radix ten is read back by \<open>ntlibc_atoi\<close>, for
  every number that fits an \<open>int\<close> and every buffer with room for ten digits and the terminator.
\<close>

theorem ntlibc_atoi_utoa:
  assumes "uint v \<le> INT_MAX" "10 < length s"
  shows "\<exists>t. ntlibc_utoa v s 10 = Some t \<and> ntlibc_atoi t = Some (uint v)"
proof -
  let ?ds = "digits 10 (unat v)"
  have len: "length ?ds < length s"
    using length_digits_le [of 10 "unat v" 10] assms(2) unsigned_less [of v, where ?'a = nat] by simp
  then obtain rest where t: "ntlibc_utoa v s 10 = Some (map ((!) utoa_chars) (rev ?ds) @ 0 # rest)"
    using ntlibc_utoa_eq [of 10 v s] by auto
  have less: "d < 10" if "d \<in> set (rev ?ds)" for d
    using that digits_less [of 10 d "unat v"] by simp
  have val: "foldl (\<lambda>n d. 10 * n + int d) 0 (rev ?ds) = uint v"
    by (simp add: digits_int_value)
  have "atoi_digits (map ((!) utoa_chars) (rev ?ds) @ 0 # rest) 0 = Some (uint v)"
    using atoi_digits_eq [of "rev ?ds" 0 0 rest] less assms(1) unfolding val by simp
  then have "ntlibc_atoi (map ((!) utoa_chars) (rev ?ds) @ 0 # rest) = Some (uint v)"
    using atoi_scan_digits [of "rev ?ds" rest 0 False 0] less by (simp add: ntlibc_atoi_def)
  then show ?thesis
    using t by blast
qed

theorem ntlibc_atoi_utoa_witness:
  "\<exists>t. ntlibc_utoa 120 (replicate 11 0) 10 = Some t \<and> ntlibc_atoi t = Some 120"
  using ntlibc_atoi_utoa [of 120 "replicate 11 0"] by simp

text \<open>A blank after the number moves the offset past its first digit.\<close>

lemma ntlibc_atoi_trailing_blank: "ntlibc_atoi [0x31, 0x32, 0x20, 0] = Some 2"
  by (simp add: ntlibc_atoi_def ntlibc_isdigit_def)

end
