(* ===== verification/Nt_Vttable.thy ===== *)
theory Nt_Vttable
  imports Nt_Libc
begin

text \<open>
  The transition tables of the terminal parser, \<open>middleware/ntshell/src/vtrecv.c\<close>. The source
  has them twice, and a macro chooses: \<open>STATE_TABLE\<close>, one byte for each of the 15 states and
  256 input bytes, and \<open>table\<close>, a list of ranges that is searched from the front. A byte holds
  an action in its low half and a new state in its high half; 0 stands for none.

  The rows of \<open>STATE_TABLE\<close> are given as runs of equal entries; the entries that an
  initialiser leaves out at the end of a row are zero.
\<close>

section \<open>States, actions and state changes\<close>

abbreviation (input) "VTRECV_STATE_ANYWHERE \<equiv> (0 :: u8)"
abbreviation (input) "VTRECV_STATE_CSI_ENTRY \<equiv> (1 :: u8)"
abbreviation (input) "VTRECV_STATE_CSI_IGNORE \<equiv> (2 :: u8)"
abbreviation (input) "VTRECV_STATE_CSI_INTERMEDIATE \<equiv> (3 :: u8)"
abbreviation (input) "VTRECV_STATE_CSI_PARAM \<equiv> (4 :: u8)"
abbreviation (input) "VTRECV_STATE_DCS_ENTRY \<equiv> (5 :: u8)"
abbreviation (input) "VTRECV_STATE_DCS_IGNORE \<equiv> (6 :: u8)"
abbreviation (input) "VTRECV_STATE_DCS_INTERMEDIATE \<equiv> (7 :: u8)"
abbreviation (input) "VTRECV_STATE_DCS_PARAM \<equiv> (8 :: u8)"
abbreviation (input) "VTRECV_STATE_DCS_PASSTHROUGH \<equiv> (9 :: u8)"
abbreviation (input) "VTRECV_STATE_ESCAPE \<equiv> (10 :: u8)"
abbreviation (input) "VTRECV_STATE_ESCAPE_INTERMEDIATE \<equiv> (11 :: u8)"
abbreviation (input) "VTRECV_STATE_GROUND \<equiv> (12 :: u8)"
abbreviation (input) "VTRECV_STATE_OSC_STRING \<equiv> (13 :: u8)"
abbreviation (input) "VTRECV_STATE_SOS_PM_APC_STRING \<equiv> (14 :: u8)"
abbreviation (input) "VTRECV_ACTION_CLEAR \<equiv> (1 :: u8)"
abbreviation (input) "VTRECV_ACTION_COLLECT \<equiv> (2 :: u8)"
abbreviation (input) "VTRECV_ACTION_CSI_DISPATCH \<equiv> (3 :: u8)"
abbreviation (input) "VTRECV_ACTION_ESC_DISPATCH \<equiv> (4 :: u8)"
abbreviation (input) "VTRECV_ACTION_EXECUTE \<equiv> (5 :: u8)"
abbreviation (input) "VTRECV_ACTION_HOOK \<equiv> (6 :: u8)"
abbreviation (input) "VTRECV_ACTION_IGNORE \<equiv> (7 :: u8)"
abbreviation (input) "VTRECV_ACTION_OSC_END \<equiv> (8 :: u8)"
abbreviation (input) "VTRECV_ACTION_OSC_PUT \<equiv> (9 :: u8)"
abbreviation (input) "VTRECV_ACTION_OSC_START \<equiv> (10 :: u8)"
abbreviation (input) "VTRECV_ACTION_PARAM \<equiv> (11 :: u8)"
abbreviation (input) "VTRECV_ACTION_PRINT \<equiv> (12 :: u8)"
abbreviation (input) "VTRECV_ACTION_PUT \<equiv> (13 :: u8)"
abbreviation (input) "VTRECV_ACTION_UNHOOK \<equiv> (14 :: u8)"

text \<open>\<open>ACTION(state_change)\<close> and \<open>STATE(state_change)\<close>, and the expression the tables are written with.\<close>

definition ACTION :: "u8 \<Rightarrow> u8" where
  "ACTION state_change = state_change AND 0x0F"

definition STATE :: "u8 \<Rightarrow> u8" where
  "STATE state_change = drop_bit 4 state_change"

definition sc :: "u8 \<Rightarrow> u8 \<Rightarrow> u8" where
  "sc action state = action OR push_bit 4 state"

section \<open>The full table\<close>

definition runs :: "(nat \<times> u8) list \<Rightarrow> u8 list" where
  "runs rs = concat (map (\<lambda>(n, v). replicate n v) rs)"

definition STATE_TABLE_ANYWHERE :: "u8 list" where
  "STATE_TABLE_ANYWHERE = runs
    [(24, 0), (1, sc VTRECV_ACTION_EXECUTE VTRECV_STATE_GROUND), (1, 0),
     (1, sc VTRECV_ACTION_EXECUTE VTRECV_STATE_GROUND), (1, sc 0 VTRECV_STATE_ESCAPE), (100, 0),
     (16, sc VTRECV_ACTION_EXECUTE VTRECV_STATE_GROUND), (1, sc 0 VTRECV_STATE_DCS_ENTRY),
     (7, sc VTRECV_ACTION_EXECUTE VTRECV_STATE_GROUND), (1, sc 0 VTRECV_STATE_SOS_PM_APC_STRING),
     (2, sc VTRECV_ACTION_EXECUTE VTRECV_STATE_GROUND), (1, sc 0 VTRECV_STATE_CSI_ENTRY),
     (1, sc VTRECV_ACTION_EXECUTE VTRECV_STATE_GROUND), (1, sc 0 VTRECV_STATE_OSC_STRING),
     (2, sc 0 VTRECV_STATE_SOS_PM_APC_STRING)]"

definition STATE_TABLE_CSI_ENTRY :: "u8 list" where
  "STATE_TABLE_CSI_ENTRY = runs
    [(24, sc VTRECV_ACTION_EXECUTE 0), (1, 0), (1, sc VTRECV_ACTION_EXECUTE 0), (2, 0),
     (4, sc VTRECV_ACTION_EXECUTE 0), (16, sc VTRECV_ACTION_COLLECT VTRECV_STATE_CSI_INTERMEDIATE),
     (10, sc VTRECV_ACTION_PARAM VTRECV_STATE_CSI_PARAM), (1, sc 0 VTRECV_STATE_CSI_IGNORE),
     (1, sc VTRECV_ACTION_PARAM VTRECV_STATE_CSI_PARAM), (4, sc VTRECV_ACTION_COLLECT VTRECV_STATE_CSI_PARAM),
     (63, sc VTRECV_ACTION_CSI_DISPATCH VTRECV_STATE_GROUND), (1, sc VTRECV_ACTION_IGNORE 0)]"

definition STATE_TABLE_CSI_IGNORE :: "u8 list" where
  "STATE_TABLE_CSI_IGNORE = runs
    [(24, sc VTRECV_ACTION_EXECUTE 0), (1, 0), (1, sc VTRECV_ACTION_EXECUTE 0), (2, 0),
     (4, sc VTRECV_ACTION_EXECUTE 0), (32, sc VTRECV_ACTION_IGNORE 0), (63, sc 0 VTRECV_STATE_GROUND),
     (1, sc VTRECV_ACTION_IGNORE 0)]"

definition STATE_TABLE_CSI_INTERMEDIATE :: "u8 list" where
  "STATE_TABLE_CSI_INTERMEDIATE = runs
    [(24, sc VTRECV_ACTION_EXECUTE 0), (1, 0), (1, sc VTRECV_ACTION_EXECUTE 0), (2, 0),
     (4, sc VTRECV_ACTION_EXECUTE 0), (16, sc VTRECV_ACTION_COLLECT 0), (16, sc 0 VTRECV_STATE_CSI_IGNORE),
     (63, sc VTRECV_ACTION_CSI_DISPATCH VTRECV_STATE_GROUND), (1, sc VTRECV_ACTION_IGNORE 0)]"

definition STATE_TABLE_CSI_PARAM :: "u8 list" where
  "STATE_TABLE_CSI_PARAM = runs
    [(24, sc VTRECV_ACTION_EXECUTE 0), (1, 0), (1, sc VTRECV_ACTION_EXECUTE 0), (2, 0),
     (4, sc VTRECV_ACTION_EXECUTE 0), (16, sc VTRECV_ACTION_COLLECT VTRECV_STATE_CSI_INTERMEDIATE),
     (10, sc VTRECV_ACTION_PARAM 0), (1, sc 0 VTRECV_STATE_CSI_IGNORE), (1, sc VTRECV_ACTION_PARAM 0),
     (4, sc 0 VTRECV_STATE_CSI_IGNORE), (63, sc VTRECV_ACTION_CSI_DISPATCH VTRECV_STATE_GROUND),
     (1, sc VTRECV_ACTION_IGNORE 0)]"

definition STATE_TABLE_DCS_ENTRY :: "u8 list" where
  "STATE_TABLE_DCS_ENTRY = runs
    [(24, sc VTRECV_ACTION_IGNORE 0), (1, 0), (1, sc VTRECV_ACTION_IGNORE 0), (2, 0), (4, sc VTRECV_ACTION_IGNORE 0),
     (16, sc VTRECV_ACTION_COLLECT VTRECV_STATE_DCS_INTERMEDIATE),
     (10, sc VTRECV_ACTION_PARAM VTRECV_STATE_DCS_PARAM), (1, sc 0 VTRECV_STATE_DCS_IGNORE),
     (1, sc VTRECV_ACTION_PARAM VTRECV_STATE_DCS_PARAM), (4, sc VTRECV_ACTION_COLLECT VTRECV_STATE_DCS_PARAM),
     (63, sc 0 VTRECV_STATE_DCS_PASSTHROUGH), (1, sc VTRECV_ACTION_IGNORE 0)]"

definition STATE_TABLE_DCS_IGNORE :: "u8 list" where
  "STATE_TABLE_DCS_IGNORE = runs
    [(24, sc VTRECV_ACTION_IGNORE 0), (1, 0), (1, sc VTRECV_ACTION_IGNORE 0), (2, 0),
     (100, sc VTRECV_ACTION_IGNORE 0), (28, 0), (1, sc 0 VTRECV_STATE_GROUND)]"

definition STATE_TABLE_DCS_INTERMEDIATE :: "u8 list" where
  "STATE_TABLE_DCS_INTERMEDIATE = runs
    [(24, sc VTRECV_ACTION_IGNORE 0), (1, 0), (1, sc VTRECV_ACTION_IGNORE 0), (2, 0), (4, sc VTRECV_ACTION_IGNORE 0),
     (16, sc VTRECV_ACTION_COLLECT 0), (16, sc 0 VTRECV_STATE_DCS_IGNORE), (63, sc 0 VTRECV_STATE_DCS_PASSTHROUGH),
     (1, sc VTRECV_ACTION_IGNORE 0)]"

definition STATE_TABLE_DCS_PARAM :: "u8 list" where
  "STATE_TABLE_DCS_PARAM = runs
    [(24, sc VTRECV_ACTION_IGNORE 0), (1, 0), (1, sc VTRECV_ACTION_IGNORE 0), (2, 0), (4, sc VTRECV_ACTION_IGNORE 0),
     (16, sc VTRECV_ACTION_COLLECT VTRECV_STATE_DCS_INTERMEDIATE), (10, sc VTRECV_ACTION_PARAM 0),
     (1, sc 0 VTRECV_STATE_DCS_IGNORE), (1, sc VTRECV_ACTION_PARAM 0), (4, sc 0 VTRECV_STATE_DCS_IGNORE),
     (63, sc 0 VTRECV_STATE_DCS_PASSTHROUGH), (1, sc VTRECV_ACTION_IGNORE 0)]"

definition STATE_TABLE_DCS_PASSTHROUGH :: "u8 list" where
  "STATE_TABLE_DCS_PASSTHROUGH = runs
    [(24, sc VTRECV_ACTION_PUT 0), (1, 0), (1, sc VTRECV_ACTION_PUT 0), (2, 0), (99, sc VTRECV_ACTION_PUT 0),
     (1, sc VTRECV_ACTION_IGNORE 0), (28, 0), (1, sc 0 VTRECV_STATE_GROUND)]"

definition STATE_TABLE_ESCAPE :: "u8 list" where
  "STATE_TABLE_ESCAPE = runs
    [(24, sc VTRECV_ACTION_EXECUTE 0), (1, 0), (1, sc VTRECV_ACTION_EXECUTE 0), (2, 0),
     (4, sc VTRECV_ACTION_EXECUTE 0), (16, sc VTRECV_ACTION_COLLECT VTRECV_STATE_ESCAPE_INTERMEDIATE),
     (32, sc VTRECV_ACTION_ESC_DISPATCH VTRECV_STATE_GROUND), (1, sc 0 VTRECV_STATE_DCS_ENTRY),
     (7, sc VTRECV_ACTION_ESC_DISPATCH VTRECV_STATE_GROUND), (1, sc 0 VTRECV_STATE_SOS_PM_APC_STRING),
     (2, sc VTRECV_ACTION_ESC_DISPATCH VTRECV_STATE_GROUND), (1, sc 0 VTRECV_STATE_CSI_ENTRY),
     (1, sc VTRECV_ACTION_ESC_DISPATCH VTRECV_STATE_GROUND), (1, sc 0 VTRECV_STATE_OSC_STRING),
     (2, sc 0 VTRECV_STATE_SOS_PM_APC_STRING), (31, sc VTRECV_ACTION_ESC_DISPATCH VTRECV_STATE_GROUND),
     (1, sc VTRECV_ACTION_IGNORE 0)]"

definition STATE_TABLE_ESCAPE_INTERMEDIATE :: "u8 list" where
  "STATE_TABLE_ESCAPE_INTERMEDIATE = runs
    [(24, sc VTRECV_ACTION_EXECUTE 0), (1, 0), (1, sc VTRECV_ACTION_EXECUTE 0), (2, 0),
     (4, sc VTRECV_ACTION_EXECUTE 0), (16, sc VTRECV_ACTION_COLLECT 0),
     (79, sc VTRECV_ACTION_ESC_DISPATCH VTRECV_STATE_GROUND), (1, sc VTRECV_ACTION_IGNORE 0)]"

definition STATE_TABLE_GROUND :: "u8 list" where
  "STATE_TABLE_GROUND = runs
    [(24, sc VTRECV_ACTION_EXECUTE 0), (1, 0), (1, sc VTRECV_ACTION_EXECUTE 0), (2, 0),
     (4, sc VTRECV_ACTION_EXECUTE 0), (96, sc VTRECV_ACTION_PRINT 0), (16, sc VTRECV_ACTION_EXECUTE 0), (1, 0),
     (10, sc VTRECV_ACTION_EXECUTE 0), (1, 0), (1, sc VTRECV_ACTION_EXECUTE 0)]"

definition STATE_TABLE_OSC_STRING :: "u8 list" where
  "STATE_TABLE_OSC_STRING = runs
    [(24, sc VTRECV_ACTION_IGNORE 0), (1, 0), (1, sc VTRECV_ACTION_IGNORE 0), (2, 0), (4, sc VTRECV_ACTION_IGNORE 0),
     (96, sc VTRECV_ACTION_OSC_PUT 0), (28, 0), (1, sc 0 VTRECV_STATE_GROUND)]"

definition STATE_TABLE_SOS_PM_APC_STRING :: "u8 list" where
  "STATE_TABLE_SOS_PM_APC_STRING = runs
    [(24, sc VTRECV_ACTION_IGNORE 0), (1, 0), (1, sc VTRECV_ACTION_IGNORE 0), (2, 0),
     (100, sc VTRECV_ACTION_IGNORE 0), (28, 0), (1, sc 0 VTRECV_STATE_GROUND)]"

definition STATE_TABLE :: "u8 list list" where
  "STATE_TABLE = map (\<lambda>row. row @ replicate (256 - length row) 0)
    [STATE_TABLE_ANYWHERE,
     STATE_TABLE_CSI_ENTRY,
     STATE_TABLE_CSI_IGNORE,
     STATE_TABLE_CSI_INTERMEDIATE,
     STATE_TABLE_CSI_PARAM,
     STATE_TABLE_DCS_ENTRY,
     STATE_TABLE_DCS_IGNORE,
     STATE_TABLE_DCS_INTERMEDIATE,
     STATE_TABLE_DCS_PARAM,
     STATE_TABLE_DCS_PASSTHROUGH,
     STATE_TABLE_ESCAPE,
     STATE_TABLE_ESCAPE_INTERMEDIATE,
     STATE_TABLE_GROUND,
     STATE_TABLE_OSC_STRING,
     STATE_TABLE_SOS_PM_APC_STRING]"

section \<open>The ranges\<close>

record state_table_t =
  st_state :: u8
  code_start :: u8
  code_end :: u8
  state_change :: u8

definition table :: "state_table_t list" where
  "table = map (\<lambda>(s, a, b, c). \<lparr>st_state = s, code_start = a, code_end = b, state_change = c\<rparr>)
    [(VTRECV_STATE_ANYWHERE, 0x18, 0x18, sc VTRECV_ACTION_EXECUTE VTRECV_STATE_GROUND),
     (VTRECV_STATE_ANYWHERE, 0x1a, 0x1a, sc VTRECV_ACTION_EXECUTE VTRECV_STATE_GROUND),
     (VTRECV_STATE_ANYWHERE, 0x80, 0x8f, sc VTRECV_ACTION_EXECUTE VTRECV_STATE_GROUND),
     (VTRECV_STATE_ANYWHERE, 0x91, 0x97, sc VTRECV_ACTION_EXECUTE VTRECV_STATE_GROUND),
     (VTRECV_STATE_ANYWHERE, 0x99, 0x99, sc VTRECV_ACTION_EXECUTE VTRECV_STATE_GROUND),
     (VTRECV_STATE_ANYWHERE, 0x9a, 0x9a, sc VTRECV_ACTION_EXECUTE VTRECV_STATE_GROUND),
     (VTRECV_STATE_ANYWHERE, 0x9c, 0x9c, sc VTRECV_ACTION_EXECUTE VTRECV_STATE_GROUND),
     (VTRECV_STATE_ANYWHERE, 0x1b, 0x1b, sc 0 VTRECV_STATE_ESCAPE),
     (VTRECV_STATE_ANYWHERE, 0x98, 0x98, sc 0 VTRECV_STATE_SOS_PM_APC_STRING),
     (VTRECV_STATE_ANYWHERE, 0x9e, 0x9e, sc 0 VTRECV_STATE_SOS_PM_APC_STRING),
     (VTRECV_STATE_ANYWHERE, 0x9f, 0x9f, sc 0 VTRECV_STATE_SOS_PM_APC_STRING),
     (VTRECV_STATE_ANYWHERE, 0x90, 0x90, sc 0 VTRECV_STATE_DCS_ENTRY),
     (VTRECV_STATE_ANYWHERE, 0x9d, 0x9d, sc 0 VTRECV_STATE_OSC_STRING),
     (VTRECV_STATE_ANYWHERE, 0x9b, 0x9b, sc 0 VTRECV_STATE_CSI_ENTRY),
     (VTRECV_STATE_GROUND, 0x00, 0x17, sc VTRECV_ACTION_EXECUTE 0),
     (VTRECV_STATE_GROUND, 0x19, 0x19, sc VTRECV_ACTION_EXECUTE 0),
     (VTRECV_STATE_GROUND, 0x1c, 0x1f, sc VTRECV_ACTION_EXECUTE 0),
     (VTRECV_STATE_GROUND, 0x20, 0x7f, sc VTRECV_ACTION_PRINT 0),
     (VTRECV_STATE_GROUND, 0x80, 0x8f, sc VTRECV_ACTION_EXECUTE 0),
     (VTRECV_STATE_GROUND, 0x91, 0x9a, sc VTRECV_ACTION_EXECUTE 0),
     (VTRECV_STATE_GROUND, 0x9c, 0x9c, sc VTRECV_ACTION_EXECUTE 0),
     (VTRECV_STATE_ESCAPE, 0x00, 0x17, sc VTRECV_ACTION_EXECUTE 0),
     (VTRECV_STATE_ESCAPE, 0x19, 0x19, sc VTRECV_ACTION_EXECUTE 0),
     (VTRECV_STATE_ESCAPE, 0x1c, 0x1f, sc VTRECV_ACTION_EXECUTE 0),
     (VTRECV_STATE_ESCAPE, 0x7f, 0x7f, sc VTRECV_ACTION_IGNORE 0),
     (VTRECV_STATE_ESCAPE, 0x20, 0x2f, sc VTRECV_ACTION_COLLECT VTRECV_STATE_ESCAPE_INTERMEDIATE),
     (VTRECV_STATE_ESCAPE, 0x30, 0x4f, sc VTRECV_ACTION_ESC_DISPATCH VTRECV_STATE_GROUND),
     (VTRECV_STATE_ESCAPE, 0x51, 0x57, sc VTRECV_ACTION_ESC_DISPATCH VTRECV_STATE_GROUND),
     (VTRECV_STATE_ESCAPE, 0x59, 0x59, sc VTRECV_ACTION_ESC_DISPATCH VTRECV_STATE_GROUND),
     (VTRECV_STATE_ESCAPE, 0x5a, 0x5a, sc VTRECV_ACTION_ESC_DISPATCH VTRECV_STATE_GROUND),
     (VTRECV_STATE_ESCAPE, 0x5c, 0x5c, sc VTRECV_ACTION_ESC_DISPATCH VTRECV_STATE_GROUND),
     (VTRECV_STATE_ESCAPE, 0x60, 0x7e, sc VTRECV_ACTION_ESC_DISPATCH VTRECV_STATE_GROUND),
     (VTRECV_STATE_ESCAPE, 0x5b, 0x5b, sc 0 VTRECV_STATE_CSI_ENTRY),
     (VTRECV_STATE_ESCAPE, 0x5d, 0x5d, sc 0 VTRECV_STATE_OSC_STRING),
     (VTRECV_STATE_ESCAPE, 0x50, 0x50, sc 0 VTRECV_STATE_DCS_ENTRY),
     (VTRECV_STATE_ESCAPE, 0x58, 0x58, sc 0 VTRECV_STATE_SOS_PM_APC_STRING),
     (VTRECV_STATE_ESCAPE, 0x5e, 0x5e, sc 0 VTRECV_STATE_SOS_PM_APC_STRING),
     (VTRECV_STATE_ESCAPE, 0x5f, 0x5f, sc 0 VTRECV_STATE_SOS_PM_APC_STRING),
     (VTRECV_STATE_ESCAPE_INTERMEDIATE, 0x00, 0x17, sc VTRECV_ACTION_EXECUTE 0),
     (VTRECV_STATE_ESCAPE_INTERMEDIATE, 0x19, 0x19, sc VTRECV_ACTION_EXECUTE 0),
     (VTRECV_STATE_ESCAPE_INTERMEDIATE, 0x1c, 0x1f, sc VTRECV_ACTION_EXECUTE 0),
     (VTRECV_STATE_ESCAPE_INTERMEDIATE, 0x20, 0x2f, sc VTRECV_ACTION_COLLECT 0),
     (VTRECV_STATE_ESCAPE_INTERMEDIATE, 0x7f, 0x7f, sc VTRECV_ACTION_IGNORE 0),
     (VTRECV_STATE_ESCAPE_INTERMEDIATE, 0x30, 0x7e, sc VTRECV_ACTION_ESC_DISPATCH VTRECV_STATE_GROUND),
     (VTRECV_STATE_CSI_ENTRY, 0x00, 0x17, sc VTRECV_ACTION_EXECUTE 0),
     (VTRECV_STATE_CSI_ENTRY, 0x19, 0x19, sc VTRECV_ACTION_EXECUTE 0),
     (VTRECV_STATE_CSI_ENTRY, 0x1c, 0x1f, sc VTRECV_ACTION_EXECUTE 0),
     (VTRECV_STATE_CSI_ENTRY, 0x7f, 0x7f, sc VTRECV_ACTION_IGNORE 0),
     (VTRECV_STATE_CSI_ENTRY, 0x20, 0x2f, sc VTRECV_ACTION_COLLECT VTRECV_STATE_CSI_INTERMEDIATE),
     (VTRECV_STATE_CSI_ENTRY, 0x3a, 0x3a, sc 0 VTRECV_STATE_CSI_IGNORE),
     (VTRECV_STATE_CSI_ENTRY, 0x30, 0x39, sc VTRECV_ACTION_PARAM VTRECV_STATE_CSI_PARAM),
     (VTRECV_STATE_CSI_ENTRY, 0x3b, 0x3b, sc VTRECV_ACTION_PARAM VTRECV_STATE_CSI_PARAM),
     (VTRECV_STATE_CSI_ENTRY, 0x3c, 0x3f, sc VTRECV_ACTION_COLLECT VTRECV_STATE_CSI_PARAM),
     (VTRECV_STATE_CSI_ENTRY, 0x40, 0x7e, sc VTRECV_ACTION_CSI_DISPATCH VTRECV_STATE_GROUND),
     (VTRECV_STATE_CSI_IGNORE, 0x00, 0x17, sc VTRECV_ACTION_EXECUTE 0),
     (VTRECV_STATE_CSI_IGNORE, 0x19, 0x19, sc VTRECV_ACTION_EXECUTE 0),
     (VTRECV_STATE_CSI_IGNORE, 0x1c, 0x1f, sc VTRECV_ACTION_EXECUTE 0),
     (VTRECV_STATE_CSI_IGNORE, 0x20, 0x3f, sc VTRECV_ACTION_IGNORE 0),
     (VTRECV_STATE_CSI_IGNORE, 0x7f, 0x7f, sc VTRECV_ACTION_IGNORE 0),
     (VTRECV_STATE_CSI_IGNORE, 0x40, 0x7e, sc 0 VTRECV_STATE_GROUND),
     (VTRECV_STATE_CSI_PARAM, 0x00, 0x17, sc VTRECV_ACTION_EXECUTE 0),
     (VTRECV_STATE_CSI_PARAM, 0x19, 0x19, sc VTRECV_ACTION_EXECUTE 0),
     (VTRECV_STATE_CSI_PARAM, 0x1c, 0x1f, sc VTRECV_ACTION_EXECUTE 0),
     (VTRECV_STATE_CSI_PARAM, 0x30, 0x39, sc VTRECV_ACTION_PARAM 0),
     (VTRECV_STATE_CSI_PARAM, 0x3b, 0x3b, sc VTRECV_ACTION_PARAM 0),
     (VTRECV_STATE_CSI_PARAM, 0x7f, 0x7f, sc VTRECV_ACTION_IGNORE 0),
     (VTRECV_STATE_CSI_PARAM, 0x3a, 0x3a, sc 0 VTRECV_STATE_CSI_IGNORE),
     (VTRECV_STATE_CSI_PARAM, 0x3c, 0x3f, sc 0 VTRECV_STATE_CSI_IGNORE),
     (VTRECV_STATE_CSI_PARAM, 0x20, 0x2f, sc VTRECV_ACTION_COLLECT VTRECV_STATE_CSI_INTERMEDIATE),
     (VTRECV_STATE_CSI_PARAM, 0x40, 0x7e, sc VTRECV_ACTION_CSI_DISPATCH VTRECV_STATE_GROUND),
     (VTRECV_STATE_CSI_INTERMEDIATE, 0x00, 0x17, sc VTRECV_ACTION_EXECUTE 0),
     (VTRECV_STATE_CSI_INTERMEDIATE, 0x19, 0x19, sc VTRECV_ACTION_EXECUTE 0),
     (VTRECV_STATE_CSI_INTERMEDIATE, 0x1c, 0x1f, sc VTRECV_ACTION_EXECUTE 0),
     (VTRECV_STATE_CSI_INTERMEDIATE, 0x20, 0x2f, sc VTRECV_ACTION_COLLECT 0),
     (VTRECV_STATE_CSI_INTERMEDIATE, 0x7f, 0x7f, sc VTRECV_ACTION_IGNORE 0),
     (VTRECV_STATE_CSI_INTERMEDIATE, 0x30, 0x3f, sc 0 VTRECV_STATE_CSI_IGNORE),
     (VTRECV_STATE_CSI_INTERMEDIATE, 0x40, 0x7e, sc VTRECV_ACTION_CSI_DISPATCH VTRECV_STATE_GROUND),
     (VTRECV_STATE_DCS_ENTRY, 0x00, 0x17, sc VTRECV_ACTION_IGNORE 0),
     (VTRECV_STATE_DCS_ENTRY, 0x19, 0x19, sc VTRECV_ACTION_IGNORE 0),
     (VTRECV_STATE_DCS_ENTRY, 0x1c, 0x1f, sc VTRECV_ACTION_IGNORE 0),
     (VTRECV_STATE_DCS_ENTRY, 0x7f, 0x7f, sc VTRECV_ACTION_IGNORE 0),
     (VTRECV_STATE_DCS_ENTRY, 0x3a, 0x3a, sc 0 VTRECV_STATE_DCS_IGNORE),
     (VTRECV_STATE_DCS_ENTRY, 0x20, 0x2f, sc VTRECV_ACTION_COLLECT VTRECV_STATE_DCS_INTERMEDIATE),
     (VTRECV_STATE_DCS_ENTRY, 0x30, 0x39, sc VTRECV_ACTION_PARAM VTRECV_STATE_DCS_PARAM),
     (VTRECV_STATE_DCS_ENTRY, 0x3b, 0x3b, sc VTRECV_ACTION_PARAM VTRECV_STATE_DCS_PARAM),
     (VTRECV_STATE_DCS_ENTRY, 0x3c, 0x3f, sc VTRECV_ACTION_COLLECT VTRECV_STATE_DCS_PARAM),
     (VTRECV_STATE_DCS_ENTRY, 0x40, 0x7e, sc 0 VTRECV_STATE_DCS_PASSTHROUGH),
     (VTRECV_STATE_DCS_INTERMEDIATE, 0x00, 0x17, sc VTRECV_ACTION_IGNORE 0),
     (VTRECV_STATE_DCS_INTERMEDIATE, 0x19, 0x19, sc VTRECV_ACTION_IGNORE 0),
     (VTRECV_STATE_DCS_INTERMEDIATE, 0x1c, 0x1f, sc VTRECV_ACTION_IGNORE 0),
     (VTRECV_STATE_DCS_INTERMEDIATE, 0x20, 0x2f, sc VTRECV_ACTION_COLLECT 0),
     (VTRECV_STATE_DCS_INTERMEDIATE, 0x7f, 0x7f, sc VTRECV_ACTION_IGNORE 0),
     (VTRECV_STATE_DCS_INTERMEDIATE, 0x30, 0x3f, sc 0 VTRECV_STATE_DCS_IGNORE),
     (VTRECV_STATE_DCS_INTERMEDIATE, 0x40, 0x7e, sc 0 VTRECV_STATE_DCS_PASSTHROUGH),
     (VTRECV_STATE_DCS_IGNORE, 0x00, 0x17, sc VTRECV_ACTION_IGNORE 0),
     (VTRECV_STATE_DCS_IGNORE, 0x19, 0x19, sc VTRECV_ACTION_IGNORE 0),
     (VTRECV_STATE_DCS_IGNORE, 0x1c, 0x1f, sc VTRECV_ACTION_IGNORE 0),
     (VTRECV_STATE_DCS_IGNORE, 0x20, 0x7f, sc VTRECV_ACTION_IGNORE 0),
     (VTRECV_STATE_DCS_IGNORE, 0x9c, 0x9c, sc 0 VTRECV_STATE_GROUND),
     (VTRECV_STATE_DCS_PARAM, 0x00, 0x17, sc VTRECV_ACTION_IGNORE 0),
     (VTRECV_STATE_DCS_PARAM, 0x19, 0x19, sc VTRECV_ACTION_IGNORE 0),
     (VTRECV_STATE_DCS_PARAM, 0x1c, 0x1f, sc VTRECV_ACTION_IGNORE 0),
     (VTRECV_STATE_DCS_PARAM, 0x30, 0x39, sc VTRECV_ACTION_PARAM 0),
     (VTRECV_STATE_DCS_PARAM, 0x3b, 0x3b, sc VTRECV_ACTION_PARAM 0),
     (VTRECV_STATE_DCS_PARAM, 0x7f, 0x7f, sc VTRECV_ACTION_IGNORE 0),
     (VTRECV_STATE_DCS_PARAM, 0x3a, 0x3a, sc 0 VTRECV_STATE_DCS_IGNORE),
     (VTRECV_STATE_DCS_PARAM, 0x3c, 0x3f, sc 0 VTRECV_STATE_DCS_IGNORE),
     (VTRECV_STATE_DCS_PARAM, 0x20, 0x2f, sc VTRECV_ACTION_COLLECT VTRECV_STATE_DCS_INTERMEDIATE),
     (VTRECV_STATE_DCS_PARAM, 0x40, 0x7e, sc 0 VTRECV_STATE_DCS_PASSTHROUGH),
     (VTRECV_STATE_DCS_PASSTHROUGH, 0x00, 0x17, sc VTRECV_ACTION_PUT 0),
     (VTRECV_STATE_DCS_PASSTHROUGH, 0x19, 0x19, sc VTRECV_ACTION_PUT 0),
     (VTRECV_STATE_DCS_PASSTHROUGH, 0x1c, 0x1f, sc VTRECV_ACTION_PUT 0),
     (VTRECV_STATE_DCS_PASSTHROUGH, 0x20, 0x7e, sc VTRECV_ACTION_PUT 0),
     (VTRECV_STATE_DCS_PASSTHROUGH, 0x7f, 0x7f, sc VTRECV_ACTION_IGNORE 0),
     (VTRECV_STATE_DCS_PASSTHROUGH, 0x9c, 0x9c, sc 0 VTRECV_STATE_GROUND),
     (VTRECV_STATE_SOS_PM_APC_STRING, 0x00, 0x17, sc VTRECV_ACTION_IGNORE 0),
     (VTRECV_STATE_SOS_PM_APC_STRING, 0x19, 0x19, sc VTRECV_ACTION_IGNORE 0),
     (VTRECV_STATE_SOS_PM_APC_STRING, 0x1c, 0x1f, sc VTRECV_ACTION_IGNORE 0),
     (VTRECV_STATE_SOS_PM_APC_STRING, 0x20, 0x7f, sc VTRECV_ACTION_IGNORE 0),
     (VTRECV_STATE_SOS_PM_APC_STRING, 0x9c, 0x9c, sc 0 VTRECV_STATE_GROUND),
     (VTRECV_STATE_OSC_STRING, 0x00, 0x17, sc VTRECV_ACTION_IGNORE 0),
     (VTRECV_STATE_OSC_STRING, 0x19, 0x19, sc VTRECV_ACTION_IGNORE 0),
     (VTRECV_STATE_OSC_STRING, 0x1c, 0x1f, sc VTRECV_ACTION_IGNORE 0),
     (VTRECV_STATE_OSC_STRING, 0x20, 0x7f, sc VTRECV_ACTION_OSC_PUT 0),
     (VTRECV_STATE_OSC_STRING, 0x9c, 0x9c, sc 0 VTRECV_STATE_GROUND)]"

fun table_search :: "state_table_t list \<Rightarrow> u8 \<Rightarrow> u8 \<Rightarrow> u8" where
  "table_search [] state ch = 0"
| "table_search (tp # tps) state ch =
     (if st_state tp = state
      then if code_start tp \<le> ch \<and> ch \<le> code_end tp then state_change tp else table_search tps state ch
      else table_search tps state ch)"

text \<open>\<open>GET_STATE_TABLE\<close> for \<open>USE_ORIGINAL_LUT\<close> 0, as it is compiled, and 1.\<close>

definition GET_STATE_TABLE :: "u8 \<Rightarrow> u8 \<Rightarrow> u8" where
  "GET_STATE_TABLE state ch = table_search table state ch"

definition GET_STATE_TABLE_lut :: "u8 \<Rightarrow> u8 \<Rightarrow> u8 option" where
  "GET_STATE_TABLE_lut state ch = do {
     row \<leftarrow> arr_get STATE_TABLE (unat state);
     arr_get row (unat ch)
   }"

section \<open>Both versions agree\<close>

fun look :: "(nat \<times> nat \<times> u8) list \<Rightarrow> nat \<Rightarrow> u8" where
  "look [] n = 0"
| "look ((a, b, c) # rs) n = (if a \<le> n \<and> n \<le> b then c else look rs n)"

definition ranges :: "state_table_t list \<Rightarrow> u8 \<Rightarrow> (nat \<times> nat \<times> u8) list" where
  "ranges tps st = map (\<lambda>tp. (unat (code_start tp), unat (code_end tp), state_change tp)) (filter (\<lambda>tp. st_state tp = st) tps)"

lemma table_search_look: "table_search tps st ch = look (ranges tps st) (unat ch)"
  by (induction tps) (auto simp: ranges_def word_le_nat_alt)

fun look_run :: "nat \<Rightarrow> (nat \<times> u8) list \<Rightarrow> nat \<Rightarrow> u8" where
  "look_run lo [] n = 0"
| "look_run lo ((k, v) # rs) n = (if n < lo + k then v else look_run (lo + k) rs n)"

lemma runs_look: "n < length (runs rs) + m \<Longrightarrow> (runs rs @ replicate m 0) ! n = look_run lo rs (lo + n)"
  by (induction lo rs "lo + n" arbitrary: n rule: look_run.induct) (auto simp: runs_def nth_append)

lemma row_look:
  assumes "row = runs rs" "length row \<le> 256" "n < 256"
  shows "arr_get (row @ replicate (256 - length row) 0) n = Some (look_run 0 rs n)"
  using runs_look [of n rs "256 - length row" 0] assms by (simp add: arr_get_def)

lemmas STATE_TABLE_defs =
  STATE_TABLE_ANYWHERE_def
  STATE_TABLE_CSI_ENTRY_def
  STATE_TABLE_CSI_IGNORE_def
  STATE_TABLE_CSI_INTERMEDIATE_def
  STATE_TABLE_CSI_PARAM_def
  STATE_TABLE_DCS_ENTRY_def
  STATE_TABLE_DCS_IGNORE_def
  STATE_TABLE_DCS_INTERMEDIATE_def
  STATE_TABLE_DCS_PARAM_def
  STATE_TABLE_DCS_PASSTHROUGH_def
  STATE_TABLE_ESCAPE_def
  STATE_TABLE_ESCAPE_INTERMEDIATE_def
  STATE_TABLE_GROUND_def
  STATE_TABLE_OSC_STRING_def
  STATE_TABLE_SOS_PM_APC_STRING_def

lemma length_STATE_TABLE_rows: "row \<in> set
    [STATE_TABLE_ANYWHERE,
     STATE_TABLE_CSI_ENTRY,
     STATE_TABLE_CSI_IGNORE,
     STATE_TABLE_CSI_INTERMEDIATE,
     STATE_TABLE_CSI_PARAM,
     STATE_TABLE_DCS_ENTRY,
     STATE_TABLE_DCS_IGNORE,
     STATE_TABLE_DCS_INTERMEDIATE,
     STATE_TABLE_DCS_PARAM,
     STATE_TABLE_DCS_PASSTHROUGH,
     STATE_TABLE_ESCAPE,
     STATE_TABLE_ESCAPE_INTERMEDIATE,
     STATE_TABLE_GROUND,
     STATE_TABLE_OSC_STRING,
     STATE_TABLE_SOS_PM_APC_STRING] \<Longrightarrow> length row \<le> 256"
  by (auto simp: STATE_TABLE_defs runs_def)

lemma STATE_TABLE_rows:
  assumes "n < 256"
  shows
    "arr_get (STATE_TABLE_ANYWHERE @ replicate (256 - length STATE_TABLE_ANYWHERE) 0) n = Some (look (ranges table VTRECV_STATE_ANYWHERE) n)"
    "arr_get (STATE_TABLE_CSI_ENTRY @ replicate (256 - length STATE_TABLE_CSI_ENTRY) 0) n = Some (look (ranges table VTRECV_STATE_CSI_ENTRY) n)"
    "arr_get (STATE_TABLE_CSI_IGNORE @ replicate (256 - length STATE_TABLE_CSI_IGNORE) 0) n = Some (look (ranges table VTRECV_STATE_CSI_IGNORE) n)"
    "arr_get (STATE_TABLE_CSI_INTERMEDIATE @ replicate (256 - length STATE_TABLE_CSI_INTERMEDIATE) 0) n = Some (look (ranges table VTRECV_STATE_CSI_INTERMEDIATE) n)"
    "arr_get (STATE_TABLE_CSI_PARAM @ replicate (256 - length STATE_TABLE_CSI_PARAM) 0) n = Some (look (ranges table VTRECV_STATE_CSI_PARAM) n)"
    "arr_get (STATE_TABLE_DCS_ENTRY @ replicate (256 - length STATE_TABLE_DCS_ENTRY) 0) n = Some (look (ranges table VTRECV_STATE_DCS_ENTRY) n)"
    "arr_get (STATE_TABLE_DCS_IGNORE @ replicate (256 - length STATE_TABLE_DCS_IGNORE) 0) n = Some (look (ranges table VTRECV_STATE_DCS_IGNORE) n)"
    "arr_get (STATE_TABLE_DCS_INTERMEDIATE @ replicate (256 - length STATE_TABLE_DCS_INTERMEDIATE) 0) n = Some (look (ranges table VTRECV_STATE_DCS_INTERMEDIATE) n)"
    "arr_get (STATE_TABLE_DCS_PARAM @ replicate (256 - length STATE_TABLE_DCS_PARAM) 0) n = Some (look (ranges table VTRECV_STATE_DCS_PARAM) n)"
    "arr_get (STATE_TABLE_DCS_PASSTHROUGH @ replicate (256 - length STATE_TABLE_DCS_PASSTHROUGH) 0) n = Some (look (ranges table VTRECV_STATE_DCS_PASSTHROUGH) n)"
    "arr_get (STATE_TABLE_ESCAPE @ replicate (256 - length STATE_TABLE_ESCAPE) 0) n = Some (look (ranges table VTRECV_STATE_ESCAPE) n)"
    "arr_get (STATE_TABLE_ESCAPE_INTERMEDIATE @ replicate (256 - length STATE_TABLE_ESCAPE_INTERMEDIATE) 0) n = Some (look (ranges table VTRECV_STATE_ESCAPE_INTERMEDIATE) n)"
    "arr_get (STATE_TABLE_GROUND @ replicate (256 - length STATE_TABLE_GROUND) 0) n = Some (look (ranges table VTRECV_STATE_GROUND) n)"
    "arr_get (STATE_TABLE_OSC_STRING @ replicate (256 - length STATE_TABLE_OSC_STRING) 0) n = Some (look (ranges table VTRECV_STATE_OSC_STRING) n)"
    "arr_get (STATE_TABLE_SOS_PM_APC_STRING @ replicate (256 - length STATE_TABLE_SOS_PM_APC_STRING) 0) n = Some (look (ranges table VTRECV_STATE_SOS_PM_APC_STRING) n)"
  by (subst row_look [OF STATE_TABLE_defs(1)] row_look [OF STATE_TABLE_defs(2)] row_look [OF STATE_TABLE_defs(3)]
      row_look [OF STATE_TABLE_defs(4)] row_look [OF STATE_TABLE_defs(5)] row_look [OF STATE_TABLE_defs(6)]
      row_look [OF STATE_TABLE_defs(7)] row_look [OF STATE_TABLE_defs(8)] row_look [OF STATE_TABLE_defs(9)]
      row_look [OF STATE_TABLE_defs(10)] row_look [OF STATE_TABLE_defs(11)] row_look [OF STATE_TABLE_defs(12)]
      row_look [OF STATE_TABLE_defs(13)] row_look [OF STATE_TABLE_defs(14)] row_look [OF STATE_TABLE_defs(15)],
      simp add: length_STATE_TABLE_rows, rule assms, simp add: ranges_def table_def sc_def)+

lemma state_cases:
  assumes "(state :: u8) \<le> 14"
  shows "state \<in> {0, 1, 2, 3, 4, 5, 6, 7, 8, 9, 10, 11, 12, 13, 14}"
proof -
  have "unat state \<le> 14"
    using assms by (simp add: word_le_nat_alt)
  then have "unat state = 0 \<or> unat state = 1 \<or> unat state = 2 \<or> unat state = 3 \<or> unat state = 4 \<or> unat state = 5 \<or>
      unat state = 6 \<or> unat state = 7 \<or> unat state = 8 \<or> unat state = 9 \<or> unat state = 10 \<or> unat state = 11 \<or>
      unat state = 12 \<or> unat state = 13 \<or> unat state = 14"
    by presburger
  then show ?thesis
    by (simp add: word_unat_eq_iff)
qed

text \<open>
  C29. The table of ranges that the parser searches and the full look-up table that the build
  option \<open>USE_ORIGINAL_LUT\<close> selects instead give the same state change for every state and every
  input byte.
\<close>

theorem GET_STATE_TABLE_lut_eq:
  assumes "state \<le> VTRECV_STATE_SOS_PM_APC_STRING"
  shows "GET_STATE_TABLE_lut state ch = Some (GET_STATE_TABLE state ch)"
proof -
  have ch: "unat ch < 256"
    using unsigned_less [of ch, where ?'a = nat] by simp
  show ?thesis
    using state_cases [OF assms]
    by (elim insertE emptyE; simp add: GET_STATE_TABLE_lut_def GET_STATE_TABLE_def table_search_look STATE_TABLE_def
        arr_get_def [of "_ # _"] STATE_TABLE_rows [OF ch] del: arr_get_Some)
qed

theorem GET_STATE_TABLE_lut_eq_witness:
  "GET_STATE_TABLE_lut VTRECV_STATE_GROUND 0x1B = Some (GET_STATE_TABLE VTRECV_STATE_GROUND 0x1B)"
  by (rule GET_STATE_TABLE_lut_eq) simp

end
