(* ===== verification/Nt_Vtrecv.thy ===== *)
theory Nt_Vtrecv
  imports Nt_Vttable
begin

text \<open>
  The parser of terminal input, \<open>middleware/ntshell/src/vtrecv.c\<close>. The client's callback is the
  parameter \<open>cb\<close>: it takes an action, a character and the client's state. An access outside the
  arrays of the parser, or a parameter that does not fit an \<open>int\<close>, has no result.
\<close>

abbreviation (input) "MAX_INTERMEDIATE_CHARS \<equiv> (2 :: nat)"

record vtrecv_t =
  vt_state :: u8
  intermediate_chars :: "u8 list"
  ignore_flagged :: u8
  vt_params :: "int list"
  num_params :: nat

section \<open>The parser\<close>

fun vtrecv_strlen :: "u8 list \<Rightarrow> nat option" where
  "vtrecv_strlen [] = None"
| "vtrecv_strlen (c # p) = (if c \<noteq> 0 then map_option Suc (vtrecv_strlen p) else Some 0)"

definition ENTRY_ACTIONS :: "u8 list" where
  "ENTRY_ACTIONS = [0, VTRECV_ACTION_CLEAR, 0, 0, 0, VTRECV_ACTION_CLEAR, 0, 0, 0, VTRECV_ACTION_HOOK,
     VTRECV_ACTION_CLEAR, 0, 0, VTRECV_ACTION_OSC_START, 0]"

definition EXIT_ACTIONS :: "u8 list" where
  "EXIT_ACTIONS = [0, 0, 0, 0, 0, 0, 0, 0, 0, VTRECV_ACTION_UNHOOK, 0, 0, 0, VTRECV_ACTION_OSC_END, 0]"

definition GET_ENTRY_ACTIONS :: "u8 \<Rightarrow> u8 option" where
  "GET_ENTRY_ACTIONS state = arr_get ENTRY_ACTIONS (unat state)"

definition GET_EXIT_ACTIONS :: "u8 \<Rightarrow> u8 option" where
  "GET_EXIT_ACTIONS state = arr_get EXIT_ACTIONS (unat state)"

definition vtrecv_init :: "vtrecv_t \<Rightarrow> vtrecv_t option" where
  "vtrecv_init p = map_option
     (\<lambda>i. p\<lparr>vt_state := VTRECV_STATE_GROUND, intermediate_chars := i, num_params := 0, ignore_flagged := 0\<rparr>)
     (arr_set (intermediate_chars p) 0 0)"

definition vt_collect :: "u8 \<Rightarrow> vtrecv_t \<Rightarrow> vtrecv_t option" where
  "vt_collect ch p = do {
     n \<leftarrow> vtrecv_strlen (intermediate_chars p);
     (if n + 1 > MAX_INTERMEDIATE_CHARS then Some (p\<lparr>ignore_flagged := 1\<rparr>)
      else map_option (\<lambda>i. p\<lparr>intermediate_chars := i\<rparr>) (arr_set (intermediate_chars p) n ch))
   }"

definition vt_param :: "u8 \<Rightarrow> vtrecv_t \<Rightarrow> vtrecv_t option" where
  "vt_param ch p =
     (if ch = 0x3B
      then map_option (\<lambda>ps. p\<lparr>num_params := num_params p + 1, vt_params := ps\<rparr>) (arr_set (vt_params p) (num_params p) 0)
      else do {
        p \<leftarrow> (if num_params p = 0
              then map_option (\<lambda>ps. p\<lparr>num_params := 1, vt_params := ps\<rparr>) (arr_set (vt_params p) 0 0)
              else Some p);
        v \<leftarrow> arr_get (vt_params p) (num_params p - 1);
        (if INT_MAX < v * 10 \<or> INT_MAX < v * 10 + (uint ch - 0x30) then None
         else map_option (\<lambda>ps. p\<lparr>vt_params := ps\<rparr>)
                (arr_set (vt_params p) (num_params p - 1) (v * 10 + (uint ch - 0x30))))
      })"

definition vt_clear :: "vtrecv_t \<Rightarrow> vtrecv_t option" where
  "vt_clear p = map_option (\<lambda>i. p\<lparr>intermediate_chars := i, num_params := 0, ignore_flagged := 0\<rparr>)
     (arr_set (intermediate_chars p) 0 0)"

text \<open>The actions that are handed to the client.\<close>

definition client_action :: "u8 \<Rightarrow> bool" where
  "client_action action \<longleftrightarrow> action \<in> {VTRECV_ACTION_PRINT, VTRECV_ACTION_EXECUTE, VTRECV_ACTION_HOOK, VTRECV_ACTION_PUT,
     VTRECV_ACTION_OSC_START, VTRECV_ACTION_OSC_PUT, VTRECV_ACTION_OSC_END, VTRECV_ACTION_UNHOOK,
     VTRECV_ACTION_CSI_DISPATCH, VTRECV_ACTION_ESC_DISPATCH}"

type_synonym 'u client = "u8 \<Rightarrow> u8 \<Rightarrow> 'u \<Rightarrow> 'u option"

definition do_action :: "'u client \<Rightarrow> u8 \<Rightarrow> u8 \<Rightarrow> vtrecv_t \<times> 'u \<Rightarrow> (vtrecv_t \<times> 'u) option" where
  "do_action cb action ch = (\<lambda>(p, u).
     if client_action action then map_option (Pair p) (cb action ch u)
     else if action = VTRECV_ACTION_IGNORE then Some (p, u)
     else if action = VTRECV_ACTION_COLLECT then map_option (\<lambda>p. (p, u)) (vt_collect ch p)
     else if action = VTRECV_ACTION_PARAM then map_option (\<lambda>p. (p, u)) (vt_param ch p)
     else if action = VTRECV_ACTION_CLEAR then map_option (\<lambda>p. (p, u)) (vt_clear p)
     else Some (p, u))"

definition do_state_change :: "'u client \<Rightarrow> u8 \<Rightarrow> u8 \<Rightarrow> vtrecv_t \<times> 'u \<Rightarrow> (vtrecv_t \<times> 'u) option" where
  "do_state_change cb change ch = (\<lambda>(p, u).
     let new_state = STATE change; action = ACTION change in
     if new_state \<noteq> 0
     then do {
       exit_action \<leftarrow> GET_EXIT_ACTIONS (vt_state p);
       entry_action \<leftarrow> GET_ENTRY_ACTIONS new_state;
       s \<leftarrow> (if exit_action \<noteq> 0 then do_action cb exit_action 0 (p, u) else Some (p, u));
       s \<leftarrow> (if action \<noteq> 0 then do_action cb action ch s else Some s);
       (p, u) \<leftarrow> (if entry_action \<noteq> 0 then do_action cb entry_action 0 s else Some s);
       Some (p\<lparr>vt_state := new_state\<rparr>, u)
     }
     else do_action cb action ch (p, u))"

fun vtrecv_execute :: "'u client \<Rightarrow> u8 list \<Rightarrow> vtrecv_t \<times> 'u \<Rightarrow> (vtrecv_t \<times> 'u) option" where
  "vtrecv_execute cb [] s = Some s"
| "vtrecv_execute cb (ch # data) s = do {
     let change = GET_STATE_TABLE VTRECV_STATE_ANYWHERE ch;
     let change = (if change = 0 then GET_STATE_TABLE (vt_state (fst s)) ch else change);
     s \<leftarrow> do_state_change cb change ch s;
     vtrecv_execute cb data s
   }"

lemma vtrecv_execute_step:
  "vtrecv_execute cb (ch # data) s = vtrecv_execute cb [ch] s \<bind> vtrecv_execute cb data"
  by (cases "do_state_change cb (let change = GET_STATE_TABLE VTRECV_STATE_ANYWHERE ch in
      if change = 0 then GET_STATE_TABLE (vt_state (fst s)) ch else change) ch s") (simp_all add: Let_def)

lemma vtrecv_execute_append:
  "vtrecv_execute cb (xs @ ys) s = vtrecv_execute cb xs s \<bind> vtrecv_execute cb ys"
proof (induction xs arbitrary: s)
  case (Cons x xs)
  show ?case
    unfolding append.simps vtrecv_execute_step [of cb x "xs @ ys"] vtrecv_execute_step [of cb x xs]
    by (cases "vtrecv_execute cb [x] s") (simp_all only: bind.bind_lzero bind.bind_lunit Cons)
qed simp

section \<open>What the table contains\<close>

text \<open>A state change comes from a range that has the character, or is zero.\<close>

lemma table_search_entry:
  "table_search tps state ch = 0 \<or>
    (\<exists>tp \<in> set tps. st_state tp = state \<and> code_start tp \<le> ch \<and> ch \<le> code_end tp \<and> table_search tps state ch = state_change tp)"
  by (induction tps) auto

lemma table_entries:
  assumes "tp \<in> set table"
  shows "STATE (state_change tp) \<le> 14"
    and "ACTION (state_change tp) = VTRECV_ACTION_PARAM \<Longrightarrow>
      0x30 \<le> code_start tp \<and> code_end tp \<le> 0x39 \<or> code_start tp = 0x3B \<and> code_end tp = 0x3B"
    and "ACTION (state_change tp) = VTRECV_ACTION_PRINT \<Longrightarrow> 0x20 \<le> code_start tp \<and> code_end tp \<le> 0x7F"
proof -
  have "\<forall>tp \<in> set table. STATE (state_change tp) \<le> 14 \<and>
     (ACTION (state_change tp) = VTRECV_ACTION_PARAM \<longrightarrow>
       0x30 \<le> code_start tp \<and> code_end tp \<le> 0x39 \<or> code_start tp = 0x3B \<and> code_end tp = 0x3B) \<and>
     (ACTION (state_change tp) = VTRECV_ACTION_PRINT \<longrightarrow> 0x20 \<le> code_start tp \<and> code_end tp \<le> 0x7F)"
    by (simp add: table_def STATE_def ACTION_def sc_def)
  then show "STATE (state_change tp) \<le> 14"
    and "ACTION (state_change tp) = VTRECV_ACTION_PARAM \<Longrightarrow>
      0x30 \<le> code_start tp \<and> code_end tp \<le> 0x39 \<or> code_start tp = 0x3B \<and> code_end tp = 0x3B"
    and "ACTION (state_change tp) = VTRECV_ACTION_PRINT \<Longrightarrow> 0x20 \<le> code_start tp \<and> code_end tp \<le> 0x7F"
    using assms by blast+
qed

lemma GET_STATE_TABLE_range:
  shows "STATE (GET_STATE_TABLE state ch) \<le> 14"
    and "ACTION (GET_STATE_TABLE state ch) = VTRECV_ACTION_PARAM \<Longrightarrow> 0x30 \<le> ch \<and> ch \<le> 0x39 \<or> ch = 0x3B"
    and "ACTION (GET_STATE_TABLE state ch) = VTRECV_ACTION_PRINT \<Longrightarrow> 0x20 \<le> ch \<and> ch \<le> 0x7F"
proof -
  have zero: "STATE 0 = 0" "ACTION 0 = 0"
    by (simp_all add: STATE_def ACTION_def)
  consider "GET_STATE_TABLE state ch = 0"
    | tp where "tp \<in> set table" "code_start tp \<le> ch" "ch \<le> code_end tp" "GET_STATE_TABLE state ch = state_change tp"
    using table_search_entry [of table state ch] by (auto simp: GET_STATE_TABLE_def)
  note split = this
  show "STATE (GET_STATE_TABLE state ch) \<le> 14"
    using split by cases (simp_all add: zero table_entries)
  show "0x30 \<le> ch \<and> ch \<le> 0x39 \<or> ch = 0x3B" if "ACTION (GET_STATE_TABLE state ch) = VTRECV_ACTION_PARAM"
    using split
  proof cases
    case (2 tp)
    then show ?thesis
      using table_entries(2) [of tp] that by (metis order_antisym order_trans)
  qed (use that zero in simp)
  show "0x20 \<le> ch \<and> ch \<le> 0x7F" if "ACTION (GET_STATE_TABLE state ch) = VTRECV_ACTION_PRINT"
    using split
  proof cases
    case (2 tp)
    then show ?thesis
      using table_entries(3) [of tp] that by (metis order_trans)
  qed (use that zero in simp)
qed

section \<open>The invariant of the parser\<close>

definition vt_ok :: "vtrecv_t \<Rightarrow> bool" where
  "vt_ok p \<longleftrightarrow> vt_state p \<le> 14 \<and> length (intermediate_chars p) = MAX_INTERMEDIATE_CHARS + 1 \<and>
     intermediate_chars p ! MAX_INTERMEDIATE_CHARS = 0 \<and> length (vt_params p) = 16 \<and> num_params p \<le> 16 \<and>
     (\<forall>i < num_params p. 0 \<le> vt_params p ! i \<and> vt_params p ! i \<le> INT_MAX)"

text \<open>A parameter too many, or one that is too large.\<close>

definition param_overflow :: "vtrecv_t \<Rightarrow> u8 \<Rightarrow> bool" where
  "param_overflow p ch \<longleftrightarrow>
     (if ch = 0x3B then num_params p = 16
      else 0 < num_params p \<and> INT_MAX < vt_params p ! (num_params p - 1) * 10 + (uint ch - 0x30))"

definition next_change :: "vtrecv_t \<Rightarrow> u8 \<Rightarrow> u8" where
  "next_change p ch =
     (let change = GET_STATE_TABLE VTRECV_STATE_ANYWHERE ch in
      if change = 0 then GET_STATE_TABLE (vt_state p) ch else change)"

definition vt_overflow :: "vtrecv_t \<Rightarrow> u8 \<Rightarrow> bool" where
  "vt_overflow p ch \<longleftrightarrow> ACTION (next_change p ch) = VTRECV_ACTION_PARAM \<and> param_overflow p ch"

lemma vt_ok_parts:
  assumes "vt_ok p"
  obtains a b where "intermediate_chars p = [a, b, 0]" "length (vt_params p) = 16" "num_params p \<le> 16" "vt_state p \<le> 14"
proof -
  obtain a b c where "intermediate_chars p = [a, b, c]"
    using assms by (auto simp: vt_ok_def numeral_2_eq_2 length_Suc_conv)
  then show ?thesis
    using that assms by (auto simp: vt_ok_def)
qed

lemma vtrecv_init_ok:
  assumes "length (intermediate_chars p) = 3" "intermediate_chars p ! 2 = 0" "length (vt_params p) = 16"
  shows "\<exists>q. vtrecv_init p = Some q \<and> vt_ok q \<and> vt_state q = VTRECV_STATE_GROUND"
  using assms by (simp add: vtrecv_init_def vt_ok_def arr_set_def)

lemma vt_collect_ok: "vt_ok p \<Longrightarrow> \<exists>q. vt_collect ch p = Some q \<and> vt_ok q \<and> vt_state q = vt_state p"
  by (frule vt_ok_parts) (auto simp: vt_collect_def vt_ok_def arr_set_def numeral_2_eq_2 nth_Cons')

lemma vt_clear_ok: "vt_ok p \<Longrightarrow> \<exists>q. vt_clear p = Some q \<and> vt_ok q \<and> vt_state q = vt_state p"
  by (frule vt_ok_parts) (auto simp: vt_clear_def vt_ok_def arr_set_def)

lemma vt_param_ok:
  assumes ok: "vt_ok p" and ch: "0x30 \<le> ch \<and> ch \<le> 0x39 \<or> ch = 0x3B" and no: "\<not> param_overflow p ch"
  shows "\<exists>q. vt_param ch p = Some q \<and> vt_ok q \<and> vt_state q = vt_state p"
proof (cases "ch = 0x3B")
  case True
  then show ?thesis
    using ok no by (auto simp: vt_param_def vt_ok_def param_overflow_def arr_set_def nth_list_update less_Suc_eq)
next
  case False
  then have d: "0 \<le> uint ch - 0x30" "uint ch - 0x30 \<le> 9"
    using ch by (auto simp: word_le_def)
  show ?thesis
  proof (cases "num_params p = 0")
    case True
    then show ?thesis
      using ok d False by (auto simp: vt_param_def vt_ok_def arr_set_def arr_get_def)
  next
    case np: False
    let ?v = "vt_params p ! (num_params p - 1)"
    have v: "0 \<le> ?v" "\<not> INT_MAX < ?v * 10 + (uint ch - 0x30)" "\<not> INT_MAX < ?v * 10"
      using ok no np False d by (auto simp: vt_ok_def param_overflow_def)
    have "vt_param ch p = Some (p\<lparr>vt_params := (vt_params p)[num_params p - 1 := ?v * 10 + (uint ch - 0x30)]\<rparr>)"
      using ok np False v(2,3) by (auto simp: vt_param_def vt_ok_def arr_set_def arr_get_def)
    then show ?thesis
      using ok v(1,2) d by (auto simp: vt_ok_def nth_list_update)
  qed
qed

section \<open>Clients\<close>

text \<open>What the parser may rely on: the callback keeps the invariant of its client.\<close>

locale vt_client =
  fixes cb :: "'u client" and inv :: "'u \<Rightarrow> bool"
  assumes cb_inv:
    "inv u \<Longrightarrow> (action = VTRECV_ACTION_PRINT \<Longrightarrow> 0x20 \<le> ch \<and> ch \<le> 0x7F) \<Longrightarrow> \<exists>v. cb action ch u = Some v \<and> inv v"
begin

lemma do_action_inv:
  assumes "vt_ok p" "inv u" "action = VTRECV_ACTION_PRINT \<Longrightarrow> 0x20 \<le> ch \<and> ch \<le> 0x7F"
    and "action = VTRECV_ACTION_PARAM \<Longrightarrow> (0x30 \<le> ch \<and> ch \<le> 0x39 \<or> ch = 0x3B) \<and> \<not> param_overflow p ch"
  obtains q v where "do_action cb action ch (p, u) = Some (q, v)" "vt_ok q" "inv v" "vt_state q = vt_state p"
proof -
  have "\<exists>q v. do_action cb action ch (p, u) = Some (q, v) \<and> vt_ok q \<and> inv v \<and> vt_state q = vt_state p"
    using assms cb_inv [OF assms(2,3)] vt_collect_ok [OF assms(1), of ch] vt_clear_ok [OF assms(1)] vt_param_ok [OF assms(1), of ch]
    by (auto simp: do_action_def)
  then show ?thesis
    using that by blast
qed

text \<open>Exit and entry actions are not \<open>PRINT\<close> or \<open>PARAM\<close>; exit actions leave the parser alone.\<close>

lemma exit_action_inv:
  assumes "vt_ok p" "inv u"
  obtains a v where "GET_EXIT_ACTIONS (vt_state p) = Some a"
    "(if a \<noteq> 0 then do_action cb a 0 (p, u) else Some (p, u)) = Some (p, v)" "inv v"
proof -
  have *: "\<exists>v. do_action cb a 0 (p, u) = Some (p, v) \<and> inv v"
    if "client_action a" "a \<noteq> VTRECV_ACTION_PRINT" for a
    using cb_inv [OF assms(2), of a 0] that by (auto simp: do_action_def)
  have "\<exists>a v. GET_EXIT_ACTIONS (vt_state p) = Some a \<and>
      (if a \<noteq> 0 then do_action cb a 0 (p, u) else Some (p, u)) = Some (p, v) \<and> inv v"
    using state_cases [of "vt_state p"] assms * [of VTRECV_ACTION_UNHOOK] * [of VTRECV_ACTION_OSC_END]
    by (auto simp: vt_ok_def GET_EXIT_ACTIONS_def EXIT_ACTIONS_def arr_get_def client_action_def)
  then show ?thesis
    using that by blast
qed

lemma entry_action_inv:
  assumes "vt_ok p" "inv u" "state \<le> 14"
  obtains a q v where "GET_ENTRY_ACTIONS state = Some a"
    "(if a \<noteq> 0 then do_action cb a 0 (p, u) else Some (p, u)) = Some (q, v)" "vt_ok q" "inv v"
proof -
  have *: "\<exists>q v. do_action cb a 0 (p, u) = Some (q, v) \<and> vt_ok q \<and> inv v"
    if "a \<noteq> VTRECV_ACTION_PRINT" "a \<noteq> VTRECV_ACTION_PARAM" for a
    by (rule do_action_inv [OF assms(1,2), of a 0]) (use that in auto)
  have "\<exists>a q v. GET_ENTRY_ACTIONS state = Some a \<and>
      (if a \<noteq> 0 then do_action cb a 0 (p, u) else Some (p, u)) = Some (q, v) \<and> vt_ok q \<and> inv v"
    using state_cases [OF assms(3)] assms(1,2) * [of VTRECV_ACTION_CLEAR] * [of VTRECV_ACTION_HOOK] * [of VTRECV_ACTION_OSC_START]
    by (auto simp: GET_ENTRY_ACTIONS_def ENTRY_ACTIONS_def arr_get_def)
  then show ?thesis
    using that by blast
qed

lemma step_inv:
  assumes ok: "vt_ok p" "inv u" and no: "\<not> vt_overflow p ch"
  obtains q v where "vtrecv_execute cb [ch] (p, u) = Some (q, v)" "vt_ok q" "inv v"
proof -
  let ?c = "next_change p ch"
  have c: "STATE ?c \<le> 14" "ACTION ?c = VTRECV_ACTION_PRINT \<Longrightarrow> 0x20 \<le> ch \<and> ch \<le> 0x7F"
      "ACTION ?c = VTRECV_ACTION_PARAM \<Longrightarrow> (0x30 \<le> ch \<and> ch \<le> 0x39 \<or> ch = 0x3B) \<and> \<not> param_overflow p ch"
    using GET_STATE_TABLE_range [of "vt_state p" ch] GET_STATE_TABLE_range [of VTRECV_STATE_ANYWHERE ch] no
    by (auto simp: next_change_def vt_overflow_def Let_def split: if_splits)
  have exec: "vtrecv_execute cb [ch] (p, u) = do_state_change cb ?c ch (p, u)"
    by (cases "do_state_change cb ?c ch (p, u)") (simp_all add: next_change_def Let_def split: if_splits)
  show ?thesis
  proof (cases "STATE ?c = 0")
    case True
    then have "do_state_change cb ?c ch (p, u) = do_action cb (ACTION ?c) ch (p, u)"
      by (simp add: do_state_change_def Let_def)
    then show ?thesis
      using do_action_inv [OF ok c(2,3)] that exec by metis
  next
    case False
    obtain a v where a: "GET_EXIT_ACTIONS (vt_state p) = Some a"
        "(if a \<noteq> 0 then do_action cb a 0 (p, u) else Some (p, u)) = Some (p, v)" "inv v"
      by (rule exit_action_inv [OF ok])
    obtain q w where q: "(if ACTION ?c \<noteq> 0 then do_action cb (ACTION ?c) ch (p, v) else Some (p, v)) = Some (q, w)"
        "vt_ok q" "inv w"
      using do_action_inv [OF ok(1) a(3) c(2,3)] ok(1) a(3) by metis
    obtain e r x where e: "GET_ENTRY_ACTIONS (STATE ?c) = Some e"
        "(if e \<noteq> 0 then do_action cb e 0 (q, w) else Some (q, w)) = Some (r, x)" "vt_ok r" "inv x"
      by (rule entry_action_inv [OF q(2,3) c(1)])
    have "do_state_change cb ?c ch (p, u) = Some (r\<lparr>vt_state := STATE ?c\<rparr>, x)"
      using False a(1,2) q(1) e(1,2) by (simp add: do_state_change_def Let_def del: if_not_P)
    moreover have "vt_ok (r\<lparr>vt_state := STATE ?c\<rparr>)"
      using e(3) c(1) by (simp add: vt_ok_def)
    ultimately show ?thesis
      using that exec e(4) by simp
  qed
qed

text \<open>
  A run of the parser keeps both invariants, unless one of the characters is a parameter that
  does not fit.
\<close>

lemma run_inv:
  assumes "vt_ok p" "inv u"
  shows "(\<exists>q v. vtrecv_execute cb chs (p, u) = Some (q, v) \<and> vt_ok q \<and> inv v) \<or>
    (\<exists>as ch bs q v. chs = as @ ch # bs \<and> vtrecv_execute cb as (p, u) = Some (q, v) \<and> vt_overflow q ch)"
  using assms
proof (induction chs arbitrary: p u)
  case (Cons ch chs)
  show ?case
  proof (cases "vt_overflow p ch")
    case True
    then show ?thesis
      by (intro disjI2 exI [of _ "[]"] exI [of _ ch] exI [of _ chs] exI [of _ p] exI [of _ u]) simp
  next
    case False
    obtain q v where q: "vtrecv_execute cb [ch] (p, u) = Some (q, v)" "vt_ok q" "inv v"
      by (rule step_inv [OF Cons.prems False])
    have step: "vtrecv_execute cb (ch # ds) (p, u) = vtrecv_execute cb ds (q, v)" for ds
      unfolding vtrecv_execute_step [of cb ch ds] q(1) by simp
    show ?thesis
      using Cons.IH [OF q(2,3)]
    proof (elim disjE exE conjE)
      fix as c bs r w
      assume "chs = as @ c # bs" "vtrecv_execute cb as (q, v) = Some (r, w)" "vt_overflow r c"
      then show ?thesis
        by (intro disjI2 exI [of _ "ch # as"] exI [of _ c] exI [of _ bs] exI [of _ r] exI [of _ w])
          (simp only: step append.simps simp_thms)
    qed (simp only: step, blast)
  qed
qed (simp add: assms)

end

end
