(* ===== verification/Nt_Vtsend.thy ===== *)
theory Nt_Vtsend
  imports Nt_Vtrecv "HOL-Library.Signed_Division"
begin

text \<open>
  Terminal output, \<open>middleware/ntshell/src/vtsend.c\<close>. A function is the list of the bytes it hands
  to \<open>uart_write\<close>, in order; all of them return 0. The numbers are \<open>int\<close>s, divided as C does.
\<close>

abbreviation (input) "ESC \<equiv> (0x1B :: u8)"

section \<open>Functions\<close>

text \<open>\<open>'0' + (n / 10)\<close> and \<open>'0' + (n % 10)\<close>, stored in a \<open>char\<close>.\<close>

definition two_digits :: "int \<Rightarrow> u8 list" where
  "two_digits n = [of_int (0x30 + n sdiv 10), of_int (0x30 + n smod 10)]"

definition vtsend_cursor_position :: "int \<Rightarrow> int \<Rightarrow> u8 list" where
  "vtsend_cursor_position column line = [ESC, 0x5B] @ two_digits line @ [0x3B] @ two_digits column @ [0x48]"

definition vtsend_cursor_up :: "int \<Rightarrow> u8 list" where
  "vtsend_cursor_up n = [ESC, 0x5B] @ two_digits n @ [0x41]"

definition vtsend_cursor_down :: "int \<Rightarrow> u8 list" where
  "vtsend_cursor_down n = [ESC, 0x5B] @ two_digits n @ [0x42]"

definition vtsend_cursor_forward :: "int \<Rightarrow> u8 list" where
  "vtsend_cursor_forward n = [ESC, 0x5B] @ two_digits n @ [0x43]"

definition vtsend_cursor_backward :: "int \<Rightarrow> u8 list" where
  "vtsend_cursor_backward n = [ESC, 0x5B] @ two_digits n @ [0x44]"

definition vtsend_cursor_position_save :: "u8 list" where
  "vtsend_cursor_position_save = [ESC, 0x5B, 0x73]"

definition vtsend_cursor_position_restore :: "u8 list" where
  "vtsend_cursor_position_restore = [ESC, 0x5B, 0x75]"

definition vtsend_erase_display :: "u8 list" where
  "vtsend_erase_display = [ESC, 0x5B, 0x32, 0x4A]"

definition vtsend_erase_line :: "u8 list" where
  "vtsend_erase_line = [ESC, 0x5B, 0x32, 0x4B]"

definition vtsend_set_color_foreground :: "int \<Rightarrow> u8 list" where
  "vtsend_set_color_foreground color = [ESC, 0x5B] @ two_digits (30 + color) @ [0x6D]"

definition vtsend_set_color_background :: "int \<Rightarrow> u8 list" where
  "vtsend_set_color_background color = [ESC, 0x5B] @ two_digits (40 + color) @ [0x6D]"

definition vtsend_set_attribute :: "int \<Rightarrow> u8 list" where
  "vtsend_set_attribute attr = [ESC, 0x5B] @ two_digits attr @ [0x6D]"

definition vtsend_set_scroll_region :: "int \<Rightarrow> int \<Rightarrow> u8 list" where
  "vtsend_set_scroll_region top_line bottom = [ESC, 0x5B] @ two_digits top_line @ [0x3B] @ two_digits bottom @ [0x72]"

definition vtsend_set_cursor :: "int \<Rightarrow> u8 list" where
  "vtsend_set_cursor visible =
     (if visible \<noteq> 0 then [ESC, 0x5B, 0x3F, 0x32, 0x35, 0x68] else [ESC, 0x5B, 0x3F, 0x32, 0x35, 0x6C])"

definition vtsend_reset :: "u8 list" where
  "vtsend_reset = [ESC, 0x63]"

definition vtsend_draw_box :: "int \<Rightarrow> int \<Rightarrow> int \<Rightarrow> int \<Rightarrow> u8 list" where
  "vtsend_draw_box x1 y1 x2 y2 =
     vtsend_cursor_position x1 y1 @ map (\<lambda>i. 0x20) [x1..x2] @
     vtsend_cursor_position x1 y2 @ map (\<lambda>i. 0x20) [x1..x2] @
     concat (map (\<lambda>i. vtsend_cursor_position x1 i @ [0x20] @ vtsend_cursor_position x2 i @ [0x20]) [y1..y2])"

definition vtsend_fill_box :: "int \<Rightarrow> int \<Rightarrow> int \<Rightarrow> int \<Rightarrow> u8 list" where
  "vtsend_fill_box x1 y1 x2 y2 =
     concat (map (\<lambda>i. vtsend_cursor_position x1 i @ map (\<lambda>j. 0x20) [x1..x2]) [y1..y2])"

section \<open>The parser understands the sender\<close>

lemma two_digits_eq:
  assumes "0 \<le> n" "n < 100"
  shows "two_digits n = [of_int (0x30 + n div 10), of_int (0x30 + n mod 10)]"
  using assms by (simp add: two_digits_def signed_divide_int_def signed_modulo_int_def sgn_if)

lemma uint_digit: "0 \<le> d \<Longrightarrow> d < 10 \<Longrightarrow> uint (of_int (0x30 + d) :: u8) = 0x30 + d"
  by (simp add: unsigned_of_int take_bit_int_eq_self del: of_int_add)

text \<open>The state changes on the way through a control sequence with numeric parameters.\<close>

lemma csi_changes:
  "next_change p ESC = sc 0 VTRECV_STATE_ESCAPE"
  "vt_state p = VTRECV_STATE_ESCAPE \<Longrightarrow> next_change p 0x5B = sc 0 VTRECV_STATE_CSI_ENTRY"
  "vt_state p = VTRECV_STATE_CSI_PARAM \<Longrightarrow> next_change p 0x3B = sc VTRECV_ACTION_PARAM 0"
  by (simp_all add: next_change_def GET_STATE_TABLE_def table_def Let_def sc_def)

lemma csi_digit:
  assumes "0x30 \<le> ch" "ch \<le> 0x39"
  shows "vt_state p = VTRECV_STATE_CSI_ENTRY \<Longrightarrow> next_change p ch = sc VTRECV_ACTION_PARAM VTRECV_STATE_CSI_PARAM"
    and "vt_state p = VTRECV_STATE_CSI_PARAM \<Longrightarrow> next_change p ch = sc VTRECV_ACTION_PARAM 0"
proof -
  have u: "48 \<le> unat ch" "unat ch \<le> 57"
    using assms by (simp_all add: word_le_nat_alt)
  show "vt_state p = VTRECV_STATE_CSI_ENTRY \<Longrightarrow> next_change p ch = sc VTRECV_ACTION_PARAM VTRECV_STATE_CSI_PARAM"
    and "vt_state p = VTRECV_STATE_CSI_PARAM \<Longrightarrow> next_change p ch = sc VTRECV_ACTION_PARAM 0"
    using u by (simp_all add: next_change_def GET_STATE_TABLE_def table_search_look ranges_def table_def Let_def sc_def)
qed

lemma vtrecv_execute_Cons:
  "vtrecv_execute cb (ch # data) (p, u) = do_state_change cb (next_change p ch) ch (p, u) \<bind> vtrecv_execute cb data"
  by (simp add: next_change_def Let_def)

lemmas change_simps = do_state_change_def do_action_def client_action_def STATE_def ACTION_def sc_def
  GET_EXIT_ACTIONS_def GET_ENTRY_ACTIONS_def EXIT_ACTIONS_def ENTRY_ACTIONS_def arr_get_def

text \<open>The parser after \<open>ESC [\<close>, and inside the parameters.\<close>

definition csi_entry :: "vtrecv_t \<Rightarrow> vtrecv_t" where
  "csi_entry p = p\<lparr>intermediate_chars := (intermediate_chars p)[0 := 0],
     num_params := 0, ignore_flagged := 0, vt_state := VTRECV_STATE_CSI_ENTRY\<rparr>"

lemma csi_begin:
  assumes "vt_ok p" "vt_state p = VTRECV_STATE_GROUND"
  shows "vtrecv_execute cb ([ESC, 0x5B] @ data) (p, u) = vtrecv_execute cb data (csi_entry p, u)"
proof -
  have "0 < length (intermediate_chars p)"
    using assms(1) by (simp add: vt_ok_def)
  then show ?thesis
    using assms(2)
    by (simp add: vtrecv_execute_Cons csi_changes change_simps vt_clear_def arr_set_def csi_entry_def del: vtrecv_execute.simps)
qed

lemma csi_first_digits:
  assumes "vt_state p = VTRECV_STATE_CSI_ENTRY" "num_params p = 0" "length (vt_params p) = 16" "0 \<le> n" "n < 100"
  shows "vtrecv_execute cb (two_digits n @ data) (p, u) =
    vtrecv_execute cb data (p\<lparr>vt_state := VTRECV_STATE_CSI_PARAM, num_params := 1, vt_params := (vt_params p)[0 := n]\<rparr>, u)"
proof -
  let ?a = "of_int (0x30 + n div 10) :: u8" and ?b = "of_int (0x30 + n mod 10) :: u8"
  have d: "0 \<le> n div 10" "n div 10 < 10" "0 \<le> n mod 10" "n mod 10 < 10"
    using assms(4,5) by auto
  have u: "uint ?a = 0x30 + n div 10" "uint ?b = 0x30 + n mod 10"
    using uint_digit d by blast+
  have r: "0x30 \<le> ?a" "?a \<le> 0x39" "0x30 \<le> ?b" "?b \<le> 0x39" "?a \<noteq> 0x3B" "?b \<noteq> 0x3B"
    using d by (simp_all only: word_le_def u word_uint_eq_iff) simp_all
  let ?q = "p\<lparr>vt_state := VTRECV_STATE_CSI_PARAM, num_params := 1, vt_params := (vt_params p)[0 := n div 10]\<rparr>"
  have a: "do_state_change cb (next_change p ?a) ?a (p, u) = Some (?q, u)"
    using assms r(5) d by (simp add: csi_digit(1) [OF r(1,2)] change_simps vt_param_def arr_set_def u(1) del: of_int_add)
  have b: "do_state_change cb (next_change ?q ?b) ?b (?q, u) = Some (?q\<lparr>vt_params := (vt_params p)[0 := n]\<rparr>, u)"
    using assms(3-) r(6) d by (simp add: csi_digit(2) [OF r(3,4)] change_simps vt_param_def arr_set_def u(2) del: of_int_add)
  show ?thesis
    unfolding two_digits_eq [OF assms(4,5)]
    by (simp only: append.simps vtrecv_execute_Cons a b bind.bind_lunit) simp
qed

lemma csi_next_digits:
  assumes "vt_state p = VTRECV_STATE_CSI_PARAM" "num_params p = k" "k < 16" "length (vt_params p) = 16" "0 \<le> n" "n < 100"
  shows "vtrecv_execute cb ([0x3B] @ two_digits n @ data) (p, u) =
    vtrecv_execute cb data (p\<lparr>num_params := k + 1, vt_params := (vt_params p)[k := n]\<rparr>, u)"
proof -
  let ?a = "of_int (0x30 + n div 10) :: u8" and ?b = "of_int (0x30 + n mod 10) :: u8"
  have d: "0 \<le> n div 10" "n div 10 < 10" "0 \<le> n mod 10" "n mod 10 < 10"
    using assms(5,6) by auto
  have u: "uint ?a = 0x30 + n div 10" "uint ?b = 0x30 + n mod 10"
    using uint_digit d by blast+
  have r: "0x30 \<le> ?a" "?a \<le> 0x39" "0x30 \<le> ?b" "?b \<le> 0x39" "?a \<noteq> 0x3B" "?b \<noteq> 0x3B"
    using d by (simp_all only: word_le_def u word_uint_eq_iff) simp_all
  let ?p = "\<lambda>v. p\<lparr>num_params := k + 1, vt_params := (vt_params p)[k := v]\<rparr>"
  have s: "do_state_change cb (next_change p 0x3B) 0x3B (p, u) = Some (?p 0, u)"
    using assms(1-4) by (simp add: csi_changes(3) change_simps vt_param_def arr_set_def)
  have a: "do_state_change cb (next_change (?p 0) ?a) ?a (?p 0, u) = Some (?p (n div 10), u)"
    using assms(1,3,4) r(5) d by (simp add: csi_digit(2) [OF r(1,2)] change_simps vt_param_def arr_set_def u(1) del: of_int_add)
  have b: "do_state_change cb (next_change (?p (n div 10)) ?b) ?b (?p (n div 10), u) = Some (?p n, u)"
    using assms(1,3-) r(6) d by (simp add: csi_digit(2) [OF r(3,4)] change_simps vt_param_def arr_set_def u(2) del: of_int_add)
  show ?thesis
    unfolding two_digits_eq [OF assms(5,6)]
    by (simp only: append.simps vtrecv_execute_Cons s a b bind.bind_lunit)
qed

lemma csi_final:
  assumes "vt_state p = VTRECV_STATE_CSI_PARAM" "0x40 \<le> ch" "ch \<le> 0x7E"
  shows "vtrecv_execute cb [ch] (p, u) =
    map_option (Pair (p\<lparr>vt_state := VTRECV_STATE_GROUND\<rparr>)) (cb VTRECV_ACTION_CSI_DISPATCH ch u)"
proof -
  have "64 \<le> unat ch" "unat ch \<le> 126"
    using assms(2,3) by (simp_all add: word_le_nat_alt)
  then have "next_change p ch = sc VTRECV_ACTION_CSI_DISPATCH VTRECV_STATE_GROUND"
    using assms(1) by (simp add: next_change_def GET_STATE_TABLE_def table_search_look ranges_def table_def Let_def sc_def)
  then show ?thesis
    using assms(1) by (cases "cb VTRECV_ACTION_CSI_DISPATCH ch u")
      (simp_all add: vtrecv_execute_Cons change_simps del: vtrecv_execute.simps(2))
qed

text \<open>
  C28. The parser understands what the sender writes: fed with the bytes of
  \<open>vtsend_cursor_position\<close>, for any line and column of at most two digits, it calls its client
  exactly once, for the control sequence \<open>H\<close>, with the line and the column as its two
  parameters, and is back in its initial state.
\<close>

theorem vtrecv_vtsend_cursor_position:
  assumes "vt_ok p" "vt_state p = VTRECV_STATE_GROUND" "0 \<le> line" "line < 100" "0 \<le> column" "column < 100"
  shows "\<exists>q. vtrecv_execute cb (vtsend_cursor_position column line) (p, u)
      = map_option (Pair q) (cb VTRECV_ACTION_CSI_DISPATCH 0x48 u) \<and>
    vt_state q = VTRECV_STATE_GROUND \<and> num_params q = 2 \<and> take 2 (vt_params q) = [line, column]"
proof -
  have len: "length (vt_params p) = 16"
    using assms(1) by (simp add: vt_ok_def)
  let ?q = "csi_entry p\<lparr>vt_state := VTRECV_STATE_CSI_PARAM, num_params := 1, vt_params := (vt_params p)[0 := line]\<rparr>"
  let ?r = "?q\<lparr>num_params := 1 + 1, vt_params := (vt_params ?q)[1 := column]\<rparr>"
  have "vtrecv_execute cb (vtsend_cursor_position column line) (p, u) = vtrecv_execute cb [0x48] (?r, u)"
    using csi_begin [OF assms(1,2), of cb _ u] csi_first_digits [of "csi_entry p" line cb _ u]
      csi_next_digits [of ?q 1 column cb _ u] len assms(3-)
    by (simp add: vtsend_cursor_position_def csi_entry_def del: vtrecv_execute.simps)
  also have "\<dots> = map_option (Pair (?r\<lparr>vt_state := VTRECV_STATE_GROUND\<rparr>)) (cb VTRECV_ACTION_CSI_DISPATCH 0x48 u)"
    by (rule csi_final) simp_all
  moreover have "take 2 ((vt_params p)[0 := line, 1 := column]) = [line, column]"
    using len by (cases "vt_params p"; cases "tl (vt_params p)") (auto simp: numeral_2_eq_2)
  ultimately show ?thesis
    by (intro exI [of _ "?r\<lparr>vt_state := VTRECV_STATE_GROUND\<rparr>"]) simp
qed

definition demo_vt :: vtrecv_t where
  "demo_vt = \<lparr>vt_state = VTRECV_STATE_GROUND, intermediate_chars = [0, 0, 0], ignore_flagged = 0,
     vt_params = replicate 16 0, num_params = 0\<rparr>"

lemma demo_vt_ok: "vt_ok demo_vt" "vt_state demo_vt = VTRECV_STATE_GROUND"
  by (simp_all add: demo_vt_def vt_ok_def)

theorem vtrecv_vtsend_cursor_position_witness:
  "\<exists>q. vtrecv_execute (\<lambda>a c u. Some (u @ [(a, c)])) (vtsend_cursor_position 42 7) (demo_vt, [])
      = Some (q, [(VTRECV_ACTION_CSI_DISPATCH, 0x48)]) \<and>
    vt_state q = VTRECV_STATE_GROUND \<and> num_params q = 2 \<and> take 2 (vt_params q) = [7, 42]"
  using vtrecv_vtsend_cursor_position [OF demo_vt_ok, of 7 42 "\<lambda>a c u. Some (u @ [(a, c)])" "[]"] by simp

lemma csi_separators:
  assumes "vt_state p \<in> {VTRECV_STATE_CSI_ENTRY, VTRECV_STATE_CSI_PARAM}" "num_params p + n = 17" "num_params p \<le> 16"
    and "length (vt_params p) = 16"
  shows "vtrecv_execute cb (replicate n 0x3B) (p, u) = None"
  using assms
proof (induction n arbitrary: p)
  case (Suc n)
  have c: "next_change p 0x3B = sc VTRECV_ACTION_PARAM (if vt_state p = VTRECV_STATE_CSI_ENTRY then VTRECV_STATE_CSI_PARAM else 0)"
    using Suc.prems(1) by (auto simp: next_change_def GET_STATE_TABLE_def table_def Let_def sc_def)
  show ?case
  proof (cases "num_params p = 16")
    case True
    then have "do_state_change cb (next_change p 0x3B) 0x3B (p, u) = None"
      using Suc.prems(1,4) by (auto simp: c change_simps vt_param_def arr_set_def)
    then show ?thesis
      by (simp add: vtrecv_execute_Cons del: vtrecv_execute.simps)
  next
    case False
    let ?q = "p\<lparr>num_params := num_params p + 1, vt_params := (vt_params p)[num_params p := 0], vt_state := VTRECV_STATE_CSI_PARAM\<rparr>"
    have "do_state_change cb (next_change p 0x3B) 0x3B (p, u) = Some (?q, u)"
      using Suc.prems(1,3,4) False by (auto simp: c change_simps vt_param_def arr_set_def)
    moreover have "vtrecv_execute cb (replicate n 0x3B) (?q, u) = None"
      using Suc.prems(2-4) False by (intro Suc.IH) simp_all
    ultimately show ?thesis
      by (simp add: vtrecv_execute_Cons del: vtrecv_execute.simps)
  qed
qed simp

text \<open>
  C35. Seventeen parameter separators in one control sequence make the parser write behind its
  array of sixteen parameters.
\<close>

theorem vtrecv_params_overflow:
  assumes "vt_ok p" "vt_state p = VTRECV_STATE_GROUND"
  shows "vtrecv_execute cb ([ESC, 0x5B] @ replicate 17 0x3B) (p, u) = None"
  unfolding csi_begin [OF assms] by (rule csi_separators) (use assms(1) in \<open>simp_all add: csi_entry_def vt_ok_def\<close>)

theorem vtrecv_params_overflow_witness:
  "vtrecv_execute (\<lambda>a c u. Some (u @ [(a, c)])) ([ESC, 0x5B] @ replicate 17 0x3B) (demo_vt, []) = None"
  by (rule vtrecv_params_overflow [OF demo_vt_ok])

end
