(* ===== verification/Nt_Editor.thy ===== *)
theory Nt_Editor
  imports Nt_Libc
begin

text \<open>
  The line editor of NT-Shell, \<open>middleware/ntshell/src/text_editor.c\<close>: a buffer of 64 bytes with
  the length of the text and the position of the cursor. An access outside the buffer has no
  result. The abstract editor is a pair of texts, before and after the cursor; \<open>ed_ok\<close> is the
  invariant and every operation is shown to refine the abstract one.
\<close>

abbreviation (input) "TEXTEDITOR_MAXLEN \<equiv> (64 :: nat)"

record text_editor_t =
  te_buffer :: "u8 list"
  te_pos :: int
  te_len :: int

definition buf_get :: "u8 list \<Rightarrow> int \<Rightarrow> u8 option" where
  "buf_get buf i = (if i < 0 then None else arr_get buf (nat i))"

definition buf_set :: "u8 list \<Rightarrow> int \<Rightarrow> u8 \<Rightarrow> u8 list option" where
  "buf_set buf i c = (if i < 0 then None else arr_set buf (nat i) c)"

section \<open>Operations\<close>

definition text_editor_init :: "text_editor_t \<Rightarrow> text_editor_t option" where
  "text_editor_init p = map_option (\<lambda>b. p\<lparr>te_buffer := b, te_pos := 0, te_len := 0\<rparr>) (buf_set (te_buffer p) 0 0)"

text \<open>The copying loops: downwards when a character is inserted, upwards when one is removed.\<close>

fun copy_down :: "nat \<Rightarrow> int \<Rightarrow> int \<Rightarrow> u8 list \<Rightarrow> u8 list option" where
  "copy_down 0 src des buf = Some buf"
| "copy_down (Suc n) src des buf = do {
     c \<leftarrow> buf_get buf src;
     buf \<leftarrow> buf_set buf des c;
     copy_down n (src - 1) (des - 1) buf
   }"

fun copy_up :: "nat \<Rightarrow> int \<Rightarrow> int \<Rightarrow> u8 list \<Rightarrow> u8 list option" where
  "copy_up 0 src des buf = Some buf"
| "copy_up (Suc n) src des buf = do {
     c \<leftarrow> buf_get buf src;
     buf \<leftarrow> buf_set buf des c;
     copy_up n (src + 1) (des + 1) buf
   }"

definition text_editor_insert :: "text_editor_t \<Rightarrow> u8 \<Rightarrow> (int \<times> text_editor_t) option" where
  "text_editor_insert p c =
     (if te_len p < int TEXTEDITOR_MAXLEN - 1
      then do {
        buf \<leftarrow> copy_down (nat (te_len p - te_pos p + 1)) (te_len p) (te_len p + 1) (te_buffer p);
        buf \<leftarrow> buf_set buf (te_pos p) c;
        buf \<leftarrow> buf_set buf (te_len p + 1) 0;
        Some (1, p\<lparr>te_buffer := buf, te_pos := te_pos p + 1, te_len := te_len p + 1\<rparr>)
      }
      else Some (0, p))"

definition text_editor_backspace :: "text_editor_t \<Rightarrow> (int \<times> text_editor_t) option" where
  "text_editor_backspace p =
     (if 0 < te_pos p
      then do {
        buf \<leftarrow> copy_up (nat (te_len p - te_pos p)) (te_pos p) (te_pos p - 1) (te_buffer p);
        buf \<leftarrow> buf_set buf (te_len p - 1) 0;
        Some (1, p\<lparr>te_buffer := buf, te_pos := te_pos p - 1, te_len := te_len p - 1\<rparr>)
      }
      else Some (0, p))"

definition text_editor_delete :: "text_editor_t \<Rightarrow> (int \<times> text_editor_t) option" where
  "text_editor_delete p =
     (if te_pos p < te_len p
      then do {
        buf \<leftarrow> copy_up (nat (te_len p - te_pos p - 1)) (te_pos p + 1) (te_pos p) (te_buffer p);
        buf \<leftarrow> buf_set buf (te_len p - 1) 0;
        Some (1, p\<lparr>te_buffer := buf, te_len := te_len p - 1\<rparr>)
      }
      else Some (0, p))"

definition text_editor_cursor_get_position :: "text_editor_t \<Rightarrow> int" where
  "text_editor_cursor_get_position p = te_pos p"

definition text_editor_cursor_head :: "text_editor_t \<Rightarrow> int \<times> text_editor_t" where
  "text_editor_cursor_head p = (if 0 < te_pos p then (1, p\<lparr>te_pos := 0\<rparr>) else (0, p))"

definition text_editor_cursor_tail :: "text_editor_t \<Rightarrow> int \<times> text_editor_t" where
  "text_editor_cursor_tail p = (if te_pos p < te_len p then (1, p\<lparr>te_pos := te_len p\<rparr>) else (0, p))"

definition text_editor_cursor_left :: "text_editor_t \<Rightarrow> int \<times> text_editor_t" where
  "text_editor_cursor_left p = (if 0 < te_pos p then (1, p\<lparr>te_pos := te_pos p - 1\<rparr>) else (0, p))"

definition text_editor_cursor_right :: "text_editor_t \<Rightarrow> int \<times> text_editor_t" where
  "text_editor_cursor_right p = (if te_pos p < te_len p then (1, p\<lparr>te_pos := te_pos p + 1\<rparr>) else (0, p))"

text \<open>
  \<open>text_editor_set_text\<close>: the loop goes on until \<open>n - 1\<close> has reached the size of the buffer, and
  the terminator is stored behind what has been copied.
\<close>

fun set_text_loop :: "u8 list \<Rightarrow> u8 list \<Rightarrow> int \<Rightarrow> (u8 list \<times> int) option" where
  "set_text_loop (c # src) (x # des) n =
     (if c = 0 then Some (0 # des, n)
      else if int TEXTEDITOR_MAXLEN \<le> (n + 1) - 1
      then (case des of [] \<Rightarrow> None | y # des \<Rightarrow> Some (c # 0 # des, n + 1))
      else map_option (map_prod (Cons c) id) (set_text_loop src des (n + 1)))"
| "set_text_loop _ _ n = None"

definition text_editor_set_text :: "text_editor_t \<Rightarrow> u8 list \<Rightarrow> (int \<times> text_editor_t) option" where
  "text_editor_set_text p buf =
     map_option (\<lambda>(b, n). (n, p\<lparr>te_buffer := b, te_len := n, te_pos := n\<rparr>)) (set_text_loop buf (te_buffer p) 0)"

fun get_text_loop :: "u8 list \<Rightarrow> u8 list \<Rightarrow> int \<Rightarrow> int \<Rightarrow> (int \<times> u8 list) option" where
  "get_text_loop (c # src) (x # des) n siz =
     (if c = 0 then Some (n, 0 # des)
      else if siz \<le> n + 1
      then (case des of [] \<Rightarrow> None | y # des \<Rightarrow> Some (n + 1, c # 0 # des))
      else map_option (map_prod id (Cons c)) (get_text_loop src des (n + 1) siz))"
| "get_text_loop _ _ n siz = None"

definition text_editor_get_text :: "text_editor_t \<Rightarrow> u8 list \<Rightarrow> int \<Rightarrow> (int \<times> u8 list) option" where
  "text_editor_get_text p buf siz = get_text_loop (te_buffer p) buf 0 siz"

definition text_editor_clear :: "text_editor_t \<Rightarrow> text_editor_t option" where
  "text_editor_clear p = map_option (\<lambda>b. p\<lparr>te_buffer := b, te_pos := 0, te_len := 0\<rparr>) (buf_set (te_buffer p) 0 0)"

section \<open>The copying loops\<close>

lemma copy_down_eq:
  "copy_down (length ys) (int (length xs + length ys) - 1) (int (length xs + length ys)) (xs @ ys @ z # zs)
     = Some (xs @ take 1 (ys @ [z]) @ ys @ zs)"
proof (induction ys arbitrary: z zs rule: rev_induct)
  case (snoc y ys)
  have "copy_down (length (ys @ [y])) (int (length xs + length (ys @ [y])) - 1) (int (length xs + length (ys @ [y])))
      (xs @ (ys @ [y]) @ z # zs)
    = copy_down (length ys) (int (length xs + length ys) - 1) (int (length xs + length ys)) (xs @ ys @ y # (y # zs))"
    by (simp add: buf_get_def buf_set_def arr_get_def arr_set_def nat_add_distrib nth_append list_update_append
        algebra_simps)
  then show ?case
    using snoc by (cases ys) simp_all
qed simp

lemma copy_up_eq:
  "copy_up (length ys) (int (length xs) + 1) (int (length xs)) (xs @ x # ys @ zs) = Some (xs @ ys @ last (x # ys) # zs)"
proof (induction ys arbitrary: xs x)
  case (Cons y ys)
  have "copy_up (length (y # ys)) (int (length xs) + 1) (int (length xs)) (xs @ x # (y # ys) @ zs)
      = copy_up (length ys) (int (length (xs @ [y])) + 1) (int (length (xs @ [y]))) ((xs @ [y]) @ y # ys @ zs)"
    by (simp add: buf_get_def buf_set_def arr_get_def arr_set_def nat_add_distrib nth_append list_update_append
        algebra_simps)
  then show ?case
    using Cons [of "xs @ [y]" y] by simp
qed simp

lemma copy_down_at:
  "n = length ys \<Longrightarrow> src = int (length xs + length ys) - 1 \<Longrightarrow> des = int (length xs + length ys) \<Longrightarrow>
    buf = xs @ ys @ z # zs \<Longrightarrow> copy_down n src des buf = Some (xs @ take 1 (ys @ [z]) @ ys @ zs)"
  by (simp only: copy_down_eq)

lemma copy_up_at:
  "n = length ys \<Longrightarrow> src = int (length xs) + 1 \<Longrightarrow> des = int (length xs) \<Longrightarrow>
    buf = xs @ x # ys @ zs \<Longrightarrow> copy_up n src des buf = Some (xs @ ys @ last (x # ys) # zs)"
  by (simp only: copy_up_eq)

section \<open>The abstract editor\<close>

text \<open>\<open>ed_rep p b a\<close>: the editor holds the text \<open>b @ a\<close> with the cursor behind \<open>b\<close>.\<close>

definition ed_rep :: "text_editor_t \<Rightarrow> u8 list \<Rightarrow> u8 list \<Rightarrow> bool" where
  "ed_rep p b a \<longleftrightarrow>
     (\<exists>rest. te_buffer p = b @ a @ 0 # rest) \<and> length (te_buffer p) = TEXTEDITOR_MAXLEN \<and>
     te_pos p = int (length b) \<and> te_len p = int (length b + length a) \<and> 0 \<notin> set b \<union> set a"

lemma ed_rep_room: "ed_rep p b a \<Longrightarrow> length b + length a < TEXTEDITOR_MAXLEN"
  by (auto simp: ed_rep_def)

lemma ed_rep_string: "ed_rep p b a \<Longrightarrow> c_string (te_buffer p) = b @ a \<and> terminated (te_buffer p)"
  unfolding ed_rep_def using c_string_append_0 [of "b @ a"] by force

lemma ed_rep_unique: "ed_rep p b a \<Longrightarrow> ed_rep p b' a' \<Longrightarrow> b' = b \<and> a' = a"
  by (metis append_eq_append_conv ed_rep_def ed_rep_string of_nat_eq_iff)

lemma text_editor_init_rep:
  "length (te_buffer p) = TEXTEDITOR_MAXLEN \<Longrightarrow> \<exists>q. text_editor_init p = Some q \<and> ed_rep q [] []"
  by (cases "te_buffer p") (auto simp: text_editor_init_def buf_set_def arr_set_def ed_rep_def)

lemma text_editor_clear_rep:
  "length (te_buffer p) = TEXTEDITOR_MAXLEN \<Longrightarrow> \<exists>q. text_editor_clear p = Some q \<and> ed_rep q [] []"
  by (cases "te_buffer p") (auto simp: text_editor_clear_def buf_set_def arr_set_def ed_rep_def)

lemma text_editor_insert_rep:
  assumes rep: "ed_rep p b a" and c: "c \<noteq> 0"
  shows "if length b + length a < TEXTEDITOR_MAXLEN - 1
    then \<exists>q. text_editor_insert p c = Some (1, q) \<and> ed_rep q (b @ [c]) a
    else text_editor_insert p c = Some (0, p)"
proof (cases "length b + length a < TEXTEDITOR_MAXLEN - 1")
  case True
  obtain rest where buf: "te_buffer p = b @ a @ 0 # rest"
    using rep by (auto simp: ed_rep_def)
  obtain z zs where rest: "rest = z # zs"
    using rep True buf by (cases rest) (auto simp: ed_rep_def)
  obtain y where y: "take 1 ((a @ [0]) @ [z]) = [y]"
    by (cases a) auto
  have "copy_down (nat (te_len p - te_pos p + 1)) (te_len p) (te_len p + 1) (te_buffer p)
      = Some (b @ take 1 ((a @ [0]) @ [z]) @ (a @ [0]) @ zs)"
    by (rule copy_down_at) (use rep buf rest in \<open>simp_all add: ed_rep_def\<close>)
  then show ?thesis
    unfolding y using rep c True buf rest
    by (simp add: text_editor_insert_def ed_rep_def buf_set_def arr_set_def nat_add_distrib list_update_append)
next
  case False
  then show ?thesis
    using rep by (simp add: text_editor_insert_def ed_rep_def)
qed

lemma text_editor_backspace_rep:
  "ed_rep p (b @ [x]) a \<Longrightarrow> \<exists>q. text_editor_backspace p = Some (1, q) \<and> ed_rep q b a"
  "ed_rep p [] a \<Longrightarrow> text_editor_backspace p = Some (0, p)"
proof -
  assume rep: "ed_rep p (b @ [x]) a"
  then obtain rest where buf: "te_buffer p = b @ x # a @ 0 # rest"
    by (auto simp: ed_rep_def)
  have "copy_up (nat (te_len p - te_pos p)) (te_pos p) (te_pos p - 1) (te_buffer p)
      = Some (b @ a @ last (x # a) # 0 # rest)"
    by (rule copy_up_at) (use rep buf in \<open>simp_all add: ed_rep_def\<close>)
  then show "\<exists>q. text_editor_backspace p = Some (1, q) \<and> ed_rep q b a"
    using rep buf
    by (simp add: text_editor_backspace_def ed_rep_def buf_set_def arr_set_def nat_add_distrib list_update_append)
qed (simp add: text_editor_backspace_def ed_rep_def)

lemma text_editor_delete_rep:
  "ed_rep p b (x # a) \<Longrightarrow> \<exists>q. text_editor_delete p = Some (1, q) \<and> ed_rep q b a"
  "ed_rep p b [] \<Longrightarrow> text_editor_delete p = Some (0, p)"
proof -
  assume rep: "ed_rep p b (x # a)"
  then obtain rest where buf: "te_buffer p = b @ x # a @ 0 # rest"
    by (auto simp: ed_rep_def)
  have "copy_up (nat (te_len p - te_pos p - 1)) (te_pos p + 1) (te_pos p) (te_buffer p)
      = Some (b @ a @ last (x # a) # 0 # rest)"
    by (rule copy_up_at) (use rep buf in \<open>simp_all add: ed_rep_def\<close>)
  then show "\<exists>q. text_editor_delete p = Some (1, q) \<and> ed_rep q b a"
    using rep buf
    by (simp add: text_editor_delete_def ed_rep_def buf_set_def arr_set_def nat_add_distrib list_update_append)
qed (simp add: text_editor_delete_def ed_rep_def)

lemma text_editor_cursor_rep:
  "ed_rep p (b @ [x]) a \<Longrightarrow> \<exists>q. text_editor_cursor_left p = (1, q) \<and> ed_rep q b (x # a)"
  "ed_rep p [] a \<Longrightarrow> text_editor_cursor_left p = (0, p)"
  "ed_rep p b (x # a) \<Longrightarrow> \<exists>q. text_editor_cursor_right p = (1, q) \<and> ed_rep q (b @ [x]) a"
  "ed_rep p b [] \<Longrightarrow> text_editor_cursor_right p = (0, p)"
  "ed_rep p b a \<Longrightarrow> ed_rep (snd (text_editor_cursor_head p)) [] (b @ a)"
  "ed_rep p b a \<Longrightarrow> ed_rep (snd (text_editor_cursor_tail p)) (b @ a) []"
  by (auto simp: text_editor_cursor_left_def text_editor_cursor_right_def text_editor_cursor_head_def
      text_editor_cursor_tail_def ed_rep_def)

lemma text_editor_cursor_get_position_rep: "ed_rep p b a \<Longrightarrow> text_editor_cursor_get_position p = int (length b)"
  by (simp add: text_editor_cursor_get_position_def ed_rep_def)

lemma set_text_loop_eq:
  "terminated s \<Longrightarrow> length (c_string s) < length d \<Longrightarrow> n + int (length d) \<le> int TEXTEDITOR_MAXLEN \<Longrightarrow>
    set_text_loop s d n = Some (c_string s @ 0 # drop (Suc (length (c_string s))) d, n + int (length (c_string s)))"
proof (induction s d n rule: set_text_loop.induct)
  case (1 c src x des n)
  show ?case
  proof (cases "c = 0")
    case False
    then have "\<not> int TEXTEDITOR_MAXLEN \<le> n + 1 - 1"
      using "1.prems" by auto
    then show ?thesis
      using "1.IH" "1.prems" False by auto
  qed simp
qed auto

lemma set_text_loop_overflow:
  "length d \<le> length (c_string s) \<Longrightarrow> n + int (length d) \<le> int TEXTEDITOR_MAXLEN \<Longrightarrow> set_text_loop s d n = None"
proof (induction s d n rule: set_text_loop.induct)
  case (1 c src x des n)
  then show ?case
    by (cases "c = 0") auto
qed auto

lemma text_editor_set_text_rep:
  assumes "length (te_buffer p) = TEXTEDITOR_MAXLEN" "terminated s" "length (c_string s) < TEXTEDITOR_MAXLEN"
  shows "\<exists>q. text_editor_set_text p s = Some (int (length (c_string s)), q) \<and> ed_rep q (c_string s) []"
  using set_text_loop_eq [of s "te_buffer p" 0] assms by (simp add: text_editor_set_text_def ed_rep_def)

lemma get_text_loop_eq:
  "terminated s \<Longrightarrow> length (c_string s) < length d \<Longrightarrow> n + int (length (c_string s)) \<le> siz \<Longrightarrow>
    get_text_loop s d n siz = Some (n + int (length (c_string s)), c_string s @ 0 # drop (Suc (length (c_string s))) d)"
proof (induction s d n siz rule: get_text_loop.induct)
  case (1 c src x des n siz)
  consider "c = 0" | "c \<noteq> 0" "siz \<le> n + 1" | "c \<noteq> 0" "\<not> siz \<le> n + 1"
    by blast
  then show ?case
  proof cases
    case 2
    then have "n + (1 + int (length (c_string src))) \<le> siz"
      using "1.prems"(3) by simp
    then have "length (c_string src) = 0"
      using 2(2) by linarith
    then show ?thesis
      using 2 "1.prems"(2) by (cases des) auto
  qed (use 1 in auto)
qed auto

lemma text_editor_get_text_rep:
  assumes "ed_rep p b a" "length d = TEXTEDITOR_MAXLEN"
  shows "text_editor_get_text p d (int TEXTEDITOR_MAXLEN) =
    Some (int (length b + length a), b @ a @ 0 # drop (Suc (length b + length a)) d)"
  using get_text_loop_eq [of "te_buffer p" d 0 "int TEXTEDITOR_MAXLEN"] ed_rep_string [OF assms(1)] ed_rep_room [OF assms(1)] assms(2)
  by (simp add: text_editor_get_text_def)

section \<open>Sequences of commands\<close>

text \<open>The commands of the editor, and what they do to the text before and after the cursor.\<close>

datatype edit = Insert u8 | Backspace | Delete | Left | Right | Head | Tail

fun edit_abs :: "nat \<Rightarrow> edit \<Rightarrow> u8 list \<times> u8 list \<Rightarrow> u8 list \<times> u8 list" where
  "edit_abs cap (Insert c) (b, a) = (if length b + length a < cap then (b @ [c], a) else (b, a))"
| "edit_abs cap Backspace (b, a) = (butlast b, a)"
| "edit_abs cap Delete (b, a) = (b, tl a)"
| "edit_abs cap Left (b, a) = (if b = [] then (b, a) else (butlast b, last b # a))"
| "edit_abs cap Right (b, a) = (case a of [] \<Rightarrow> (b, a) | x # a \<Rightarrow> (b @ [x], a))"
| "edit_abs cap Head (b, a) = ([], b @ a)"
| "edit_abs cap Tail (b, a) = (b @ a, [])"

fun commands :: "('c \<Rightarrow> 'e \<Rightarrow> 'e option) \<Rightarrow> 'c list \<Rightarrow> 'e \<Rightarrow> 'e option" where
  "commands f [] p = Some p"
| "commands f (e # es) p = f e p \<bind> commands f es"

text \<open>What a line editor promises its client, and what a client can do with it.\<close>

locale line_editor =
  fixes rep :: "'e \<Rightarrow> u8 list \<Rightarrow> u8 list \<Rightarrow> bool"
    and cap :: nat
    and command :: "edit \<Rightarrow> 'e \<Rightarrow> 'e option"
  assumes command_rep:
    "rep p b a \<Longrightarrow> e \<noteq> Insert 0 \<Longrightarrow>
      \<exists>q. command e p = Some q \<and> rep q (fst (edit_abs cap e (b, a))) (snd (edit_abs cap e (b, a)))"
begin

lemma commands_rep:
  assumes "rep p b a" "Insert 0 \<notin> set es"
  shows "\<exists>q. commands command es p = Some q \<and>
    rep q (fst (fold (edit_abs cap) es (b, a))) (snd (fold (edit_abs cap) es (b, a)))"
  using assms
proof (induction es arbitrary: p b a)
  case (Cons e es)
  obtain q where q: "command e p = Some q" "rep q (fst (edit_abs cap e (b, a))) (snd (edit_abs cap e (b, a)))"
    using command_rep [OF Cons.prems(1), of e] Cons.prems(2) by auto
  then show ?case
    using Cons.IH [OF q(2)] Cons.prems(2) by simp
qed simp

end

fun ed_command :: "edit \<Rightarrow> text_editor_t \<Rightarrow> text_editor_t option" where
  "ed_command (Insert c) p = map_option snd (text_editor_insert p c)"
| "ed_command Backspace p = map_option snd (text_editor_backspace p)"
| "ed_command Delete p = map_option snd (text_editor_delete p)"
| "ed_command Left p = Some (snd (text_editor_cursor_left p))"
| "ed_command Right p = Some (snd (text_editor_cursor_right p))"
| "ed_command Head p = Some (snd (text_editor_cursor_head p))"
| "ed_command Tail p = Some (snd (text_editor_cursor_tail p))"

lemma ed_command_rep:
  assumes rep: "ed_rep p b a" and e: "e \<noteq> Insert 0"
  shows "\<exists>q. ed_command e p = Some q \<and>
    ed_rep q (fst (edit_abs (TEXTEDITOR_MAXLEN - 1) e (b, a))) (snd (edit_abs (TEXTEDITOR_MAXLEN - 1) e (b, a)))"
proof (cases e)
  case (Insert c)
  then show ?thesis
    using text_editor_insert_rep [OF rep, of c] e rep by (auto split: if_splits)
next
  case Backspace
  then show ?thesis
    using rep text_editor_backspace_rep by (cases b rule: rev_cases) fastforce+
next
  case Delete
  then show ?thesis
    using rep text_editor_delete_rep by (cases a) fastforce+
next
  case Left
  then show ?thesis
    using rep text_editor_cursor_rep(1,2) by (cases b rule: rev_cases) fastforce+
next
  case Right
  then show ?thesis
    using rep text_editor_cursor_rep(3,4) by (cases a) fastforce+
qed (use rep text_editor_cursor_rep(5,6) in auto)

interpretation ed: line_editor ed_rep "TEXTEDITOR_MAXLEN - 1" ed_command
  by unfold_locales (rule ed_command_rep)

text \<open>
  C25. The line editor refines the abstract one: after any sequence of editing commands, with any
  non-zero characters, the buffer has been accessed within its bounds only and holds the text
  and the cursor that the commands produce on a pair of lists of together at most 63 characters,
  and \<open>text_editor_get_text\<close> returns that text.
\<close>

theorem text_editor_refines:
  assumes "length (te_buffer p) = TEXTEDITOR_MAXLEN" "Insert 0 \<notin> set es" "length d = TEXTEDITOR_MAXLEN"
    and "(b, a) = fold (edit_abs (TEXTEDITOR_MAXLEN - 1)) es ([], [])"
  shows "\<exists>q r n t. text_editor_init p = Some q \<and> commands ed_command es q = Some r \<and>
    text_editor_cursor_get_position r = int (length b) \<and>
    text_editor_get_text r d (int TEXTEDITOR_MAXLEN) = Some (n, t) \<and> n = int (length (b @ a)) \<and> c_string t = b @ a"
proof -
  obtain q where q: "text_editor_init p = Some q" "ed_rep q [] []"
    using text_editor_init_rep [OF assms(1)] by blast
  obtain r where r: "commands ed_command es q = Some r" "ed_rep r b a"
    using ed.commands_rep [OF q(2) assms(2)] assms(4) by (metis fst_conv snd_conv)
  show ?thesis
    using q(1) r text_editor_get_text_rep [OF r(2) assms(3)] text_editor_cursor_get_position_rep [OF r(2)]
      c_string_append_0 [of "b @ a"] by (auto simp: ed_rep_def)
qed

theorem text_editor_refines_witness:
  "\<exists>q r n t. text_editor_init \<lparr>te_buffer = replicate 64 7, te_pos = 9, te_len = 9\<rparr> = Some q \<and>
    commands ed_command [Insert 0x61, Insert 0x62, Left, Insert 0x63, Left, Backspace] q = Some r \<and>
    text_editor_cursor_get_position r = 0 \<and>
    text_editor_get_text r (replicate 64 0) 64 = Some (n, t) \<and> n = 2 \<and> c_string t = [0x63, 0x62]"
  using text_editor_refines [of "\<lparr>te_buffer = replicate 64 7, te_pos = 9, te_len = 9\<rparr>"
      "[Insert 0x61, Insert 0x62, Left, Insert 0x63, Left, Backspace]" "replicate 64 0" "[]" "[0x63, 0x62]"]
  by simp

text \<open>
  C36. A text of 64 or more characters makes \<open>text_editor_set_text\<close> write behind the buffer: the
  test that ends its loop comes one character too late, and the terminator is stored after it.
\<close>

theorem text_editor_set_text_overflow:
  assumes "length (te_buffer p) = TEXTEDITOR_MAXLEN" "TEXTEDITOR_MAXLEN \<le> length (c_string s)"
  shows "text_editor_set_text p s = None"
  using set_text_loop_overflow [of "te_buffer p" s 0] assms by (simp add: text_editor_set_text_def)

theorem text_editor_set_text_overflow_witness:
  "text_editor_set_text \<lparr>te_buffer = replicate 64 0, te_pos = 0, te_len = 0\<rparr> (replicate 64 0x61 @ [0]) = None"
  using text_editor_set_text_overflow [of "\<lparr>te_buffer = replicate 64 0, te_pos = 0, te_len = 0\<rparr>"
      "replicate 64 0x61 @ [0]"] by (simp add: c_string_def takeWhile_append)

end
