(* ===== verification/Nt_History.thy ===== *)
theory Nt_History
  imports Nt_Editor
begin

text \<open>
  The history of command lines, \<open>middleware/ntshell/src/text_history.c\<close>: eight rows of 64 bytes in
  one array, with a place to read at and a place to write at. The rows are reached by pointer
  arithmetic, so a line that is too long runs into the next row.
\<close>

abbreviation (input) "TEXTHISTORY_MAXLEN \<equiv> (64 :: nat)"
abbreviation (input) "TEXTHISTORY_DEPTH \<equiv> (8 :: nat)"

record text_history_t =
  th_history :: "u8 list"
  th_rp :: nat
  th_wp :: nat

section \<open>Operations\<close>

text \<open>The pointer to a row: the bytes from its start to the end of the array.\<close>

definition th_at :: "text_history_t \<Rightarrow> nat \<Rightarrow> u8 list" where
  "th_at p i = drop (TEXTHISTORY_MAXLEN * i) (th_history p)"

definition text_history_init :: "text_history_t \<Rightarrow> text_history_t" where
  "text_history_init p = p\<lparr>th_rp := 0, th_wp := 0, th_history := replicate (TEXTHISTORY_MAXLEN * TEXTHISTORY_DEPTH) 0\<rparr>"

text \<open>The copying loop of \<open>text_history_write\<close> is the one of \<open>ntlibc_strcpy\<close>.\<close>

definition text_history_write :: "text_history_t \<Rightarrow> u8 list \<Rightarrow> (int \<times> text_history_t) option" where
  "text_history_write p buf = do {
     c \<leftarrow> arr_get buf 0;
     (if c = 0 then Some (0, p)
      else do {
        row \<leftarrow> ntlibc_strcpy (th_at p (th_wp p)) buf;
        let wp = (th_wp p + 1) mod TEXTHISTORY_DEPTH in
        Some (1, p\<lparr>th_history := take (TEXTHISTORY_MAXLEN * th_wp p) (th_history p) @ row,
                  th_wp := wp, th_rp := wp\<rparr>)
      })
   }"

text \<open>The loop of \<open>text_history_read\<close> is the one of \<open>text_editor_get_text\<close> with a limit of \<open>siz - 1\<close>.\<close>

definition text_history_read :: "text_history_t \<Rightarrow> u8 list \<Rightarrow> int \<Rightarrow> (int \<times> u8 list) option" where
  "text_history_read p buf siz = get_text_loop (th_at p (th_rp p)) buf 0 (siz - 1)"

definition text_history_read_point_next :: "text_history_t \<Rightarrow> int \<times> text_history_t" where
  "text_history_read_point_next p =
     (let n = (th_rp p + 1) mod TEXTHISTORY_DEPTH in
      if n \<noteq> th_wp p then (1, p\<lparr>th_rp := n\<rparr>) else (0, p))"

definition text_history_read_point_prev :: "text_history_t \<Rightarrow> (int \<times> text_history_t) option" where
  "text_history_read_point_prev p =
     (let n = (if th_rp p = 0 then TEXTHISTORY_DEPTH - 1 else th_rp p - 1) in
      if n \<noteq> th_wp p
      then do {
        c \<leftarrow> arr_get (th_at p n) 0;
        Some (if c \<noteq> 0 then (1, p\<lparr>th_rp := n\<rparr>) else (0, p))
      }
      else Some (0, p))"

text \<open>The loop of \<open>text_history_find\<close>, over the rows still to be looked at.\<close>

fun find_loop :: "text_history_t \<Rightarrow> nat list \<Rightarrow> int \<Rightarrow> int \<Rightarrow> u8 list \<Rightarrow> nat \<Rightarrow> u8 list \<Rightarrow> int \<Rightarrow>
    (int \<times> u8 list) option" where
  "find_loop p [] found index txt text_len buf siz = Some (-1, buf)"
| "find_loop p (i # is) found index txt text_len buf siz = do {
     let target = (th_rp p + i) mod TEXTHISTORY_DEPTH;
     let txtp = th_at p target;
     target_len \<leftarrow> ntlibc_strlen txtp;
     let comp_len = (if target_len < text_len then target_len else text_len);
     r \<leftarrow> ntlibc_strncmp txtp txt (int comp_len);
     (if r = 0 \<and> comp_len > 0
      then if found = index
           then do {
             n \<leftarrow> ntlibc_strlen txtp;
             (if siz \<le> int n then Some (-1, buf)
              else map_option (\<lambda>buf. (0, buf)) (ntlibc_strcpy buf txtp))
           }
           else find_loop p is (found + 1) index txt text_len buf siz
      else find_loop p is found index txt text_len buf siz)
   }"

definition text_history_find :: "text_history_t \<Rightarrow> int \<Rightarrow> u8 list \<Rightarrow> u8 list \<Rightarrow> int \<Rightarrow> (int \<times> u8 list) option" where
  "text_history_find p index txt buf siz = do {
     text_len \<leftarrow> ntlibc_strlen txt;
     find_loop p [0..<TEXTHISTORY_DEPTH] 0 index txt text_len buf siz
   }"

section \<open>Rows\<close>

definition th_row :: "text_history_t \<Rightarrow> nat \<Rightarrow> u8 list" where
  "th_row p i = take TEXTHISTORY_MAXLEN (th_at p i)"

definition th_line :: "text_history_t \<Rightarrow> nat \<Rightarrow> u8 list" where
  "th_line p i = c_string (th_at p i)"

text \<open>Every row is terminated within its 64 bytes, and the two places are in range.\<close>

definition th_ok :: "text_history_t \<Rightarrow> bool" where
  "th_ok p \<longleftrightarrow> length (th_history p) = TEXTHISTORY_MAXLEN * TEXTHISTORY_DEPTH \<and>
     th_rp p < TEXTHISTORY_DEPTH \<and> th_wp p < TEXTHISTORY_DEPTH \<and>
     (\<forall>i < TEXTHISTORY_DEPTH. terminated (th_row p i))"

lemma th_line_row:
  assumes "terminated (th_row p i)"
  shows "th_line p i = c_string (th_row p i)" "terminated (th_at p i)" "length (th_line p i) < TEXTHISTORY_MAXLEN"
proof -
  have *: "c_string s = c_string (take n s)" if "terminated (take n s)" for s n
    using that
  proof (induction s arbitrary: n)
    case (Cons c s)
    then show ?case by (cases n) (auto simp: c_string_Cons)
  qed simp
  show l: "th_line p i = c_string (th_row p i)"
    using * assms by (simp add: th_line_def th_row_def)
  show "terminated (th_at p i)"
    using assms by (auto simp: th_row_def dest: in_set_takeD)
  show "length (th_line p i) < TEXTHISTORY_MAXLEN"
    using c_string_length_less [OF assms] by (simp add: l th_row_def)
qed

lemma th_row_nth:
  "length (th_history p) = 512 \<Longrightarrow> i < TEXTHISTORY_DEPTH \<Longrightarrow>
    length (th_row p i) = TEXTHISTORY_MAXLEN \<and> (\<forall>j < TEXTHISTORY_MAXLEN. th_row p i ! j = th_history p ! (TEXTHISTORY_MAXLEN * i + j))"
  by (simp add: th_row_def th_at_def)

lemma th_ok_lengths: "th_ok p \<Longrightarrow> length (th_history p) = 512 \<and> th_rp p < 8 \<and> th_wp p < 8"
  by (simp add: th_ok_def)

lemma th_ok_row: "th_ok p \<Longrightarrow> i < 8 \<Longrightarrow> terminated (th_row p i)"
  by (simp add: th_ok_def)

lemma th_init_ok: "th_ok (text_history_init p)" "i < 8 \<Longrightarrow> th_line (text_history_init p) i = []"
  by (auto simp: text_history_init_def th_ok_def th_line_def th_row_def th_at_def c_string_def takeWhile_eq_Nil_iff
      hd_conv_nth)

text \<open>Storing a line of at most 63 characters changes its row only.\<close>

lemma text_history_write_rows:
  assumes ok: "th_ok p" and s: "terminated s" "length (c_string s) < TEXTHISTORY_MAXLEN" "c_string s \<noteq> []"
  obtains q where "text_history_write p s = Some (1, q)" "th_ok q"
    "th_wp q = (th_wp p + 1) mod 8" "th_rp q = th_wp q"
    "\<And>i. i < 8 \<Longrightarrow> th_line q i = (if i = th_wp p then c_string s else th_line p i)"
proof -
  let ?t = "c_string s" and ?w = "th_wp p" and ?h = "th_history p"
  have lens: "length ?h = 512" "?w < 8" "th_rp p < 8"
    using th_ok_lengths [OF ok] by simp_all
  have c: "s \<noteq> []" "s ! 0 \<noteq> 0"
    using s(3) by (cases s; auto simp: c_string_Cons)+
  have row: "ntlibc_strcpy (th_at p ?w) s = Some (?t @ 0 # drop (Suc (length ?t)) (th_at p ?w))"
    by (rule ntlibc_strcpy_eq) (use s lens in \<open>simp_all add: th_at_def\<close>)
  let ?g = "take (64 * ?w) ?h @ ?t @ 0 # drop (Suc (length ?t)) (th_at p ?w)"
  let ?q = "p\<lparr>th_history := ?g, th_wp := (?w + 1) mod 8, th_rp := (?w + 1) mod 8\<rparr>"
  have len: "length ?g = 512"
    using lens s(2) by (simp add: th_at_def)
  have at_w: "th_at ?q ?w = ?t @ 0 # drop (Suc (length ?t)) (th_at p ?w)"
    using lens by (simp add: th_at_def)
  have other: "th_row ?q i = th_row p i" if "i < 8" "i \<noteq> ?w" for i
  proof (rule nth_equalityI)
    fix j assume "j < length (th_row ?q i)"
    then have j: "j < 64"
      using th_row_nth [of ?q i] len that by simp
    have "?g ! (64 * i + j) = ?h ! (64 * i + j)"
    proof (cases "i < ?w")
      case True
      then show ?thesis
        using j lens by (simp add: nth_append)
    next
      case False
      then have "64 * ?w + 64 \<le> 64 * i + j"
        using that(2) by linarith
      then have "64 * ?w + Suc (length ?t) \<le> 64 * i + j"
        using s(2) by linarith
      then obtain k where k: "64 * i + j = 64 * ?w + Suc (length ?t) + k"
        using le_iff_add by blast
      have "k < length (drop (64 * ?w + Suc (length ?t)) ?h)"
        using k that(1) j lens by simp
      then show ?thesis
        unfolding k using lens by (simp add: nth_append th_at_def ac_simps)
    qed
    then show "th_row ?q i ! j = th_row p i ! j"
      using th_row_nth [of ?q i] th_row_nth [of p i] len lens that j by simp
  qed (use th_row_nth [of ?q i] th_row_nth [of p i] len lens that in simp)
  have row_w: "terminated (th_row ?q ?w)"
    unfolding th_row_def at_w using s(2) by (simp add: take_Cons')
  then have ok': "th_ok ?q"
    using len other th_ok_row [OF ok] unfolding th_ok_def by (simp, metis)
  show ?thesis
  proof (rule that [of ?q])
    show "text_history_write p s = Some (1, ?q)"
      using c row by (simp add: text_history_write_def arr_get_def Let_def)
    show "th_line ?q i = (if i = ?w then ?t else th_line p i)" if "i < 8" for i
    proof (cases "i = ?w")
      case True
      then show ?thesis
        unfolding th_line_def True at_w by simp
    next
      case False
      then show ?thesis
        using th_line_row(1) [OF th_ok_row [OF ok' that]] th_line_row(1) [OF th_ok_row [OF ok that]] other [OF that False]
        by (simp only: False if_False)
    qed
  qed (use ok' in simp_all)
qed

section \<open>Going back through the history\<close>

fun write_all :: "u8 list list \<Rightarrow> text_history_t \<Rightarrow> text_history_t option" where
  "write_all [] p = Some p"
| "write_all (l # ls) p = map_option snd (text_history_write p (l @ [0])) \<bind> write_all ls"

fun prev_all :: "nat \<Rightarrow> text_history_t \<Rightarrow> (int \<times> text_history_t) option" where
  "prev_all 0 p = Some (1, p)"
| "prev_all (Suc k) p = prev_all k p \<bind> (\<lambda>(r, p). if r = 1 then text_history_read_point_prev p else Some (0, p))"

text \<open>The history holds the last eight of the lines, the newest before the place to write at.\<close>

definition holds :: "text_history_t \<Rightarrow> u8 list list \<Rightarrow> bool" where
  "holds p ls \<longleftrightarrow> th_ok p \<and> th_wp p = length ls mod 8 \<and> th_rp p = th_wp p \<and>
     (\<forall>i < length ls. length ls \<le> i + 8 \<longrightarrow> th_line p (i mod 8) = ls ! i) \<and>
     (\<forall>i < 8. length ls \<le> i \<longrightarrow> th_line p i = [])"

lemma holds_init: "holds (text_history_init p) []"
  using th_init_ok by (simp add: holds_def text_history_init_def)

lemma mod8_differs: "0 < d \<Longrightarrow> d < 8 \<Longrightarrow> (m + d) mod 8 \<noteq> m mod (8 :: nat)"
  using mod_eq_dvd_iff_nat [of m "m + d" 8] by (auto dest: dvd_imp_le)

lemma holds_write:
  assumes "holds p ls" "l \<noteq> []" "length l < 64" "0 \<notin> set l"
  obtains q where "text_history_write p (l @ [0]) = Some (1, q)" "holds q (ls @ [l])"
proof -
  have l: "c_string (l @ [0]) = l"
    using assms(4) by simp
  obtain q where q: "text_history_write p (l @ [0]) = Some (1, q)" "th_ok q"
      "th_wp q = (th_wp p + 1) mod 8" "th_rp q = th_wp q"
      "\<And>i. i < 8 \<Longrightarrow> th_line q i = (if i = th_wp p then l else th_line p i)"
    by (rule text_history_write_rows [of p "l @ [0]"]) (use assms l in \<open>auto simp: holds_def\<close>)
  have wp: "th_wp p = length ls mod 8"
    using assms(1) by (simp add: holds_def)
  have "th_line q (i mod 8) = (ls @ [l]) ! i" if "i < Suc (length ls)" "length ls + 1 \<le> i + 8" for i
  proof (cases "i = length ls")
    case False
    then have "(i + (length ls - i)) mod 8 \<noteq> i mod 8"
      using that by (intro mod8_differs) simp_all
    then have "i mod 8 \<noteq> length ls mod 8"
      using that(1) by simp
    then show ?thesis
      using q(5) [of "i mod 8"] wp assms(1) False that by (simp add: holds_def nth_append)
  qed (use q(5) wp in simp)
  moreover have "th_line q i = []" if "i < 8" "Suc (length ls) \<le> i" for i
    using q(5) [of i] that wp assms(1) by (simp add: holds_def)
  ultimately show ?thesis
    using that [OF q(1)] q(2-4) wp by (simp add: holds_def mod_Suc_eq)
qed

lemma holds_write_all:
  assumes "holds p ls" "\<And>l. l \<in> set ms \<Longrightarrow> l \<noteq> [] \<and> length l < 64 \<and> 0 \<notin> set l"
  shows "\<exists>q. write_all ms p = Some q \<and> holds q (ls @ ms)"
  using assms
proof (induction ms arbitrary: p ls)
  case (Cons m ms)
  obtain q where "text_history_write p (m @ [0]) = Some (1, q)" "holds q (ls @ [m])"
    by (rule holds_write [OF Cons.prems(1), of m]) (use Cons.prems(2) in auto)
  then show ?case
    using Cons.IH [of q "ls @ [m]"] Cons.prems(2) by simp
qed simp

lemma read_point_prev_moves:
  assumes "n = (if th_rp q = 0 then TEXTHISTORY_DEPTH - 1 else th_rp q - 1)" "n \<noteq> th_wp q" "th_line q n \<noteq> []"
  shows "text_history_read_point_prev q = Some (1, q\<lparr>th_rp := n\<rparr>)"
  unfolding text_history_read_point_prev_def assms(1) [symmetric]
  using assms(2,3) by (cases "th_at q n") (auto simp: Let_def arr_get_def th_line_def c_string_Cons split: if_splits)

lemma read_point_prev_stops:
  assumes "n = (if th_rp q = 0 then TEXTHISTORY_DEPTH - 1 else th_rp q - 1)" "th_at q n \<noteq> []" "n = th_wp q \<or> th_line q n = []"
  shows "text_history_read_point_prev q = Some (0, q)"
  unfolding text_history_read_point_prev_def assms(1) [symmetric]
  using assms(2,3) by (cases "th_at q n") (auto simp: Let_def arr_get_def th_line_def c_string_Cons split: if_splits)

lemma prev_all_holds:
  assumes "holds p ls" "[] \<notin> set ls" "k \<le> length ls" "k < 8"
  shows "prev_all k p = Some (1, p\<lparr>th_rp := (length ls - k) mod 8\<rparr>)"
  using assms(3,4)
proof (induction k)
  case 0
  then show ?case
    using assms(1) by (simp add: holds_def)
next
  case (Suc k)
  obtain m where m: "length ls = Suc k + m"
    using Suc.prems(1) le_Suc_ex by blast
  let ?p = "p\<lparr>th_rp := Suc m mod 8\<rparr>"
  have "text_history_read_point_prev ?p = Some (1, ?p\<lparr>th_rp := m mod 8\<rparr>)"
  proof (rule read_point_prev_moves)
    show "m mod 8 = (if th_rp ?p = 0 then TEXTHISTORY_DEPTH - 1 else th_rp ?p - 1)"
      by (simp add: mod_Suc)
    have "m mod 8 \<noteq> (Suc k + m) mod 8"
      using mod8_differs [of "Suc k" m] Suc.prems(2) by (simp add: add.commute)
    then show "m mod 8 \<noteq> th_wp ?p"
      using assms(1) m by (simp add: holds_def)
    have "th_line p (m mod 8) = ls ! m"
      using assms(1) Suc.prems m by (simp add: holds_def)
    moreover have "ls ! m \<noteq> []"
      using assms(2) m by (metis less_add_Suc2 add_Suc nth_mem)
    ultimately show "th_line ?p (m mod 8) \<noteq> []"
      by (simp add: th_line_def th_at_def)
  qed
  then show ?case
    using Suc m by simp
qed

text \<open>
  C26. The history gives back the last lines in reverse order: after any number of non-empty lines
  of at most 63 characters has been entered, stepping back \<open>k \<le> 7\<close> times reads exactly the
  \<open>k\<close>-th line from the end, and a step beyond the seventh or the first line is refused.
\<close>

theorem text_history_recalls:
  assumes ls: "\<And>l. l \<in> set ls \<Longrightarrow> l \<noteq> [] \<and> length l < TEXTHISTORY_MAXLEN \<and> 0 \<notin> set l"
    and k: "0 < k" "k \<le> length ls" "k < TEXTHISTORY_DEPTH" and d: "length d = TEXTHISTORY_MAXLEN"
  shows "\<exists>q r t. write_all ls (text_history_init p) = Some q \<and> prev_all k q = Some (1, r) \<and>
    text_history_read r d (int TEXTHISTORY_MAXLEN) = Some (int (length (ls ! (length ls - k))), t) \<and>
    c_string t = ls ! (length ls - k) \<and>
    (k = length ls \<or> k = TEXTHISTORY_DEPTH - 1 \<longrightarrow> text_history_read_point_prev r = Some (0, r))"
proof -
  obtain q where q: "write_all ls (text_history_init p) = Some q" "holds q ls"
    using holds_write_all [OF holds_init, of ls p] ls by auto
  obtain m where m: "length ls = k + m"
    using k(2) le_Suc_ex by blast
  let ?r = "q\<lparr>th_rp := m mod 8\<rparr>"
  have prev: "prev_all k q = Some (1, ?r)"
    using prev_all_holds [OF q(2) _ k(2,3)] ls m by auto
  have ok: "th_ok q" and line: "th_line q (m mod 8) = ls ! m" and wp: "th_wp q = length ls mod 8"
    using q(2) k m by (simp_all add: holds_def)
  have str: "terminated (th_at q (m mod 8))" "c_string (th_at q (m mod 8)) = ls ! m"
    using th_line_row(2) [OF th_ok_row [OF ok, of "m mod 8"]] line by (simp_all add: th_line_def)
  have "text_history_read ?r d 64 = Some (int (length (ls ! m)), ls ! m @ 0 # drop (Suc (length (ls ! m))) d)"
    using get_text_loop_eq [of "th_at q (m mod 8)" d 0 63] str ls [of "ls ! m"] k m d
    by (simp add: text_history_read_def th_at_def)
  moreover have "text_history_read_point_prev ?r = Some (0, ?r)" if "m = 0 \<or> k = 7"
  proof (rule read_point_prev_stops)
    let ?n = "(m + 7) mod 8"
    show n: "?n = (if th_rp ?r = 0 then TEXTHISTORY_DEPTH - 1 else th_rp ?r - 1)"
      by (cases "m mod 8") (simp_all add: mod_add_left_eq [of m 8 7, symmetric])
    show "th_at ?r ?n \<noteq> []"
      using th_ok_lengths [OF ok] by (simp add: th_at_def)
    have "th_line q 7 = []" if "m = 0"
      using q(2) m k(3) that by (simp add: holds_def)
    then show "?n = th_wp ?r \<or> th_line ?r ?n = []"
      using that m wp by (auto simp: th_line_def th_at_def add.commute)
  qed
  moreover have "c_string (ls ! m @ 0 # drop (Suc (length (ls ! m))) d) = ls ! m"
    using ls [of "ls ! m"] k m by simp
  ultimately show ?thesis
    using q(1) prev m by auto
qed

theorem text_history_recalls_witness:
  "\<exists>q r t. write_all [[0x61], [0x62, 0x63]] (text_history_init \<lparr>th_history = [], th_rp = 5, th_wp = 5\<rparr>) = Some q \<and>
    prev_all 2 q = Some (1, r) \<and> text_history_read r (replicate 64 0) 64 = Some (1, t) \<and> c_string t = [0x61] \<and>
    text_history_read_point_prev r = Some (0, r)"
proof -
  have "l \<noteq> [] \<and> length l < TEXTHISTORY_MAXLEN \<and> 0 \<notin> set l" if "l \<in> set [[0x61], [0x62, 0x63]]" for l :: "u8 list"
    using that by auto
  then have "\<And>l :: u8 list. l \<in> set [[0x61], [0x62, 0x63]] \<Longrightarrow> l \<noteq> [] \<and> length l < TEXTHISTORY_MAXLEN \<and> 0 \<notin> set l"
    by blast
  from text_history_recalls [of "[[0x61], [0x62, 0x63]]" 2 "replicate 64 0" "\<lparr>th_history = [], th_rp = 5, th_wp = 5\<rparr>",
      OF this] show ?thesis
    by simp
qed

end
