(* ===== verification/Nt_Opt.thy ===== *)
theory Nt_Opt
  imports Nt_Libc
begin

text \<open>
  Splitting a command line into arguments, \<open>middleware/ntshell/src/ntopt.c\<close>. The specification
  is \<open>words\<close>, the list of the maximal blank-free pieces of the line.
\<close>

abbreviation (input) "NTOPT_TEXT_MAXLEN \<equiv> (64 :: nat)"
abbreviation (input) "NTOPT_TEXT_MAXARGS \<equiv> (32 :: nat)"

section \<open>The functions\<close>

definition IS_DELIM :: "u8 \<Rightarrow> bool" where
  "IS_DELIM c \<longleftrightarrow> c = 0x0D \<or> c = 0x0A \<or> c = 0x09 \<or> c = 0 \<or> c = 0x20"

fun get_count_loop :: "u8 list \<Rightarrow> nat \<Rightarrow> nat \<Rightarrow> nat option" where
  "get_count_loop [] cnt wc = None"
| "get_count_loop (c # p) cnt wc =
     (if c = 0 then Some cnt
      else if \<not> IS_DELIM c then get_count_loop p (if wc + 1 = 1 then cnt + 1 else cnt) (wc + 1)
      else get_count_loop p cnt 0)"

definition ntopt_get_count :: "u8 list \<Rightarrow> nat option" where
  "ntopt_get_count str = get_count_loop str 0 0"

text \<open>The outer loop of \<open>ntopt_get_text\<close>: where the text starts, nowhere when there are too few.\<close>

fun find_text :: "u8 list \<Rightarrow> nat \<Rightarrow> nat \<Rightarrow> nat \<Rightarrow> u8 list option option" where
  "find_text [] cnt wc n = None"
| "find_text (c # p) cnt wc n =
     (if c = 0 then Some None
      else if \<not> IS_DELIM c
      then if wc + 1 = 1
           then if cnt = n then Some (Some (c # p)) else find_text p (cnt + 1) (wc + 1) n
           else find_text p cnt (wc + 1) n
      else find_text p cnt 0 n)"

text \<open>Its inner loop: the bytes stored from \<open>des\<close> on, and the count \<open>cc\<close>.\<close>

fun copy_text :: "u8 list \<Rightarrow> u8 list \<Rightarrow> int \<Rightarrow> int \<Rightarrow> (u8 list \<times> int) option" where
  "copy_text (c # p) (x # des) cc siz =
     (if IS_DELIM c then Some (0 # des, cc)
      else if siz \<le> cc + 1 then Some (0 # des, cc + 1)
      else map_option (map_prod (Cons c) id) (copy_text p des (cc + 1) siz))"
| "copy_text _ _ cc siz = None"

text \<open>The result: whether the text exists, the bytes from \<open>buf\<close> on, and \<open>*len\<close>.\<close>

definition ntopt_get_text :: "u8 list \<Rightarrow> nat \<Rightarrow> u8 list \<Rightarrow> int \<Rightarrow> (bool \<times> u8 list \<times> int) option" where
  "ntopt_get_text str n buf siz = do {
     p \<leftarrow> find_text str 0 0 n;
     (case p of
        None \<Rightarrow> Some (False, buf, 0)
      | Some p \<Rightarrow> map_option (\<lambda>(buf, len). (True, buf, len)) (copy_text p buf 0 siz))
   }"

text \<open>
  The loop of \<open>ntopt_parse\<close>. A pointer into \<open>argv\<close> is its index, \<open>None\<close> the null pointer; \<open>p\<close>
  (\<open>total\<close> in the code is \<open>used\<close> here) is always \<open>&argv[used]\<close>. The list of pointers ends where the loop does: what \<open>argvp\<close> holds
  beyond is not initialised.
\<close>

fun parse_loop :: "u8 list \<Rightarrow> nat \<Rightarrow> nat \<Rightarrow> nat \<Rightarrow> u8 list \<Rightarrow> (nat option list \<times> u8 list) option" where
  "parse_loop str 0 i used argv = Some ([], argv)"
| "parse_loop str (Suc k) i used argv = do {
     (found, dst, len) \<leftarrow> ntopt_get_text str i (drop used argv) (int NTOPT_TEXT_MAXLEN - int used);
     let argv = take used argv @ dst; ptr = (if found then Some used else None) in
     if used + nat len + 1 < NTOPT_TEXT_MAXLEN
     then map_option (map_prod (Cons ptr) id) (parse_loop str k (i + 1) (used + nat len + 1) argv)
     else Some ([ptr], argv)
   }"

text \<open>What \<open>ntopt_parse\<close> passes to the callback: \<open>argc\<close>, \<open>argvp\<close> and the buffer it points into.\<close>

definition ntopt_parse :: "u8 list \<Rightarrow> u8 list \<Rightarrow> (nat \<times> nat option list \<times> u8 list) option" where
  "ntopt_parse str argv = do {
     argc \<leftarrow> ntopt_get_count str;
     let argc = (if NTOPT_TEXT_MAXARGS \<le> argc then NTOPT_TEXT_MAXARGS else argc) in
     map_option (\<lambda>(argvp, argv). (argc, argvp, argv)) (parse_loop str argc 0 0 argv)
   }"

section \<open>Words\<close>

function words :: "u8 list \<Rightarrow> u8 list list" where
  "words s =
     (case dropWhile IS_DELIM s of
        [] \<Rightarrow> []
      | c # t \<Rightarrow> takeWhile (\<lambda>c. \<not> IS_DELIM c) (c # t) # words (dropWhile (\<lambda>c. \<not> IS_DELIM c) (c # t)))"
  by pat_completeness auto
termination
proof (relation "measure length", simp)
  fix s c t
  assume *: "dropWhile IS_DELIM s = c # t"
  then have "\<not> IS_DELIM c"
    by (metis dropWhile_eq_Cons_conv)
  moreover have "length (c # t) \<le> length s"
    using length_dropWhile_le [of IS_DELIM s] by (simp add: *)
  ultimately show "(dropWhile (\<lambda>c. \<not> IS_DELIM c) (c # t), s) \<in> measure length"
    using length_dropWhile_le [of "\<lambda>c. \<not> IS_DELIM c" t] by simp
qed

declare words.simps [simp del]

lemma words_cases:
  "dropWhile IS_DELIM s = [] \<Longrightarrow> words s = []"
  "dropWhile IS_DELIM s = c # t \<Longrightarrow> words s =
     takeWhile (\<lambda>c. \<not> IS_DELIM c) (c # t) # words (dropWhile (\<lambda>c. \<not> IS_DELIM c) (c # t))"
  by (subst words.simps, simp del: dropWhile_eq_Nil_conv)+

lemma words_Nil [simp]: "words [] = []"
  by (simp add: words.simps)

lemma words_delim [simp]: "IS_DELIM c \<Longrightarrow> words (c # s) = words s"
  by (subst (1 2) words.simps) simp

lemma words_word:
  "\<not> IS_DELIM c \<Longrightarrow> words (c # s) =
    (c # takeWhile (\<lambda>c. \<not> IS_DELIM c) s) # words (dropWhile (\<lambda>c. \<not> IS_DELIM c) s)"
  by (subst words.simps) simp

lemma delim_0 [simp]: "IS_DELIM 0"
  by (simp add: IS_DELIM_def)

lemma nondelim_nonzero [simp]: "\<not> IS_DELIM c \<Longrightarrow> c \<noteq> 0"
  by auto

text \<open>Inside a word (\<open>0 < wc\<close>) the rest of the word does not count.\<close>

lemma get_count_loop_eq:
  "terminated s \<Longrightarrow> get_count_loop s cnt wc =
    Some (cnt + length (words (if wc = 0 then c_string s else dropWhile (\<lambda>c. \<not> IS_DELIM c) (c_string s))))"
proof (induction s cnt wc rule: get_count_loop.induct)
  case (2 c p cnt wc)
  then show ?case
    by (cases "c = 0"; cases "IS_DELIM c") (auto simp: words_word)
qed simp

lemma ntopt_get_count_eq: "terminated s \<Longrightarrow> ntopt_get_count s = Some (length (words (c_string s)))"
  by (simp add: ntopt_get_count_def get_count_loop_eq)

lemma find_text_word:
  "terminated s \<Longrightarrow> cnt \<le> n \<Longrightarrow>
    n - cnt < length (words (if wc = 0 then c_string s else dropWhile (\<lambda>c. \<not> IS_DELIM c) (c_string s))) \<Longrightarrow>
    \<exists>q. find_text s cnt wc n = Some (Some q) \<and> terminated q \<and>
      takeWhile (\<lambda>c. \<not> IS_DELIM c) q
        = words (if wc = 0 then c_string s else dropWhile (\<lambda>c. \<not> IS_DELIM c) (c_string s)) ! (n - cnt)"
proof (induction s cnt wc n rule: find_text.induct)
  case (2 c p cnt wc n)
  consider "c = 0" | "c \<noteq> 0" "IS_DELIM c" | "\<not> IS_DELIM c" "wc \<noteq> 0" | "\<not> IS_DELIM c" "wc = 0" "cnt = n"
    | "\<not> IS_DELIM c" "wc = 0" "cnt < n"
    using "2.prems"(2) by linarith
  then show ?case
  proof cases
    case 1
    then show ?thesis
      using "2.prems"(3) by (simp split: if_splits)
  next
    case 4
    have "takeWhile (\<lambda>c. \<not> IS_DELIM c) p = takeWhile (\<lambda>c. \<not> IS_DELIM c) (c_string p)"
      unfolding c_string_def by (induction p) auto
    then show ?thesis
      using 4 "2.prems"(1) by (auto simp: words_word)
  next
    case 5
    then have "n - cnt = Suc (n - (cnt + 1))"
      by simp
    then show ?thesis
      using 2 5 by (auto simp: words_word)
  qed (use 2 in auto)
qed simp

lemma copy_text_eq:
  "terminated q \<Longrightarrow> w = takeWhile (\<lambda>c. \<not> IS_DELIM c) q \<Longrightarrow> cc + int (length w) < siz \<Longrightarrow> length w < length des \<Longrightarrow>
    copy_text q des cc siz = Some (w @ 0 # drop (Suc (length w)) des, cc + int (length w))"
proof (induction q des cc siz arbitrary: w rule: copy_text.induct)
  case (1 c p x des cc siz)
  show ?case
  proof (cases "IS_DELIM c")
    case False
    then show ?thesis
      using "1.IH" [of "takeWhile (\<lambda>c. \<not> IS_DELIM c) p"] "1.prems" by auto
  qed (use "1.prems" in auto)
qed auto

lemma ntopt_get_text_eq:
  assumes "terminated s" "n < length (words (c_string s))"
    and "int (length (words (c_string s) ! n)) < siz" "length (words (c_string s) ! n) < length buf"
  shows "ntopt_get_text s n buf siz =
    Some (True, words (c_string s) ! n @ 0 # drop (Suc (length (words (c_string s) ! n))) buf,
      int (length (words (c_string s) ! n)))"
proof -
  obtain q where "find_text s 0 0 n = Some (Some q)" "terminated q"
      "takeWhile (\<lambda>c. \<not> IS_DELIM c) q = words (c_string s) ! n"
    using find_text_word [of s 0 n 0] assms(1,2) by auto
  then show ?thesis
    using copy_text_eq [of q "words (c_string s) ! n" 0 siz buf] assms(3,4) by (simp add: ntopt_get_text_def)
qed

section \<open>The arguments of a command line\<close>

lemma words_room: "sum_list (map (\<lambda>w. Suc (length w)) (words s)) \<le> Suc (length s)"
proof (induction s rule: length_induct)
  case (1 s)
  show ?case
  proof (cases "dropWhile IS_DELIM s")
    case Nil
    then show ?thesis
      by (simp only: words_cases(1)) simp
  next
    case (Cons c t)
    let ?w = "takeWhile (\<lambda>c. \<not> IS_DELIM c) (c # t)" and ?r = "dropWhile (\<lambda>c. \<not> IS_DELIM c) (c # t)"
    have len: "length ?w + length ?r \<le> length s"
      using length_dropWhile_le [of IS_DELIM s] Cons by (metis length_append takeWhile_dropWhile_id)
    have rest: "sum_list (map (\<lambda>w. Suc (length w)) (words ?r)) \<le> length ?r"
    proof (cases ?r)
      case Nil
      then show ?thesis by simp
    next
      case (Cons d u)
      then have "words ?r = words u"
        by (metis dropWhile_eq_Cons_conv words_delim)
      moreover have "sum_list (map (\<lambda>w. Suc (length w)) (words u)) \<le> Suc (length u)"
        using 1 len Cons by simp
      ultimately show ?thesis
        using Cons by simp
    qed
    have "words s = ?w # words ?r"
      using Cons by (rule words_cases(2))
    then show ?thesis
      using len rest by simp
  qed
qed

lemma words_nondelim: "w \<in> set (words s) \<Longrightarrow> c \<in> set w \<Longrightarrow> \<not> IS_DELIM c"
proof (induction s rule: words.induct)
  case (1 s)
  show ?case
  proof (cases "dropWhile IS_DELIM s")
    case Nil
    then show ?thesis
      using "1.prems"(1) by (simp only: words_cases(1)) simp
  next
    case (Cons d t)
    then have "w = takeWhile (\<lambda>c. \<not> IS_DELIM c) (d # t) \<or> w \<in> set (words (dropWhile (\<lambda>c. \<not> IS_DELIM c) (d # t)))"
      using "1.prems"(1) by (simp only: words_cases(2)) simp
    then show ?thesis
      using "1.IH" [OF Cons] "1.prems"(2) by (auto dest: set_takeWhileD)
  qed
qed

lemma words_nonempty: "w \<in> set (words s) \<Longrightarrow> w \<noteq> []"
proof (induction s rule: words.induct)
  case (1 s)
  show ?case
  proof (cases "dropWhile IS_DELIM s")
    case Nil
    then show ?thesis
      using "1.prems" by (simp only: words_cases(1)) simp
  next
    case (Cons d t)
    then have "w = takeWhile (\<lambda>c. \<not> IS_DELIM c) (d # t) \<or> w \<in> set (words (dropWhile (\<lambda>c. \<not> IS_DELIM c) (d # t)))"
      using "1.prems" by (simp only: words_cases(2)) simp
    moreover have "\<not> IS_DELIM d"
      using Cons by (metis dropWhile_eq_Cons_conv)
    ultimately show ?thesis
      using "1.IH" [OF Cons] by auto
  qed
qed

lemma nonempty_room: "(\<And>w. w \<in> set ws \<Longrightarrow> w \<noteq> []) \<Longrightarrow> 2 * length ws \<le> sum_list (map (\<lambda>w. Suc (length w)) ws)"
proof (induction ws)
  case (Cons w ws)
  then show ?case
    by (cases w) auto
qed simp

lemma parse_loop_eq:
  assumes "terminated s" "i \<le> length (words (c_string s))" "length argv = NTOPT_TEXT_MAXLEN"
    and "ws = drop i (words (c_string s))" "used + sum_list (map (\<lambda>w. Suc (length w)) ws) \<le> NTOPT_TEXT_MAXLEN"
  shows "\<exists>ps rest. parse_loop s (length ws) i used argv = Some (map Some ps, rest) \<and> length rest = NTOPT_TEXT_MAXLEN \<and>
    take used rest = take used argv \<and> map (\<lambda>p. c_string (drop p rest)) ps = ws"
  using assms(2-)
proof (induction ws arbitrary: i used argv)
  case Nil
  then show ?case by auto
next
  case (Cons w ws)
  have i: "i < length (words (c_string s))" "words (c_string s) ! i = w" "ws = drop (i + 1) (words (c_string s))"
    using Cons.prems(3) by (metis Cons_nth_drop_Suc drop_eq_Nil2 linorder_not_less list.distinct(1) list.inject Suc_eq_plus1)+
  have w: "0 \<notin> set w"
    using words_nondelim [of w "c_string s" 0] i(1,2) by auto
  have room: "used + length w < NTOPT_TEXT_MAXLEN"
    using Cons.prems(4) by simp
  let ?argv = "take used argv @ w @ 0 # drop (Suc (length w)) (drop used argv)"
  have get: "ntopt_get_text s i (drop used argv) (int NTOPT_TEXT_MAXLEN - int used)
      = Some (True, w @ 0 # drop (Suc (length w)) (drop used argv), int (length w))"
    using ntopt_get_text_eq [OF assms(1) i(1), of "int NTOPT_TEXT_MAXLEN - int used" "drop used argv"] i(2) room Cons.prems(2)
    by simp
  show ?case
  proof (cases "used + length w + 1 < NTOPT_TEXT_MAXLEN")
    case True
    have "\<exists>ps rest. parse_loop s (length ws) (i + 1) (used + length w + 1) ?argv = Some (map Some ps, rest) \<and>
        length rest = NTOPT_TEXT_MAXLEN \<and> take (used + length w + 1) rest = take (used + length w + 1) ?argv \<and>
        map (\<lambda>p. c_string (drop p rest)) ps = ws"
      by (rule Cons.IH) (use i(1,3) room Cons.prems(2,4) in simp_all)
    then obtain ps rest where ps: "parse_loop s (length ws) (i + 1) (used + length w + 1) ?argv = Some (map Some ps, rest)"
        "length rest = NTOPT_TEXT_MAXLEN" "take (used + length w + 1) rest = take (used + length w + 1) ?argv"
        "map (\<lambda>p. c_string (drop p rest)) ps = ws"
      by blast
    have "take (used + length w + 1) rest = take used argv @ w @ [0]"
      using ps(3) room Cons.prems(2) by simp
    then have rest: "rest = take used argv @ w @ 0 # drop (used + length w + 1) rest"
      by (metis append.assoc append_Cons append_Nil append_take_drop_id)
    have "take used rest = take used argv" "c_string (drop used rest) = w"
      using room Cons.prems(2) w by (subst rest; simp)+
    then show ?thesis
      using get True ps(1,2,4) by (intro exI [of _ "used # ps"]) simp
  next
    case False
    then have "ws = []"
      using Cons.prems(4) by (cases ws) auto
    then show ?thesis
      using get False room Cons.prems(2) w by (intro exI [of _ "[used]"]) simp
  qed
qed

lemma ntopt_parse_eq:
  assumes "terminated str" "length (c_string str) < NTOPT_TEXT_MAXLEN" "length argv = NTOPT_TEXT_MAXLEN"
  shows "\<exists>ps buf. ntopt_parse str argv = Some (length (words (c_string str)), map Some ps, buf) \<and>
    map (\<lambda>p. c_string (drop p buf)) ps = words (c_string str)"
proof -
  let ?ws = "words (c_string str)"
  have room: "sum_list (map (\<lambda>w. Suc (length w)) ?ws) \<le> NTOPT_TEXT_MAXLEN"
    using words_room [of "c_string str"] assms(2) by simp
  have "2 * length ?ws \<le> sum_list (map (\<lambda>w. Suc (length w)) ?ws)"
    by (rule nonempty_room) (rule words_nonempty)
  then have "length ?ws \<le> NTOPT_TEXT_MAXARGS"
    using room by simp
  then show ?thesis
    using parse_loop_eq [OF assms(1) _ assms(3), of 0 ?ws 0] room ntopt_get_count_eq [OF assms(1)]
    by (auto simp: ntopt_parse_def Let_def)
qed

text \<open>
  C27. A command line of at most 63 characters, which is what the line editor produces, reaches
  the callback as exactly the list of its words: \<open>argc\<close> is their number and \<open>argv\<close> points to
  each of them in order, with every pointer initialised.
\<close>

theorem ntopt_parse_words:
  assumes "terminated str" "length (c_string str) < NTOPT_TEXT_MAXLEN" "length argv = NTOPT_TEXT_MAXLEN"
  shows "\<exists>ps buf. ntopt_parse str argv = Some (length (words (c_string str)), map Some ps, buf) \<and>
    map (\<lambda>p. c_string (drop p buf)) ps = words (c_string str)"
  by (rule ntopt_parse_eq [OF assms])

theorem ntopt_parse_words_witness:
  "\<exists>ps buf. ntopt_parse [0x6C, 0x73, 0x20, 0x20, 0x2F, 0] (replicate 64 0) = Some (2, map Some ps, buf) \<and>
    map (\<lambda>p. c_string (drop p buf)) ps = [[0x6C, 0x73], [0x2F]]"
proof -
  have ws: "words (c_string [0x6C, 0x73, 0x20, 0x20, 0x2F, 0]) = [[0x6C, 0x73], [0x2F]]"
    by (simp add: c_string_def IS_DELIM_def words_word)
  show ?thesis
    using ntopt_parse_words [of "[0x6C, 0x73, 0x20, 0x20, 0x2F, 0]" "replicate 64 0"] unfolding ws by (simp add: c_string_def numeral_2_eq_2)
qed

end
