(* ===== verification/Nt_Shell.thy ===== *)
theory Nt_Shell
  imports Nt_Vtsend Nt_History Nt_Opt
begin

text \<open>
  The shell that ties the parser, the line editor and the history together,
  \<open>middleware/ntshell/src/ntshell.c\<close>. The record holds the structure \<open>ntshell_t\<close> without the parser,
  which is passed beside it. What is handed to the function pointers \<open>func_write\<close> and
  \<open>func_callback\<close> is appended to \<open>sh_out\<close> and \<open>sh_calls\<close>. The arrays of 64 bytes that the handlers have on
  the stack are not initialised: \<open>sh_local\<close> is what they happen to contain, one value for all of them.
\<close>

abbreviation (input) "INITCODE \<equiv> (0x4367 :: u32)"
abbreviation (input) "NTSHELL_PROMPT_MAXLEN \<equiv> (32 :: nat)"

record ntshell_t =
  sh_initcode :: u32
  sh_editor :: text_editor_t
  sh_history :: text_history_t
  suggest_index :: int
  suggest_source :: "u8 list"
  sh_prompt :: "u8 list"
  sh_out :: "u8 list"
  sh_calls :: "u8 list list"
  sh_local :: "u8 list"

section \<open>Writing\<close>

definition SERIAL_WRITE :: "u8 list \<Rightarrow> int \<Rightarrow> ntshell_t \<Rightarrow> ntshell_t option" where
  "SERIAL_WRITE buf cnt sh =
     (if 0 \<le> cnt \<and> nat cnt \<le> length buf then Some (sh\<lparr>sh_out := sh_out sh @ take (nat cnt) buf\<rparr>) else None)"

definition PROMPT_WRITE :: "ntshell_t \<Rightarrow> ntshell_t option" where
  "PROMPT_WRITE sh = do { n \<leftarrow> ntlibc_strlen (sh_prompt sh); SERIAL_WRITE (sh_prompt sh) (int n) sh }"

definition PROMPT_NEWLINE :: "ntshell_t \<Rightarrow> ntshell_t option" where
  "PROMPT_NEWLINE sh = do { n \<leftarrow> ntlibc_strlen [0x0D, 0x0A, 0]; SERIAL_WRITE [0x0D, 0x0A, 0] (int n) sh }"

definition vt_write :: "u8 list \<Rightarrow> ntshell_t \<Rightarrow> ntshell_t" where
  "vt_write bytes sh = sh\<lparr>sh_out := sh_out sh @ bytes\<rparr>"

definition VTSEND_ERASE_LINE :: "ntshell_t \<Rightarrow> ntshell_t" where
  "VTSEND_ERASE_LINE = vt_write vtsend_erase_line"

definition VTSEND_CURSOR_HEAD :: "ntshell_t \<Rightarrow> ntshell_t" where
  "VTSEND_CURSOR_HEAD = vt_write (vtsend_cursor_backward 80)"

definition VTSEND_CURSOR_PREV :: "ntshell_t \<Rightarrow> ntshell_t" where
  "VTSEND_CURSOR_PREV = vt_write (vtsend_cursor_backward 1)"

definition VTSEND_CURSOR_NEXT :: "ntshell_t \<Rightarrow> ntshell_t" where
  "VTSEND_CURSOR_NEXT = vt_write (vtsend_cursor_forward 1)"

section \<open>The handlers\<close>

text \<open>The statements that put another text on the line, which four places share.\<close>

definition replace_line :: "u8 list \<Rightarrow> int \<Rightarrow> ntshell_t \<Rightarrow> ntshell_t option" where
  "replace_line txt n sh = do {
     sh \<leftarrow> PROMPT_WRITE (VTSEND_CURSOR_HEAD (VTSEND_ERASE_LINE sh));
     sh \<leftarrow> SERIAL_WRITE txt n sh;
     (_, e) \<leftarrow> text_editor_set_text (sh_editor sh) txt;
     Some (sh\<lparr>sh_editor := e\<rparr>)
   }"

definition recall_line :: "ntshell_t \<Rightarrow> ntshell_t option" where
  "recall_line sh = do {
     (n, txt) \<leftarrow> text_history_read (sh_history sh) (sh_local sh) (int TEXTHISTORY_MAXLEN);
     (if 0 < n then replace_line txt n sh else Some sh)
   }"

definition actfunc_history_prev :: "ntshell_t \<Rightarrow> ntshell_t option" where
  "actfunc_history_prev sh = do {
     (r, h) \<leftarrow> text_history_read_point_prev (sh_history sh);
     (if r \<noteq> 0 then recall_line (sh\<lparr>sh_history := h\<rparr>) else Some (sh\<lparr>sh_history := h\<rparr>))
   }"

definition actfunc_history_next :: "ntshell_t \<Rightarrow> ntshell_t option" where
  "actfunc_history_next sh =
     (case text_history_read_point_next (sh_history sh) of (r, h) \<Rightarrow>
        if r \<noteq> 0 then recall_line (sh\<lparr>sh_history := h\<rparr>) else Some (sh\<lparr>sh_history := h\<rparr>))"

definition actfunc_cursor_left :: "ntshell_t \<Rightarrow> ntshell_t option" where
  "actfunc_cursor_left sh =
     (case text_editor_cursor_left (sh_editor sh) of (r, e) \<Rightarrow>
        Some (if r \<noteq> 0 then VTSEND_CURSOR_PREV (sh\<lparr>sh_editor := e\<rparr>) else sh\<lparr>sh_editor := e\<rparr>))"

definition actfunc_cursor_right :: "ntshell_t \<Rightarrow> ntshell_t option" where
  "actfunc_cursor_right sh =
     (case text_editor_cursor_right (sh_editor sh) of (r, e) \<Rightarrow>
        Some (if r \<noteq> 0 then VTSEND_CURSOR_NEXT (sh\<lparr>sh_editor := e\<rparr>) else sh\<lparr>sh_editor := e\<rparr>))"

definition actfunc_enter :: "ntshell_t \<Rightarrow> ntshell_t option" where
  "actfunc_enter sh = do {
     (_, txt) \<leftarrow> text_editor_get_text (sh_editor sh) (sh_local sh) (int TEXTEDITOR_MAXLEN);
     e \<leftarrow> text_editor_clear (sh_editor sh);
     (_, h) \<leftarrow> text_history_write (sh_history sh) txt;
     sh \<leftarrow> PROMPT_NEWLINE (sh\<lparr>sh_editor := e, sh_history := h\<rparr>);
     PROMPT_WRITE (sh\<lparr>sh_calls := sh_calls sh @ [txt]\<rparr>)
   }"

definition actfunc_cancel :: "ntshell_t \<Rightarrow> ntshell_t option" where
  "actfunc_cancel sh = do {
     e \<leftarrow> text_editor_clear (sh_editor sh);
     sh \<leftarrow> SERIAL_WRITE [0x5E, 0x43, 0] 2 (sh\<lparr>sh_editor := e\<rparr>);
     sh \<leftarrow> PROMPT_NEWLINE sh;
     PROMPT_WRITE sh
   }"

definition cursor_prevs :: "int \<Rightarrow> ntshell_t \<Rightarrow> ntshell_t" where
  "cursor_prevs n sh = (VTSEND_CURSOR_PREV ^^ nat n) sh"

definition actfunc_insert :: "u8 \<Rightarrow> ntshell_t \<Rightarrow> ntshell_t option" where
  "actfunc_insert ch sh = do {
     let sh = sh\<lparr>suggest_index := -1\<rparr>;
     (r, e) \<leftarrow> text_editor_insert (sh_editor sh) ch;
     let sh = sh\<lparr>sh_editor := e\<rparr>;
     (if r \<noteq> 0
      then do {
        (len, txt) \<leftarrow> text_editor_get_text e (sh_local sh) (int TEXTEDITOR_MAXLEN);
        let pos = text_editor_cursor_get_position e;
        let n = len - pos;
        sh \<leftarrow> SERIAL_WRITE [ch] 1 sh;
        (if n > 0
         then do { sh \<leftarrow> SERIAL_WRITE (drop (nat pos) txt) (len - pos) sh; Some (cursor_prevs n sh) }
         else Some sh)
      }
      else Some sh)
   }"

text \<open>The end of \<open>actfunc_backspace\<close> and \<open>actfunc_delete\<close>: rewriting what follows the cursor.\<close>

definition rewrite_rest :: "u8 list \<Rightarrow> int \<Rightarrow> int \<Rightarrow> ntshell_t \<Rightarrow> ntshell_t option" where
  "rewrite_rest txt pos n sh =
     (if n > 0
      then do {
        sh \<leftarrow> SERIAL_WRITE (drop (nat pos) txt) n sh;
        sh \<leftarrow> SERIAL_WRITE [0x20, 0] 1 sh;
        Some (cursor_prevs (n + 1) sh)
      }
      else do { sh \<leftarrow> SERIAL_WRITE [0x20, 0] 1 sh; Some (VTSEND_CURSOR_PREV sh) })"

definition actfunc_backspace :: "ntshell_t \<Rightarrow> ntshell_t option" where
  "actfunc_backspace sh = do {
     (r, e) \<leftarrow> text_editor_backspace (sh_editor sh);
     let sh = sh\<lparr>sh_editor := e\<rparr>;
     (if r \<noteq> 0
      then do {
        (len, txt) \<leftarrow> text_editor_get_text e (sh_local sh) (int TEXTEDITOR_MAXLEN);
        let pos = text_editor_cursor_get_position e;
        rewrite_rest txt pos (len - pos) (VTSEND_CURSOR_PREV sh)
      }
      else Some sh)
   }"

definition actfunc_delete :: "ntshell_t \<Rightarrow> ntshell_t option" where
  "actfunc_delete sh = do {
     (r, e) \<leftarrow> text_editor_delete (sh_editor sh);
     let sh = sh\<lparr>sh_editor := e\<rparr>;
     (if r \<noteq> 0
      then do {
        (len, txt) \<leftarrow> text_editor_get_text e (sh_local sh) (int TEXTEDITOR_MAXLEN);
        let pos = text_editor_cursor_get_position e;
        rewrite_rest txt pos (len - pos) sh
      }
      else Some sh)
   }"

definition actfunc_suggest :: "ntshell_t \<Rightarrow> ntshell_t option" where
  "actfunc_suggest sh =
     (if suggest_index sh < 0
      then do {
        (k, src) \<leftarrow> text_editor_get_text (sh_editor sh) (suggest_source sh) (int TEXTEDITOR_MAXLEN);
        let sh = sh\<lparr>suggest_source := src\<rparr>;
        (if k > 0
         then do {
           let sh = sh\<lparr>suggest_index := 0\<rparr>;
           (r, buf) \<leftarrow> text_history_find (sh_history sh) (suggest_index sh) src (sh_local sh) (int TEXTEDITOR_MAXLEN);
           (if r = 0
            then do { n \<leftarrow> ntlibc_strlen buf; replace_line buf (int n) sh }
            else Some (sh\<lparr>suggest_index := -1\<rparr>))
         }
         else Some sh)
      }
      else do {
        let sh = sh\<lparr>suggest_index := suggest_index sh + 1\<rparr>;
        (r, buf) \<leftarrow> text_history_find (sh_history sh) (suggest_index sh) (suggest_source sh) (sh_local sh) (int TEXTEDITOR_MAXLEN);
        (if r = 0
         then do { n \<leftarrow> ntlibc_strlen buf; replace_line buf (int n) sh }
         else do {
           n \<leftarrow> ntlibc_strlen (suggest_source sh);
           sh \<leftarrow> replace_line (suggest_source sh) (int n) sh;
           Some (sh\<lparr>suggest_index := -1\<rparr>)
         })
      })"

definition actfunc_cursor_head :: "ntshell_t \<Rightarrow> ntshell_t option" where
  "actfunc_cursor_head sh = do {
     sh \<leftarrow> PROMPT_WRITE (VTSEND_CURSOR_HEAD sh);
     Some (sh\<lparr>sh_editor := snd (text_editor_cursor_head (sh_editor sh))\<rparr>)
   }"

definition actfunc_cursor_tail :: "ntshell_t \<Rightarrow> ntshell_t option" where
  "actfunc_cursor_tail sh = do {
     (_, buf) \<leftarrow> text_editor_get_text (sh_editor sh) (sh_local sh) (int TEXTEDITOR_MAXLEN);
     len \<leftarrow> ntlibc_strlen buf;
     sh \<leftarrow> PROMPT_WRITE (VTSEND_CURSOR_HEAD sh);
     sh \<leftarrow> SERIAL_WRITE buf (int len) sh;
     Some (sh\<lparr>sh_editor := snd (text_editor_cursor_tail (sh_editor sh))\<rparr>)
   }"

section \<open>Dispatching\<close>

definition action_table :: "(u8 \<times> u8 \<times> (ntshell_t \<Rightarrow> ntshell_t option)) list" where
  "action_table =
     [(VTRECV_ACTION_EXECUTE, 0x01, actfunc_cursor_head),
      (VTRECV_ACTION_EXECUTE, 0x02, actfunc_cursor_left),
      (VTRECV_ACTION_EXECUTE, 0x03, actfunc_cancel),
      (VTRECV_ACTION_EXECUTE, 0x04, actfunc_delete),
      (VTRECV_ACTION_EXECUTE, 0x05, actfunc_cursor_tail),
      (VTRECV_ACTION_EXECUTE, 0x06, actfunc_cursor_right),
      (VTRECV_ACTION_EXECUTE, 0x08, actfunc_backspace),
      (VTRECV_ACTION_EXECUTE, 0x09, actfunc_suggest),
      (VTRECV_ACTION_EXECUTE, 0x0d, actfunc_enter),
      (VTRECV_ACTION_EXECUTE, 0x0e, actfunc_history_next),
      (VTRECV_ACTION_EXECUTE, 0x10, actfunc_history_prev),
      (VTRECV_ACTION_CSI_DISPATCH, 0x41, actfunc_history_prev),
      (VTRECV_ACTION_CSI_DISPATCH, 0x42, actfunc_history_next),
      (VTRECV_ACTION_CSI_DISPATCH, 0x43, actfunc_cursor_right),
      (VTRECV_ACTION_CSI_DISPATCH, 0x44, actfunc_cursor_left),
      (VTRECV_ACTION_CSI_DISPATCH, 0x7e, actfunc_delete),
      (VTRECV_ACTION_PRINT, 0x7f, actfunc_delete)]"

fun callback_search :: "(u8 \<times> u8 \<times> 'f) list \<Rightarrow> u8 \<Rightarrow> u8 \<Rightarrow> 'f option" where
  "callback_search [] action ch = None"
| "callback_search ((a, c, f) # tbl) action ch = (if a = action \<and> c = ch then Some f else callback_search tbl action ch)"

definition vtrecv_callback :: "ntshell_t client" where
  "vtrecv_callback action ch sh =
     (case callback_search action_table action ch of
        Some f \<Rightarrow> f sh
      | None \<Rightarrow> if action = VTRECV_ACTION_PRINT then actfunc_insert ch sh else Some sh)"

section \<open>The interface\<close>

definition ntshell_init :: "vtrecv_t \<times> ntshell_t \<Rightarrow> (vtrecv_t \<times> ntshell_t) option" where
  "ntshell_init = (\<lambda>(p, sh). do {
     prompt \<leftarrow> ntlibc_strcpy (sh_prompt sh) [0x3E, 0];
     p \<leftarrow> vtrecv_init p;
     e \<leftarrow> text_editor_init (sh_editor sh);
     Some (p, sh\<lparr>sh_prompt := prompt, sh_editor := e, sh_history := text_history_init (sh_history sh),
                suggest_index := -1, sh_initcode := INITCODE\<rparr>)
   })"

text \<open>The loop of \<open>ntshell_execute\<close> over the characters that have been read so far.\<close>

fun ntshell_loop :: "u8 list \<Rightarrow> vtrecv_t \<times> ntshell_t \<Rightarrow> (vtrecv_t \<times> ntshell_t) option" where
  "ntshell_loop [] s = Some s"
| "ntshell_loop (ch # chs) s = vtrecv_execute vtrecv_callback [ch] s \<bind> ntshell_loop chs"

definition ntshell_execute :: "u8 list \<Rightarrow> vtrecv_t \<times> ntshell_t \<Rightarrow> (vtrecv_t \<times> ntshell_t) option" where
  "ntshell_execute chs = (\<lambda>(p, sh).
     if sh_initcode sh \<noteq> INITCODE then Some (p, sh)
     else do { sh \<leftarrow> PROMPT_WRITE sh; ntshell_loop chs (p, sh) })"

definition ntshell_set_prompt :: "u8 list \<Rightarrow> ntshell_t \<Rightarrow> ntshell_t option" where
  "ntshell_set_prompt prompt sh =
     (if sh_initcode sh \<noteq> INITCODE then Some sh
      else map_option (\<lambda>p. sh\<lparr>sh_prompt := p\<rparr>) (ntlibc_strcpy (sh_prompt sh) prompt))"

definition ntshell_version :: "int \<times> int \<times> int" where
  "ntshell_version = (0, 2, 0)"

section \<open>The invariant\<close>

definition sh_ok :: "ntshell_t \<Rightarrow> bool" where
  "sh_ok sh \<longleftrightarrow> (\<exists>b a. ed_rep (sh_editor sh) b a) \<and> th_ok (sh_history sh) \<and> terminated (sh_prompt sh) \<and>
     length (suggest_source sh) = TEXTEDITOR_MAXLEN \<and> (0 \<le> suggest_index sh \<longrightarrow> terminated (suggest_source sh)) \<and>
     length (sh_local sh) = TEXTEDITOR_MAXLEN"

lemma sh_ok_fields:
  assumes "sh_ok sh"
  shows "th_ok (sh_history sh)" "terminated (sh_prompt sh)" "length (sh_local sh) = 64" "length (suggest_source sh) = 64"
    "length (te_buffer (sh_editor sh)) = 64"
  using assms by (auto simp: sh_ok_def ed_rep_def)

text \<open>Writing changes nothing but the output.\<close>

lemma SERIAL_WRITE_eq:
  "n \<le> length buf \<Longrightarrow> SERIAL_WRITE buf (int n) sh = Some (sh\<lparr>sh_out := sh_out sh @ take n buf\<rparr>)"
  by (simp add: SERIAL_WRITE_def)

lemma SERIAL_WRITE_ok:
  "0 \<le> n \<Longrightarrow> n \<le> int (length buf) \<Longrightarrow> \<exists>w. SERIAL_WRITE buf n sh = Some (sh\<lparr>sh_out := w\<rparr>)"
  by (auto simp: SERIAL_WRITE_def)

lemma PROMPT_WRITE_ok: "terminated (sh_prompt sh) \<Longrightarrow> \<exists>w. PROMPT_WRITE sh = Some (sh\<lparr>sh_out := w\<rparr>)"
  using c_string_length_less [of "sh_prompt sh"]
  by (auto simp: PROMPT_WRITE_def ntlibc_strlen_eq SERIAL_WRITE_def)

lemma PROMPT_NEWLINE_ok: "\<exists>w. PROMPT_NEWLINE sh = Some (sh\<lparr>sh_out := w\<rparr>)"
  by (auto simp: PROMPT_NEWLINE_def SERIAL_WRITE_def)

lemma vt_write_out: "\<exists>w. VTSEND_ERASE_LINE sh = sh\<lparr>sh_out := w\<rparr>" "\<exists>w. VTSEND_CURSOR_HEAD sh = sh\<lparr>sh_out := w\<rparr>"
  "\<exists>w. VTSEND_CURSOR_PREV sh = sh\<lparr>sh_out := w\<rparr>" "\<exists>w. VTSEND_CURSOR_NEXT sh = sh\<lparr>sh_out := w\<rparr>"
  by (auto simp: VTSEND_ERASE_LINE_def VTSEND_CURSOR_HEAD_def VTSEND_CURSOR_PREV_def VTSEND_CURSOR_NEXT_def vt_write_def)

lemma cursor_prevs_out: "\<exists>w. cursor_prevs n sh = sh\<lparr>sh_out := w\<rparr>"
proof -
  have "\<exists>w. (VTSEND_CURSOR_PREV ^^ k) sh = sh\<lparr>sh_out := w\<rparr>" for k
  proof (induction k)
    case 0
    then show ?case
      by (intro exI [of _ "sh_out sh"]) simp
  next
    case (Suc k)
    then obtain w where w: "(VTSEND_CURSOR_PREV ^^ k) sh = sh\<lparr>sh_out := w\<rparr>"
      by blast
    show ?case
      using vt_write_out(3) [of "sh\<lparr>sh_out := w\<rparr>"] by (auto simp: w)
  qed
  then show ?thesis
    by (simp add: cursor_prevs_def)
qed

lemma sh_ok_out [simp]: "sh_ok (sh\<lparr>sh_out := w\<rparr>) = sh_ok sh" "sh_ok (sh\<lparr>sh_calls := c\<rparr>) = sh_ok sh"
  by (simp_all add: sh_ok_def)

lemma sh_ok_editor: "sh_ok sh \<Longrightarrow> ed_rep e b a \<Longrightarrow> sh_ok (sh\<lparr>sh_editor := e\<rparr>)"
  by (auto simp: sh_ok_def)

lemma sh_ok_history: "sh_ok sh \<Longrightarrow> th_ok h \<Longrightarrow> sh_ok (sh\<lparr>sh_history := h\<rparr>)"
  by (simp add: sh_ok_def)

lemma sh_ok_no_suggest: "sh_ok sh \<Longrightarrow> sh_ok (sh\<lparr>suggest_index := -1\<rparr>)"
  by (simp add: sh_ok_def)

lemma sh_ok_editorE:
  assumes "sh_ok sh"
  obtains b a where "ed_rep (sh_editor sh) b a"
  using assms by (auto simp: sh_ok_def)

text \<open>\<open>P\<close> holds of the state that a handler ends in, and it does end.\<close>

abbreviation ends_ok :: "ntshell_t option \<Rightarrow> bool" where
  "ends_ok r \<equiv> (\<exists>v. r = Some v \<and> sh_ok v)"

lemma PROMPT_WRITE_bind:
  assumes "sh_ok sh" "\<And>w. ends_ok (f (sh\<lparr>sh_out := w\<rparr>))"
  shows "ends_ok (PROMPT_WRITE sh \<bind> f)"
  using PROMPT_WRITE_ok [OF sh_ok_fields(2) [OF assms(1)]] assms(2) by auto

lemma SERIAL_WRITE_bind:
  assumes "0 \<le> n" "n \<le> int (length buf)" "\<And>w. ends_ok (f (sh\<lparr>sh_out := w\<rparr>))"
  shows "ends_ok (SERIAL_WRITE buf n sh \<bind> f)"
  using SERIAL_WRITE_ok [OF assms(1,2), of sh] assms(3) by auto

lemma replace_line_ok:
  assumes "sh_ok sh" "terminated txt" "length (c_string txt) < 64" "0 \<le> n" "n \<le> int (length txt)"
  shows "ends_ok (replace_line txt n sh)"
proof -
  obtain w where w: "VTSEND_CURSOR_HEAD (VTSEND_ERASE_LINE sh) = sh\<lparr>sh_out := w\<rparr>"
    by (simp add: VTSEND_CURSOR_HEAD_def VTSEND_ERASE_LINE_def vt_write_def)
  obtain q where q: "text_editor_set_text (sh_editor sh) txt = Some (int (length (c_string txt)), q)" "ed_rep q (c_string txt) []"
    using text_editor_set_text_rep [OF sh_ok_fields(5) [OF assms(1)] assms(2,3)] by blast
  show ?thesis
    unfolding replace_line_def w
    by (rule PROMPT_WRITE_bind, use assms(1) in simp, rule SERIAL_WRITE_bind [OF assms(4,5)])
      (use q sh_ok_editor [OF assms(1) q(2)] in \<open>simp add: sh_ok_def\<close>)
qed

text \<open>Reading and searching the history.\<close>

lemma text_history_read_ok:
  assumes "th_ok h" "length d = 64"
  shows "\<exists>t. text_history_read h d 64 = Some (int (length (th_line h (th_rp h))), t) \<and> length t = 64 \<and>
    terminated t \<and> c_string t = th_line h (th_rp h)"
proof -
  have str: "terminated (th_at h (th_rp h))" "length (th_line h (th_rp h)) < 64"
    using th_line_row(2,3) [OF th_ok_row [OF assms(1)]] th_ok_lengths [OF assms(1)] by auto
  then show ?thesis
    using get_text_loop_eq [of "th_at h (th_rp h)" d 0 63] assms(2)
    by (auto simp: text_history_read_def th_line_def c_string_append_0)
qed

lemma text_history_move_ok:
  assumes "th_ok h"
  shows "th_ok (snd (text_history_read_point_next h))"
    and "\<exists>r q. text_history_read_point_prev h = Some (r, q) \<and> th_ok q"
proof -
  have rp: "th_ok (h\<lparr>th_rp := i\<rparr>)" if "i < 8" for i
    using assms that by (simp add: th_ok_def th_row_def th_at_def)
  then show "th_ok (snd (text_history_read_point_next h))"
    using assms by (simp add: text_history_read_point_next_def Let_def)
  have "th_at h i \<noteq> []" if "i < 8" for i
    using th_ok_lengths [OF assms] that by (simp add: th_at_def)
  then show "\<exists>r q. text_history_read_point_prev h = Some (r, q) \<and> th_ok q"
    using assms rp [of 7] rp [of "th_rp h - 1"] th_ok_lengths [OF assms]
    by (auto simp: text_history_read_point_prev_def Let_def arr_get_def)
qed

lemma text_history_find_ok:
  assumes "th_ok h" "terminated txt" "length buf = 64"
  shows "\<exists>r t. text_history_find h index txt buf 64 = Some (r, t) \<and> length t = 64 \<and> (r = 0 \<longrightarrow> terminated t)"
proof -
  have "\<exists>r t. find_loop h is found index txt len buf 64 = Some (r, t) \<and> length t = 64 \<and> (r = 0 \<longrightarrow> terminated t)"
    for "is" found len
  proof (induction "is" arbitrary: found)
    case (Cons i "is")
    let ?t = "th_at h ((th_rp h + i) mod 8)"
    have str: "terminated ?t" "length (c_string ?t) < 64"
      using th_line_row(2,3) [OF th_ok_row [OF assms(1), of "(th_rp h + i) mod 8"]] by (simp_all add: th_line_def)
    obtain r where r: "ntlibc_strncmp ?t txt (int (min (length (c_string ?t)) len)) = Some r"
      using ntlibc_strncmp_0 [OF str(1) assms(2)] by blast
    have "(if length (c_string ?t) < len then length (c_string ?t) else len) = min (length (c_string ?t)) len"
      by simp
    then show ?case
      using Cons [of found] Cons [of "found + 1"] r str assms(3)
      by (auto simp: Let_def ntlibc_strlen_eq ntlibc_strcpy_eq)
  qed (use assms(3) in simp)
  then show ?thesis
    using assms(2) by (simp add: text_history_find_def ntlibc_strlen_eq)
qed

lemma text_history_write_ok:
  assumes "th_ok h" "terminated s" "length (c_string s) < 64"
  shows "\<exists>r q. text_history_write h s = Some (r, q) \<and> th_ok q"
proof (cases "c_string s = []")
  case True
  then have "s \<noteq> []" "s ! 0 = 0"
    using assms(2) by (cases s; auto simp: c_string_Cons split: if_splits)+
  then show ?thesis
    using assms(1) by (simp add: text_history_write_def arr_get_def)
next
  case False
  then show ?thesis
    using text_history_write_rows [OF assms] by metis
qed

section \<open>Every handler keeps the invariant\<close>

lemma get_text_shell:
  assumes "ed_rep e b a" "length d = 64"
  obtains t where "text_editor_get_text e d 64 = Some (int (length b + length a), t)" "length t = 64" "terminated t" "c_string t = b @ a"
  using text_editor_get_text_rep [OF assms] ed_rep_room [OF assms(1)] assms c_string_append_0 [of "b @ a"]
  by (auto simp: ed_rep_def)

lemma actfunc_history_ok:
  assumes "sh_ok sh"
  shows "ends_ok (actfunc_history_prev sh)" "ends_ok (actfunc_history_next sh)"
proof -
  have recall: "ends_ok (recall_line (sh\<lparr>sh_history := h\<rparr>))" if h: "th_ok h" for h
  proof -
    obtain t where t: "text_history_read h (sh_local sh) 64 = Some (int (length (th_line h (th_rp h))), t)" "length t = 64"
        "terminated t" "c_string t = th_line h (th_rp h)"
      using text_history_read_ok [OF h sh_ok_fields(3) [OF assms]] by blast
    have "ends_ok (replace_line t (int (length (th_line h (th_rp h)))) (sh\<lparr>sh_history := h\<rparr>))"
      using replace_line_ok [OF sh_ok_history [OF assms h] t(3)] c_string_length_less [OF t(3)] t(2,4) by simp
    then show ?thesis
      using t(1) sh_ok_history [OF assms h] by (simp add: recall_line_def)
  qed
  obtain r q where "text_history_read_point_prev (sh_history sh) = Some (r, q)" "th_ok q"
    using text_history_move_ok(2) [OF sh_ok_fields(1) [OF assms]] by blast
  then show "ends_ok (actfunc_history_prev sh)"
    using recall sh_ok_history [OF assms] by (auto simp: actfunc_history_prev_def)
  show "ends_ok (actfunc_history_next sh)"
    using recall sh_ok_history [OF assms] text_history_move_ok(1) [OF sh_ok_fields(1) [OF assms]]
    by (auto simp: actfunc_history_next_def split: prod.splits)
qed

lemma ed_command_shell:
  assumes "sh_ok sh" "e \<noteq> Insert 0"
  obtains q b a where "ed_command e (sh_editor sh) = Some q" "ed_rep q b a" "sh_ok (sh\<lparr>sh_editor := q\<rparr>)"
proof -
  obtain b a where "ed_rep (sh_editor sh) b a"
    by (rule sh_ok_editorE [OF assms(1)])
  then show ?thesis
    using ed_command_rep [of "sh_editor sh" b a e] assms(2) sh_ok_editor [OF assms(1)] that by blast
qed

lemma actfunc_cursor_ok:
  assumes "sh_ok sh"
  shows "ends_ok (actfunc_cursor_left sh)" "ends_ok (actfunc_cursor_right sh)" "ends_ok (actfunc_cursor_head sh)"
proof -
  obtain b a where rep: "ed_rep (sh_editor sh) b a"
    by (rule sh_ok_editorE [OF assms])
  have moved: "ends_ok (Some (if r \<noteq> 0 then f (sh\<lparr>sh_editor := e\<rparr>) else sh\<lparr>sh_editor := e\<rparr>))"
    if "ed_rep e b' a'" "\<And>sh. \<exists>w. f sh = sh\<lparr>sh_out := w\<rparr>" for r :: int and e b' a' f
    using sh_ok_editor [OF assms that(1)] that(2) [of "sh\<lparr>sh_editor := e\<rparr>"] by auto
  obtain b' a' where "ed_rep (snd (text_editor_cursor_left (sh_editor sh))) b' a'"
    using ed_command_rep [OF rep, of Left] by auto
  then show "ends_ok (actfunc_cursor_left sh)"
    unfolding actfunc_cursor_left_def case_prod_unfold using vt_write_out(3) by (rule moved)
  obtain b' a' where "ed_rep (snd (text_editor_cursor_right (sh_editor sh))) b' a'"
    using ed_command_rep [OF rep, of Right] by auto
  then show "ends_ok (actfunc_cursor_right sh)"
    unfolding actfunc_cursor_right_def case_prod_unfold using vt_write_out(4) by (rule moved)
  note head = text_editor_cursor_rep(5) [OF rep]
  obtain w where w: "VTSEND_CURSOR_HEAD sh = sh\<lparr>sh_out := w\<rparr>"
    using vt_write_out(2) by blast
  show "ends_ok (actfunc_cursor_head sh)"
    unfolding actfunc_cursor_head_def w
    by (rule PROMPT_WRITE_bind) (use assms sh_ok_editor [OF assms head] in \<open>simp_all add: sh_ok_def\<close>)
qed

lemma actfunc_cursor_tail_ok:
  assumes "sh_ok sh"
  shows "ends_ok (actfunc_cursor_tail sh)"
proof -
  obtain b a where rep: "ed_rep (sh_editor sh) b a"
    by (rule sh_ok_editorE [OF assms])
  obtain t where t: "text_editor_get_text (sh_editor sh) (sh_local sh) 64 = Some (int (length b + length a), t)" "length t = 64"
      "terminated t" "c_string t = b @ a"
    by (rule get_text_shell [OF rep sh_ok_fields(3) [OF assms]])
  obtain w where w: "VTSEND_CURSOR_HEAD sh = sh\<lparr>sh_out := w\<rparr>"
    using vt_write_out(2) by blast
  have ed: "sh_ok (sh\<lparr>sh_editor := snd (text_editor_cursor_tail (sh_editor sh))\<rparr>)"
    by (rule sh_ok_editor [OF assms text_editor_cursor_rep(6) [OF rep]])
  have "ends_ok (PROMPT_WRITE (sh\<lparr>sh_out := w\<rparr>) \<bind> (\<lambda>sh. SERIAL_WRITE t (int (length (c_string t))) sh \<bind>
      (\<lambda>sh. Some (sh\<lparr>sh_editor := snd (text_editor_cursor_tail (sh_editor sh))\<rparr>))))"
    by (rule PROMPT_WRITE_bind, use assms in simp, rule SERIAL_WRITE_bind)
      (use c_string_length_less [OF t(3)] ed in \<open>simp_all add: sh_ok_def\<close>)
  then show ?thesis
    using t(1,3) by (simp add: actfunc_cursor_tail_def w ntlibc_strlen_eq)
qed

lemma actfunc_enter_ok:
  assumes "sh_ok sh"
  shows "ends_ok (actfunc_enter sh)"
proof -
  obtain b a where rep: "ed_rep (sh_editor sh) b a"
    by (rule sh_ok_editorE [OF assms])
  obtain t where t: "text_editor_get_text (sh_editor sh) (sh_local sh) 64 = Some (int (length b + length a), t)" "length t = 64"
      "terminated t"
    by (rule get_text_shell [OF rep sh_ok_fields(3) [OF assms]])
  obtain e where e: "text_editor_clear (sh_editor sh) = Some e" "ed_rep e [] []"
    using text_editor_clear_rep [OF sh_ok_fields(5) [OF assms]] by blast
  obtain r h where h: "text_history_write (sh_history sh) t = Some (r, h)" "th_ok h"
    using text_history_write_ok [OF sh_ok_fields(1) [OF assms] t(3)] c_string_length_less [OF t(3)] t(2) by auto
  let ?sh = "sh\<lparr>sh_editor := e, sh_history := h\<rparr>"
  have ok: "sh_ok ?sh"
    using sh_ok_history [OF sh_ok_editor [OF assms e(2)] h(2)] .
  obtain w where w: "PROMPT_NEWLINE ?sh = Some (?sh\<lparr>sh_out := w\<rparr>)"
    using PROMPT_NEWLINE_ok by blast
  show ?thesis
    using t(1) e(1) h(1) w PROMPT_WRITE_ok [of "?sh\<lparr>sh_out := w, sh_calls := sh_calls sh @ [t]\<rparr>"] ok sh_ok_fields(2) [OF ok]
    by (auto simp: actfunc_enter_def)
qed

lemma actfunc_cancel_ok:
  assumes "sh_ok sh"
  shows "ends_ok (actfunc_cancel sh)"
proof -
  obtain e where e: "text_editor_clear (sh_editor sh) = Some e" "ed_rep e [] []"
    using text_editor_clear_rep [OF sh_ok_fields(5) [OF assms]] by blast
  have ok: "sh_ok (sh\<lparr>sh_editor := e\<rparr>)"
    by (rule sh_ok_editor [OF assms e(2)])
  have prompt: "ends_ok (PROMPT_WRITE (sh\<lparr>sh_editor := e, sh_out := v\<rparr>))" for v
    using PROMPT_WRITE_ok [of "sh\<lparr>sh_editor := e, sh_out := v\<rparr>"] sh_ok_fields(2) [OF ok] ok by auto
  have "ends_ok (PROMPT_NEWLINE (sh\<lparr>sh_editor := e, sh_out := w\<rparr>) \<bind> PROMPT_WRITE)" for w
    using PROMPT_NEWLINE_ok [of "sh\<lparr>sh_editor := e, sh_out := w\<rparr>"] prompt by auto
  then show ?thesis
    using e(1) by (simp add: actfunc_cancel_def SERIAL_WRITE_def)
qed

lemma SERIAL_WRITE_char [simp]: "SERIAL_WRITE (c # cs) 1 sh = Some (sh\<lparr>sh_out := sh_out sh @ [c]\<rparr>)"
  by (simp add: SERIAL_WRITE_def)

lemma sh_ok_prevs [simp]: "sh_ok (cursor_prevs k sh) = sh_ok sh"
  using cursor_prevs_out [of k sh] by auto

lemma rewrite_rest_ok:
  assumes "sh_ok sh" "0 \<le> pos" "pos \<le> 64" "length t = 64" "pos + n \<le> 64"
  shows "ends_ok (rewrite_rest t pos n sh)"
proof -
  have prevs: "ends_ok (Some (cursor_prevs k (sh\<lparr>sh_out := w\<rparr>)))" for k w
    using assms(1) by simp
  show ?thesis
  proof (cases "n > 0")
    case True
    have "ends_ok (SERIAL_WRITE (drop (nat pos) t) n sh \<bind> (\<lambda>sh. SERIAL_WRITE [0x20, 0] 1 sh \<bind> (\<lambda>sh. Some (cursor_prevs (n + 1) sh))))"
      by (rule SERIAL_WRITE_bind) (use True assms(2-) prevs in simp_all)
    then show ?thesis
      using True by (simp add: rewrite_rest_def)
  next
    case False
    then show ?thesis
      using vt_write_out(3) [of "sh\<lparr>sh_out := sh_out sh @ [0x20]\<rparr>"] assms(1) by (auto simp: rewrite_rest_def)
  qed
qed

lemma actfunc_remove_ok:
  assumes "sh_ok sh"
  shows "ends_ok (actfunc_backspace sh)" "ends_ok (actfunc_delete sh)"
proof -
  have rest: "ends_ok (text_editor_get_text e (sh_local sh) (int TEXTEDITOR_MAXLEN) \<bind>
      (\<lambda>(len, txt). let pos = text_editor_cursor_get_position e in rewrite_rest txt pos (len - pos) (sh\<lparr>sh_editor := e, sh_out := w\<rparr>)))"
    if rep: "ed_rep e b a" for e b a w
  proof -
    obtain t where t: "text_editor_get_text e (sh_local sh) 64 = Some (int (length b + length a), t)" "length t = 64"
      by (rule get_text_shell [OF rep sh_ok_fields(3) [OF assms]])
    have "ends_ok (rewrite_rest t (int (length b)) (int (length a)) (sh\<lparr>sh_editor := e, sh_out := w\<rparr>))"
      by (rule rewrite_rest_ok) (use sh_ok_editor [OF assms rep] ed_rep_room [OF rep] t(2) in simp_all)
    then show ?thesis
      using t(1) by (simp add: text_editor_cursor_get_position_rep [OF rep] Let_def)
  qed
  obtain b a where ed: "ed_rep (sh_editor sh) b a"
    by (rule sh_ok_editorE [OF assms])
  obtain r e b' a' where e: "text_editor_backspace (sh_editor sh) = Some (r, e)" "ed_rep e b' a'"
    using ed_command_rep [OF ed, of Backspace] by auto
  obtain w where w: "VTSEND_CURSOR_PREV (sh\<lparr>sh_editor := e\<rparr>) = sh\<lparr>sh_editor := e, sh_out := w\<rparr>"
    using vt_write_out(3) by blast
  show "ends_ok (actfunc_backspace sh)"
    using e(1) rest [OF e(2), of w] sh_ok_editor [OF assms e(2)] w by (simp add: actfunc_backspace_def Let_def)
  obtain r e b' a' where e: "text_editor_delete (sh_editor sh) = Some (r, e)" "ed_rep e b' a'"
    using ed_command_rep [OF ed, of Delete] by auto
  show "ends_ok (actfunc_delete sh)"
    using e(1) rest [OF e(2), of "sh_out sh"] sh_ok_editor [OF assms e(2)] by (simp add: actfunc_delete_def Let_def)
qed

lemma actfunc_insert_ok:
  assumes "sh_ok sh" "ch \<noteq> 0"
  shows "ends_ok (actfunc_insert ch sh)"
proof -
  let ?sh = "sh\<lparr>suggest_index := -1\<rparr>"
  have ok: "sh_ok ?sh"
    using assms(1) by (auto simp: sh_ok_def)
  obtain b a where ed: "ed_rep (sh_editor sh) b a"
    by (rule sh_ok_editorE [OF assms(1)])
  obtain r e b' a' where e: "text_editor_insert (sh_editor sh) ch = Some (r, e)" "ed_rep e b' a'"
    using ed_command_rep [OF ed, of "Insert ch"] assms(2) by auto
  obtain t where t: "text_editor_get_text e (sh_local sh) 64 = Some (int (length b' + length a'), t)" "length t = 64"
    by (rule get_text_shell [OF e(2) sh_ok_fields(3) [OF assms(1)]])
  have ok': "sh_ok (?sh\<lparr>sh_editor := e\<rparr>)"
    by (rule sh_ok_editor [OF ok e(2)])
  have "ends_ok (SERIAL_WRITE (drop (length b') t) (int (length a')) (?sh\<lparr>sh_editor := e, sh_out := sh_out sh @ [ch]\<rparr>) \<bind>
      (\<lambda>sh. Some (cursor_prevs (int (length a')) sh)))"
    by (rule SERIAL_WRITE_bind) (use sh_ok_prevs ed_rep_room [OF e(2)] t(2) ok' in simp_all)
  then show ?thesis
    using e(1) t(1) ok' by (simp add: actfunc_insert_def Let_def text_editor_cursor_get_position_rep [OF e(2)])
qed

lemma actfunc_suggest_ok:
  assumes "sh_ok sh"
  shows "ends_ok (actfunc_suggest sh)"
proof -
  note f = sh_ok_fields [OF assms]
  have found: "\<exists>r t. text_history_find (sh_history sh) i src (sh_local sh) 64 = Some (r, t) \<and>
      (r = 0 \<longrightarrow> ends_ok (ntlibc_strlen t \<bind> (\<lambda>n. replace_line t (int n) u)))"
    if src: "terminated src" and u: "sh_ok u" for i src u
  proof -
    obtain r t where t: "text_history_find (sh_history sh) i src (sh_local sh) 64 = Some (r, t)" "length t = 64" "r = 0 \<longrightarrow> terminated t"
      using text_history_find_ok [OF f(1) src f(3)] by blast
    then show ?thesis
      using replace_line_ok [OF u, of t "int (length (c_string t))"] c_string_length_less [of t]
      by (auto simp: ntlibc_strlen_eq)
  qed
  show ?thesis
  proof (cases "suggest_index sh < 0")
    case True
    obtain b a where ed: "ed_rep (sh_editor sh) b a"
      by (rule sh_ok_editorE [OF assms])
    obtain src where src: "text_editor_get_text (sh_editor sh) (suggest_source sh) 64 = Some (int (length b + length a), src)"
        "length src = 64" "terminated src"
      by (rule get_text_shell [OF ed f(4)])
    have ok: "sh_ok (sh\<lparr>suggest_source := src, suggest_index := i\<rparr>)" for i
      using assms src(2,3) by (simp add: sh_ok_def)
    show ?thesis
      using True src(1) ok found [OF src(3) ok, of 0 0] ok [of "suggest_index sh"]
      by (auto simp: actfunc_suggest_def Let_def)
  next
    case False
    let ?i = "suggest_index sh + 1"
    have src_end: "terminated (suggest_source sh)" and ok: "sh_ok (sh\<lparr>suggest_index := ?i\<rparr>)"
      using assms False by (simp_all add: sh_ok_def)
    have "ends_ok (replace_line (suggest_source sh) (int (length (c_string (suggest_source sh)))) (sh\<lparr>suggest_index := ?i\<rparr>) \<bind>
        (\<lambda>sh. Some (sh\<lparr>suggest_index := -1\<rparr>)))"
      using replace_line_ok [OF ok src_end, of "int (length (c_string (suggest_source sh)))"] c_string_length_less [OF src_end] f(4)
      by (auto simp: sh_ok_no_suggest)
    then show ?thesis
      using False found [OF src_end ok, of ?i] by (auto simp: actfunc_suggest_def Let_def ntlibc_strlen_eq [OF src_end])
  qed
qed

lemma vtrecv_callback_ok:
  assumes "sh_ok sh" "action = VTRECV_ACTION_PRINT \<Longrightarrow> 0x20 \<le> ch \<and> ch \<le> 0x7F"
  shows "ends_ok (vtrecv_callback action ch sh)"
proof (cases "callback_search action_table action ch")
  case None
  have "ch \<noteq> 0" if "action = VTRECV_ACTION_PRINT"
    using assms(2) [OF that] by auto
  then show ?thesis
    using None assms(1) actfunc_insert_ok [OF assms(1)] by (auto simp: vtrecv_callback_def)
next
  case (Some f)
  have "list_all (\<lambda>(a, c, f). ends_ok (f sh)) tbl \<Longrightarrow> callback_search tbl action ch = Some f \<Longrightarrow> ends_ok (f sh)" for tbl
    by (induction tbl) (auto split: if_splits)
  moreover have "list_all (\<lambda>(a, c, f). ends_ok (f sh)) action_table"
    using actfunc_cursor_ok [OF assms(1)] actfunc_cancel_ok [OF assms(1)] actfunc_remove_ok [OF assms(1)]
      actfunc_cursor_tail_ok [OF assms(1)] actfunc_suggest_ok [OF assms(1)] actfunc_enter_ok [OF assms(1)] actfunc_history_ok [OF assms(1)]
    unfolding action_table_def list.pred_inject prod.case by (intro conjI) simp_all
  ultimately have "ends_ok (f sh)"
    using Some by blast
  then show ?thesis
    using Some by (simp add: vtrecv_callback_def)
qed

interpretation shell: vt_client vtrecv_callback sh_ok
  by unfold_locales (rule vtrecv_callback_ok)

lemma ntshell_loop_eq: "ntshell_loop chs = vtrecv_execute vtrecv_callback chs"
proof (induction chs)
  case Nil
  show ?case
    by (rule ext) simp
next
  case (Cons ch chs)
  show ?case
    by (rule ext) (simp only: ntshell_loop.simps Cons vtrecv_execute_step [of vtrecv_callback ch chs])
qed

lemma ntshell_init_ok:
  assumes "length (intermediate_chars p) = 3" "intermediate_chars p ! 2 = 0" "length (vt_params p) = 16"
    and "length (sh_prompt sh) = NTSHELL_PROMPT_MAXLEN" "length (te_buffer (sh_editor sh)) = TEXTEDITOR_MAXLEN"
    and "length (suggest_source sh) = TEXTEDITOR_MAXLEN" "length (sh_local sh) = TEXTEDITOR_MAXLEN"
  obtains q v where "ntshell_init (p, sh) = Some (q, v)" "vt_ok q" "vt_state q = VTRECV_STATE_GROUND" "sh_ok v"
    "sh_initcode v = INITCODE" "ed_rep (sh_editor v) [] []" "sh_calls v = sh_calls sh"
proof -
  obtain q where q: "vtrecv_init p = Some q" "vt_ok q" "vt_state q = VTRECV_STATE_GROUND"
    using vtrecv_init_ok [OF assms(1-3)] by blast
  obtain e where e: "text_editor_init (sh_editor sh) = Some e" "ed_rep e [] []"
    using text_editor_init_rep [OF assms(5)] by blast
  have prompt: "ntlibc_strcpy (sh_prompt sh) [0x3E, 0] = Some (0x3E # 0 # drop (Suc (Suc 0)) (sh_prompt sh))"
    using ntlibc_strcpy_eq [of "[0x3E, 0]" "sh_prompt sh"] assms(4) by simp
  let ?v = "sh\<lparr>sh_prompt := 0x3E # 0 # drop (Suc (Suc 0)) (sh_prompt sh), sh_editor := e,
      sh_history := text_history_init (sh_history sh), suggest_index := -1, sh_initcode := INITCODE\<rparr>"
  show ?thesis
    by (rule that [of q ?v]) (use q e prompt assms(6,7) th_init_ok(1) in \<open>auto simp: ntshell_init_def sh_ok_def\<close>)
qed

text \<open>
  C23. The shell never reads or writes outside its buffers, whatever is typed, provided the last
  of the three bytes in which the parser collects intermediate characters is zero before
  initialisation, as it is in the shells of the boards, which are static objects. After
  initialisation, every finite input leaves the parser, the editor, the history and the
  completion in their well-formed states, unless it contains a terminal control sequence with
  more than sixteen parameters or a parameter that does not fit an \<open>int\<close>.
\<close>

theorem ntshell_execute_safe:
  assumes "length (intermediate_chars p) = 3" "intermediate_chars p ! 2 = 0" "length (vt_params p) = 16"
    and "length (sh_prompt sh) = NTSHELL_PROMPT_MAXLEN" "length (te_buffer (sh_editor sh)) = TEXTEDITOR_MAXLEN"
    and "length (suggest_source sh) = TEXTEDITOR_MAXLEN" "length (sh_local sh) = TEXTEDITOR_MAXLEN"
  shows "\<exists>s. ntshell_init (p, sh) = Some s \<and>
    ((\<exists>q v. ntshell_execute chs s = Some (q, v) \<and> vt_ok q \<and> sh_ok v) \<or>
     (\<exists>as ch bs q v. chs = as @ ch # bs \<and> ntshell_execute as s = Some (q, v) \<and> vt_overflow q ch))"
proof -
  obtain q v where i: "ntshell_init (p, sh) = Some (q, v)" "vt_ok q" "vt_state q = VTRECV_STATE_GROUND" "sh_ok v"
      "sh_initcode v = INITCODE"
    by (rule ntshell_init_ok [OF assms])
  obtain w where w: "PROMPT_WRITE v = Some (v\<lparr>sh_out := w\<rparr>)"
    using PROMPT_WRITE_ok [OF sh_ok_fields(2) [OF i(4)]] by blast
  have exec: "ntshell_execute cs (q, v) = vtrecv_execute vtrecv_callback cs (q, v\<lparr>sh_out := w\<rparr>)" for cs
    by (simp add: ntshell_execute_def i(5) w ntshell_loop_eq)
  show ?thesis
  proof (intro exI [of _ "(q, v)"] conjI)
    show "(\<exists>r u. ntshell_execute chs (q, v) = Some (r, u) \<and> vt_ok r \<and> sh_ok u) \<or>
        (\<exists>as ch bs r u. chs = as @ ch # bs \<and> ntshell_execute as (q, v) = Some (r, u) \<and> vt_overflow r ch)"
      unfolding exec by (rule shell.run_inv) (use i(2,4) in simp_all)
  qed (rule i(1))
qed

definition demo_shell :: ntshell_t where
  "demo_shell = \<lparr>sh_initcode = 0, sh_editor = \<lparr>te_buffer = replicate 64 0, te_pos = 0, te_len = 0\<rparr>,
     sh_history = \<lparr>th_history = [], th_rp = 0, th_wp = 0\<rparr>, suggest_index = 0, suggest_source = replicate 64 0,
     sh_prompt = replicate 32 0, sh_out = [], sh_calls = [], sh_local = replicate 64 0xAA\<rparr>"

lemma demo_shell_lengths:
  "length (intermediate_chars demo_vt) = 3" "intermediate_chars demo_vt ! 2 = 0" "length (vt_params demo_vt) = 16"
  "length (sh_prompt demo_shell) = NTSHELL_PROMPT_MAXLEN" "length (te_buffer (sh_editor demo_shell)) = TEXTEDITOR_MAXLEN"
  "length (suggest_source demo_shell) = TEXTEDITOR_MAXLEN" "length (sh_local demo_shell) = TEXTEDITOR_MAXLEN"
  by (simp_all add: demo_shell_def demo_vt_def)

theorem ntshell_execute_safe_witness:
  "\<exists>s. ntshell_init (demo_vt, demo_shell) = Some s \<and>
    ((\<exists>q v. ntshell_execute [0x6C, 0x08] s = Some (q, v) \<and> vt_ok q \<and> sh_ok v) \<or>
     (\<exists>as ch bs q v. [0x6C, 0x08] = as @ ch # bs \<and> ntshell_execute as s = Some (q, v) \<and> vt_overflow q ch))"
  by (rule ntshell_execute_safe [OF demo_shell_lengths])

text \<open>Without the zero in the last byte, collecting spaces after an escape runs past the array.\<close>

lemma escape_changes:
  "GET_STATE_TABLE VTRECV_STATE_ANYWHERE 0x1B = sc 0 VTRECV_STATE_ESCAPE"
  "GET_STATE_TABLE VTRECV_STATE_ANYWHERE 0x20 = 0"
  "GET_STATE_TABLE VTRECV_STATE_ESCAPE 0x20 = sc VTRECV_ACTION_COLLECT VTRECV_STATE_ESCAPE_INTERMEDIATE"
  "GET_STATE_TABLE VTRECV_STATE_ESCAPE_INTERMEDIATE 0x20 = sc VTRECV_ACTION_COLLECT 0"
  by (simp_all add: GET_STATE_TABLE_def table_search_look ranges_def table_def Let_def sc_def)

lemma escape_spaces:
  assumes "vt_state q = VTRECV_STATE_GROUND" "intermediate_chars q = [0, x, y]" "y \<noteq> 0"
  shows "vtrecv_execute cb [0x1B, 0x20, 0x20, 0x20] (q, u) = None"
  using assms
  by (cases "x = 0") (simp_all add: escape_changes do_state_change_def do_action_def client_action_def vt_collect_def
      vt_clear_def GET_EXIT_ACTIONS_def EXIT_ACTIONS_def GET_ENTRY_ACTIONS_def ENTRY_ACTIONS_def arr_get_def arr_set_def
      STATE_def ACTION_def sc_def)

text \<open>
  C34. The condition on the last byte is needed: initialisation clears only the first of the three
  bytes for intermediate characters. If the last one is not zero, an escape followed by three
  spaces makes the parser search for the end of the collected characters beyond the array, so
  that the run has no defined result.
\<close>

theorem ntshell_execute_unterminated:
  assumes "length (intermediate_chars p) = 3" "intermediate_chars p ! 2 \<noteq> 0"
    and "length (sh_prompt sh) = NTSHELL_PROMPT_MAXLEN" "length (te_buffer (sh_editor sh)) = TEXTEDITOR_MAXLEN"
  shows "\<exists>s. ntshell_init (p, sh) = Some s \<and> ntshell_execute [0x1B, 0x20, 0x20, 0x20] s = None"
proof -
  obtain w x y where i: "intermediate_chars p = [w, x, y]" "y \<noteq> 0"
    using assms(1,2) by (auto simp: numeral_2_eq_2 numeral_3_eq_3 length_Suc_conv)
  obtain e where e: "text_editor_init (sh_editor sh) = Some e"
    using text_editor_init_rep [OF assms(4)] by blast
  obtain pr where pr: "ntlibc_strcpy (sh_prompt sh) [0x3E, 0] = Some pr"
    using ntlibc_strcpy_eq [of "[0x3E, 0]" "sh_prompt sh"] assms(3) by simp
  let ?q = "p\<lparr>vt_state := VTRECV_STATE_GROUND, intermediate_chars := [0, x, y], num_params := 0, ignore_flagged := 0\<rparr>"
  have "vtrecv_init p = Some ?q"
    by (simp add: vtrecv_init_def i(1) arr_set_def)
  moreover have "vtrecv_execute vtrecv_callback [0x1B, 0x20, 0x20, 0x20] (?q, u) = None" for u
    by (rule escape_spaces [OF _ _ i(2)]) simp_all
  ultimately show ?thesis
    by (auto simp: ntshell_init_def ntshell_execute_def e pr ntshell_loop_eq
        simp del: vtrecv_execute.simps split: bind_splits)
qed

theorem ntshell_execute_unterminated_witness:
  "\<exists>s. ntshell_init (demo_vt\<lparr>intermediate_chars := [0, 0, 0xAA]\<rparr>, demo_shell) = Some s \<and>
    ntshell_execute [0x1B, 0x20, 0x20, 0x20] s = None"
  by (rule ntshell_execute_unterminated) (simp_all add: demo_shell_def)

section \<open>Entering a command line\<close>

lemma ground_print:
  assumes "vt_state p = VTRECV_STATE_GROUND" "0x20 \<le> ch" "ch \<le> 0x7E"
  shows "next_change p ch = sc VTRECV_ACTION_PRINT 0" "callback_search action_table VTRECV_ACTION_PRINT ch = None"
proof -
  have u: "32 \<le> unat ch" "unat ch \<le> 126"
    using assms(2,3) by (simp_all add: word_le_nat_alt)
  then show "next_change p ch = sc VTRECV_ACTION_PRINT 0"
    using assms(1) by (simp add: next_change_def GET_STATE_TABLE_def table_search_look ranges_def table_def Let_def sc_def)
  have "ch \<noteq> 0x7F"
    using assms(3) by auto
  then show "callback_search action_table VTRECV_ACTION_PRINT ch = None"
    by (simp add: action_table_def)
qed

lemma ground_enter: "vt_state p = VTRECV_STATE_GROUND \<Longrightarrow> next_change p 0x0D = sc VTRECV_ACTION_EXECUTE 0"
  by (simp add: next_change_def GET_STATE_TABLE_def table_search_look ranges_def table_def Let_def sc_def)

lemma actfunc_insert_end:
  assumes "sh_ok sh" "ed_rep (sh_editor sh) b []" "ch \<noteq> 0" "length b < 63"
  obtains v where "actfunc_insert ch sh = Some v" "sh_ok v" "ed_rep (sh_editor v) (b @ [ch]) []"
    "sh_history v = sh_history sh" "sh_calls v = sh_calls sh"
proof -
  obtain e where e: "text_editor_insert (sh_editor sh) ch = Some (1, e)" "ed_rep e (b @ [ch]) []"
    using text_editor_insert_rep [OF assms(2,3)] assms(4) by auto
  note t = text_editor_get_text_rep [OF e(2) sh_ok_fields(3) [OF assms(1)]]
  have "actfunc_insert ch sh = Some (sh\<lparr>suggest_index := -1, sh_editor := e, sh_out := sh_out sh @ [ch]\<rparr>)"
    using e(1) t by (simp add: actfunc_insert_def Let_def text_editor_cursor_get_position_rep [OF e(2)])
  then show ?thesis
    using that actfunc_insert_ok [OF assms(1,3)] e(2) by simp
qed

lemma type_line:
  assumes "vt_state p = VTRECV_STATE_GROUND" "sh_ok sh" "ed_rep (sh_editor sh) b []"
    and "\<And>c. c \<in> set l \<Longrightarrow> 0x20 \<le> c \<and> c \<le> 0x7E" "length b + length l < 64"
  obtains v where "vtrecv_execute vtrecv_callback l (p, sh) = Some (p, v)" "sh_ok v" "ed_rep (sh_editor v) (b @ l) []"
    "sh_history v = sh_history sh" "sh_calls v = sh_calls sh"
  using assms(2-)
proof (induction l arbitrary: sh b thesis)
  case Nil
  then show ?case by simp
next
  case (Cons c l)
  have c: "0x20 \<le> c" "c \<le> 0x7E" "c \<noteq> 0"
    using Cons.prems(4) [of c] by auto
  obtain w where w: "actfunc_insert c sh = Some w" "sh_ok w" "ed_rep (sh_editor w) (b @ [c]) []" "sh_history w = sh_history sh"
      "sh_calls w = sh_calls sh"
    by (rule actfunc_insert_end [OF Cons.prems(2,3) c(3)]) (use Cons.prems(5) in simp)
  have "do_state_change vtrecv_callback (next_change p c) c (p, sh) = Some (p, w)"
    using ground_print [OF assms(1) c(1,2)] w(1) by (simp add: change_simps vtrecv_callback_def)
  then have step: "vtrecv_execute vtrecv_callback (c # l) (p, sh) = vtrecv_execute vtrecv_callback l (p, w)"
    by (simp only: vtrecv_execute_Cons) simp
  obtain v where "vtrecv_execute vtrecv_callback l (p, w) = Some (p, v)" "sh_ok v" "ed_rep (sh_editor v) ((b @ [c]) @ l) []"
      "sh_history v = sh_history w" "sh_calls v = sh_calls w"
    by (rule Cons.IH [OF _ w(2,3)]) (use Cons.prems(4,5) in auto)
  then show ?case
    using Cons.prems(1) [of v] w(4,5) by (simp only: step) simp
qed

lemma actfunc_enter_line:
  assumes "sh_ok sh" "ed_rep (sh_editor sh) b []"
  obtains v t where "actfunc_enter sh = Some v" "sh_calls v = sh_calls sh @ [t]" "length t = 64" "terminated t" "c_string t = b"
    "ed_rep (sh_editor v) [] []" "text_history_write (sh_history sh) t = Some (of_bool (b \<noteq> []), sh_history v)"
proof -
  obtain t where t: "text_editor_get_text (sh_editor sh) (sh_local sh) 64 = Some (int (length b + length ([] :: u8 list)), t)"
      "length t = 64" "terminated t" "c_string t = b @ []"
    by (rule get_text_shell [OF assms(2) sh_ok_fields(3) [OF assms(1)]])
  obtain e where e: "text_editor_clear (sh_editor sh) = Some e" "ed_rep e [] []"
    using text_editor_clear_rep [OF sh_ok_fields(5) [OF assms(1)]] by blast
  obtain h where h: "text_history_write (sh_history sh) t = Some (of_bool (b \<noteq> []), h)"
  proof (cases "b = []")
    case True
    then have "t \<noteq> []" "t ! 0 = 0"
      using t(3,4) by (cases t; auto simp: c_string_Cons split: if_splits)+
    then show ?thesis
      using that True by (simp add: text_history_write_def arr_get_def)
  next
    case False
    then show ?thesis
      using text_history_write_rows [OF sh_ok_fields(1) [OF assms(1)] t(3)] c_string_length_less [OF t(3)] t(2,4) that
      by (metis append_Nil2 of_bool_eq(2))
  qed
  let ?sh = "sh\<lparr>sh_editor := e, sh_history := h\<rparr>"
  obtain w where w: "PROMPT_NEWLINE ?sh = Some (?sh\<lparr>sh_out := w\<rparr>)"
    using PROMPT_NEWLINE_ok by blast
  let ?sh' = "?sh\<lparr>sh_out := w, sh_calls := sh_calls sh @ [t]\<rparr>"
  obtain x where x: "PROMPT_WRITE ?sh' = Some (?sh'\<lparr>sh_out := x\<rparr>)"
    using PROMPT_WRITE_ok [of ?sh'] sh_ok_fields(2) [OF assms(1)] by auto
  have "actfunc_enter sh = Some (?sh'\<lparr>sh_out := x\<rparr>)"
    using t(1) e(1) h w x by (simp add: actfunc_enter_def)
  then show ?thesis
    using that [of "?sh'\<lparr>sh_out := x\<rparr>" t] t(2-4) e(2) h by simp
qed

text \<open>
  C24. A line of at most 63 printable characters followed by the enter key reaches the command
  callback exactly once and unchanged, splitting it gives exactly its words, the editor is empty
  again, and a line that is not empty is the newest one of the history.
\<close>

theorem ntshell_command_line:
  assumes "vt_state p = VTRECV_STATE_GROUND" "sh_ok sh" "ed_rep (sh_editor sh) [] []"
    and "list_all (\<lambda>c. 0x20 \<le> c \<and> c \<le> 0x7E) l" "length l < TEXTEDITOR_MAXLEN" "length argv = NTOPT_TEXT_MAXLEN"
  shows "\<exists>v t ps buf. ntshell_loop (l @ [0x0D]) (p, sh) = Some (p, v) \<and> sh_calls v = sh_calls sh @ [t] \<and> c_string t = l \<and>
    ntopt_parse t argv = Some (length (words l), map Some ps, buf) \<and> map (\<lambda>i. c_string (drop i buf)) ps = words l \<and>
    ed_rep (sh_editor v) [] [] \<and> (l \<noteq> [] \<longrightarrow> th_line (sh_history v) (th_wp (sh_history sh)) = l)"
proof -
  have printable: "0x20 \<le> c \<and> c \<le> 0x7E" if "c \<in> set l" for c
    using assms(4) that by (simp add: list_all_iff)
  obtain u where u: "vtrecv_execute vtrecv_callback l (p, sh) = Some (p, u)" "sh_ok u" "ed_rep (sh_editor u) l []"
      "sh_history u = sh_history sh" "sh_calls u = sh_calls sh"
    using type_line [OF assms(1-3), of l] printable assms(5) by auto
  obtain v t where v: "actfunc_enter u = Some v" "sh_calls v = sh_calls u @ [t]" "length t = 64" "terminated t" "c_string t = l"
      "ed_rep (sh_editor v) [] []" "text_history_write (sh_history u) t = Some (of_bool (l \<noteq> []), sh_history v)"
    by (rule actfunc_enter_line [OF u(2,3)])
  have "do_state_change vtrecv_callback (next_change p 0x0D) 0x0D (p, u) = Some (p, v)"
    using v(1) by (simp add: ground_enter [OF assms(1)] change_simps vtrecv_callback_def action_table_def)
  then have "vtrecv_execute vtrecv_callback [0x0D] (p, u) = Some (p, v)"
    by (simp only: vtrecv_execute_Cons) simp
  then have run: "ntshell_loop (l @ [0x0D]) (p, sh) = Some (p, v)"
    by (simp only: ntshell_loop_eq vtrecv_execute_append u(1) bind.bind_lunit)
  obtain ps buf where ps: "ntopt_parse t argv = Some (length (words l), map Some ps, buf)" "map (\<lambda>i. c_string (drop i buf)) ps = words l"
    using ntopt_parse_eq [OF v(4) _ assms(6)] v(5) assms(5) by auto
  have "th_line (sh_history v) (th_wp (sh_history sh)) = l" if "l \<noteq> []"
    using text_history_write_rows [OF sh_ok_fields(1) [OF u(2)] v(4)] v(5,7) assms(5) that u(4) th_ok_lengths [OF sh_ok_fields(1) [OF assms(2)]]
    by (metis Pair_inject option.inject)
  then show ?thesis
    using run v(2,5,6) u(5) ps by (intro exI [of _ v] exI [of _ t] exI [of _ ps] exI [of _ buf]) simp
qed

lemma demo_shell_init:
  "\<exists>q v. ntshell_init (demo_vt, demo_shell) = Some (q, v) \<and> vt_state q = VTRECV_STATE_GROUND \<and> sh_ok v \<and>
    ed_rep (sh_editor v) [] [] \<and> sh_calls v = []"
  by (rule ntshell_init_ok [OF demo_shell_lengths]) (auto simp: demo_shell_def)

theorem ntshell_command_line_witness:
  "\<exists>q w v t. ntshell_init (demo_vt, demo_shell) = Some (q, w) \<and>
    ntshell_loop ([0x6C, 0x73, 0x20, 0x2F] @ [0x0D]) (q, w) = Some (q, v) \<and> sh_calls v = [t] \<and>
    c_string t = [0x6C, 0x73, 0x20, 0x2F]"
proof -
  obtain q w where w: "ntshell_init (demo_vt, demo_shell) = Some (q, w)" "vt_state q = VTRECV_STATE_GROUND" "sh_ok w"
      "ed_rep (sh_editor w) [] []" "sh_calls w = []"
    using demo_shell_init by blast
  obtain v t where "ntshell_loop ([0x6C, 0x73, 0x20, 0x2F] @ [0x0D]) (q, w) = Some (q, v)" "sh_calls v = sh_calls w @ [t]"
      "c_string t = [0x6C, 0x73, 0x20, 0x2F]"
    using ntshell_command_line [OF w(2-4), of "[0x6C, 0x73, 0x20, 0x2F]" "replicate 64 0"] by auto
  then show ?thesis
    using w(1,5) by auto
qed

end
