(* ===== verification/Ihex.thy ===== *)
theory Ihex
  imports Nt_Libc
begin

text \<open>
  The Intel HEX loader: the reader \<open>middleware/ihex/kk_ihex_read.c\<close> (with the data structures of
  \<open>kk_ihex.h\<close>, segments disabled as that header configures it), its client
  \<open>middleware/ihex/ihex_load.c\<close>, and the line input \<open>f_gets\<close> of
  \<open>middleware/fatfs/source/ff.c\<close> that the client reads a file with.

  The state is the global \<open>ihex\<close> of \<open>ihex_load.c\<close>, extended with the memory the image is loaded
  into. The loader's own variables are fields of the record and not bytes of that memory: an image
  that overwrites the loader while it runs is outside the model. A file is the list of the bytes
  that \<open>f_read\<close> still delivers. \<open>uint_fast8_t\<close> has 32 bits on the ARC. An error code read
  from an uninitialised variable is \<open>None\<close>.
\<close>

unbundle bit_operations_syntax

section \<open>State\<close>

datatype ihex_err = IHEX_END | IHEX_NO_ERR | IHEX_CHECKSUM_ERR | IHEX_LINE_LENGTH_ERR
  | IHEX_LENE_TOO_LONG | IHEX_LINE_TOO_LONG | IHEX_UNKNOW_RECORD | IHEX_NO_FILE

datatype ihex_source = IHEX_SD_CARD | IHEX_UART | IHEX_WIFI

record ihex_state =
  ih_address :: u32
  ih_flags :: u8
  ih_line_length :: u8
  ih_length :: u8
  ih_data :: "u8 list"

record ihex_sys = ihex_state +
  ih_memory :: mem

abbreviation (input) IHEX_DATA_RECORD :: u32 where "IHEX_DATA_RECORD \<equiv> 0"
abbreviation (input) IHEX_END_OF_FILE_RECORD :: u32 where "IHEX_END_OF_FILE_RECORD \<equiv> 1"
abbreviation (input) IHEX_EXTENDED_LINEAR_ADDRESS_RECORD :: u32 where
  "IHEX_EXTENDED_LINEAR_ADDRESS_RECORD \<equiv> 4"

abbreviation (input) IHEX_START :: u32 where "IHEX_START \<equiv> 0x3A"
abbreviation (input) ADDRESS_HIGH_MASK :: u32 where "ADDRESS_HIGH_MASK \<equiv> 0xFFFF0000"

abbreviation (input) READ_WAIT_FOR_START :: u32 where "READ_WAIT_FOR_START \<equiv> 0"
abbreviation (input) READ_COUNT_HIGH :: u32 where "READ_COUNT_HIGH \<equiv> 1"
abbreviation (input) READ_COUNT_LOW :: u32 where "READ_COUNT_LOW \<equiv> 2"
abbreviation (input) READ_ADDRESS_MSB_LOW :: u32 where "READ_ADDRESS_MSB_LOW \<equiv> 4"
abbreviation (input) READ_ADDRESS_LSB_LOW :: u32 where "READ_ADDRESS_LSB_LOW \<equiv> 6"
abbreviation (input) READ_RECORD_TYPE_LOW :: u32 where "READ_RECORD_TYPE_LOW \<equiv> 8"
abbreviation (input) READ_DATA_HIGH :: u32 where "READ_DATA_HIGH \<equiv> 9"
abbreviation (input) READ_DATA_LOW :: u32 where "READ_DATA_LOW \<equiv> 10"

abbreviation (input) IHEX_READ_RECORD_TYPE_MASK :: u32 where "IHEX_READ_RECORD_TYPE_MASK \<equiv> 0x07"
abbreviation (input) IHEX_READ_STATE_MASK :: u32 where "IHEX_READ_STATE_MASK \<equiv> 0x78"
abbreviation (input) IHEX_READ_STATE_OFFSET :: nat where "IHEX_READ_STATE_OFFSET \<equiv> 3"

section \<open>Reader\<close>

definition ihex_begin_read :: "ihex_sys \<Rightarrow> ihex_sys" where
  "ihex_begin_read h = h\<lparr>ih_address := 0, ih_flags := 0, ih_line_length := 0, ih_length := 0\<rparr>"

definition ihex_read_at_address :: "u32 \<Rightarrow> ihex_sys \<Rightarrow> ihex_sys" where
  "ihex_read_at_address address h = (ihex_begin_read h)\<lparr>ih_address := address\<rparr>"

text \<open>The \<open>memcpy\<close> of \<open>ihex_data_read\<close> out of the array \<open>data\<close> to an address of the image.\<close>

fun mem_put :: "mem \<Rightarrow> u32 \<Rightarrow> u8 list \<Rightarrow> mem" where
  "mem_put m a [] = m"
| "mem_put m a (b # bs) = mem_put (m(a := b)) (a + 1) bs"

definition ihex_data_read :: "u8 \<Rightarrow> u8 \<Rightarrow> ihex_sys \<Rightarrow> ihex_err \<times> ihex_sys" where
  "ihex_data_read type error h =
     (if error \<noteq> 0 then (IHEX_CHECKSUM_ERR, h)
      else if ih_length h < ih_line_length h then (IHEX_LINE_LENGTH_ERR, h)
      else if ucast type = IHEX_DATA_RECORD
      then (IHEX_NO_ERR,
        h\<lparr>ih_memory := mem_put (ih_memory h) (ih_address h) (take (unat (ih_length h)) (ih_data h))\<rparr>)
      else if ucast type = IHEX_END_OF_FILE_RECORD then (IHEX_END, h)
      else (IHEX_NO_ERR, h))"

definition ihex_end_read :: "ihex_sys \<Rightarrow> ihex_err \<times> ihex_sys" where
  "ihex_end_read h =
     (let type = ucast (ih_flags h) AND IHEX_READ_RECORD_TYPE_MASK;
          sum = ucast (ih_length h)
      in if sum = 0 \<and> type = IHEX_DATA_RECORD then (IHEX_NO_ERR, h)
      else
        let eptr = unat sum;
            sum = sum + (type + (ih_address h AND 0xFF) + (drop_bit 8 (ih_address h) AND 0xFF));
            sum = foldl (\<lambda>sum r. sum + ucast r) sum (take eptr (ih_data h));
            sum = (NOT sum + 1) XOR ucast (ih_data h ! eptr);
            (err, h) = ihex_data_read (ucast type) (ucast sum) h;
            h = (if err = IHEX_NO_ERR \<and> type = IHEX_EXTENDED_LINEAR_ADDRESS_RECORD
                 then h\<lparr>ih_address := (ih_address h AND 0xFFFF) OR
                   (push_bit 24 (ucast (ih_data h ! 0)) OR push_bit 16 (ucast (ih_data h ! 1)))\<rparr>
                 else h)
        in (err, h\<lparr>ih_length := 0, ih_flags := 0\<rparr>))"

text \<open>The value of a hexadecimal digit, as the first three branches of \<open>ihex_read_byte\<close> compute it.\<close>

definition ihex_digit :: "u32 \<Rightarrow> u32 option" where
  "ihex_digit b =
     (if 0x30 \<le> b \<and> b \<le> 0x39 then Some (b - 0x30)
      else if 0x41 \<le> b \<and> b \<le> 0x46 then Some (b - (0x41 - 10))
      else if 0x61 \<le> b \<and> b \<le> 0x66 then Some (b - (0x61 - 10))
      else None)"

text \<open>The end of \<open>ihex_read_byte\<close> from the label \<open>save_read_state\<close> on.\<close>

definition save_read_state :: "u32 \<Rightarrow> ihex_err \<times> ihex_sys \<Rightarrow> ihex_err \<times> ihex_sys" where
  "save_read_state state r =
     (case r of (err, h) \<Rightarrow>
        (err, h\<lparr>ih_flags := ih_flags h OR ucast (push_bit IHEX_READ_STATE_OFFSET state)\<rparr>))"

text \<open>The \<open>switch\<close> over the state after a low nibble that completed the byte \<open>b\<close>.\<close>

definition ihex_low_nibble :: "u32 \<Rightarrow> u8 \<Rightarrow> ihex_sys \<Rightarrow> ihex_err \<times> ihex_sys" where
  "ihex_low_nibble state b h =
     (let s = drop_bit 1 state
      in if s = drop_bit 1 READ_COUNT_LOW
         then save_read_state state (IHEX_NO_ERR, h\<lparr>ih_line_length := b\<rparr>)
      else if s = drop_bit 1 READ_ADDRESS_MSB_LOW
         then save_read_state state (IHEX_NO_ERR,
           h\<lparr>ih_address := (ih_address h AND ADDRESS_HIGH_MASK) OR push_bit 8 (ucast b)\<rparr>)
      else if s = drop_bit 1 READ_ADDRESS_LSB_LOW
         then save_read_state state (IHEX_NO_ERR, h\<lparr>ih_address := ih_address h OR ucast b\<rparr>)
      else if s = drop_bit 1 READ_RECORD_TYPE_LOW
         then if (ucast b :: u32) AND NOT IHEX_READ_RECORD_TYPE_MASK \<noteq> 0
           then (IHEX_UNKNOW_RECORD, h)
           else save_read_state state (IHEX_NO_ERR,
             h\<lparr>ih_flags := ucast ((ucast (ih_flags h) AND NOT IHEX_READ_RECORD_TYPE_MASK) OR (ucast b :: u32))\<rparr>)
      else if s = drop_bit 1 READ_DATA_LOW
         then if ih_length h < ih_line_length h
           then save_read_state READ_DATA_HIGH (IHEX_NO_ERR, h\<lparr>ih_length := ih_length h + 1\<rparr>)
           else save_read_state READ_WAIT_FOR_START (ihex_end_read h)
      else (IHEX_NO_ERR, h))"

definition ihex_read_byte :: "u8 \<Rightarrow> ihex_sys \<Rightarrow> ihex_err \<times> ihex_sys" where
  "ihex_read_byte byte h =
     (let b = ucast byte;
          len = unat (ih_length h);
          state = ucast (ih_flags h) AND IHEX_READ_STATE_MASK;
          h = h\<lparr>ih_flags := ih_flags h XOR ucast state\<rparr>;
          state = drop_bit IHEX_READ_STATE_OFFSET state
      in case ihex_digit b of
        None \<Rightarrow>
          if b = IHEX_START then save_read_state READ_COUNT_HIGH (ihex_end_read h)
          else save_read_state state (IHEX_NO_ERR, h)
      | Some b \<Rightarrow>
          let state = state + 1
          in if state AND 1 = 0
             then save_read_state state
               (IHEX_NO_ERR, h\<lparr>ih_data := (ih_data h)[len := ucast (push_bit 4 b)]\<rparr>)
             else let b = ih_data h ! len OR ucast b
               in ihex_low_nibble state b (h\<lparr>ih_data := (ih_data h)[len := b]\<rparr>))"

text \<open>The bytes are the \<open>count\<close> bytes at \<open>data\<close>; without any, \<open>err\<close> is returned uninitialised.\<close>

fun ihex_read_loop :: "ihex_err option \<Rightarrow> u8 list \<Rightarrow> ihex_sys \<Rightarrow> ihex_err option \<times> ihex_sys" where
  "ihex_read_loop err [] h = (err, h)"
| "ihex_read_loop err (c # cs) h =
     (case ihex_read_byte c h of (e, h) \<Rightarrow>
        if e \<noteq> IHEX_NO_ERR then (Some e, h) else ihex_read_loop (Some e) cs h)"

definition ihex_read_bytes :: "u8 list \<Rightarrow> ihex_sys \<Rightarrow> ihex_err option \<times> ihex_sys" where
  "ihex_read_bytes cs h = ihex_read_loop None cs h"

section \<open>Line input\<close>

fun f_gets_loop :: "nat \<Rightarrow> u8 list \<Rightarrow> u8 list \<times> u8 list" where
  "f_gets_loop 0 fp = ([], fp)"
| "f_gets_loop (Suc n) [] = ([], [])"
| "f_gets_loop (Suc n) (dc # fp) =
     (if dc = 0x0D then f_gets_loop (Suc n) fp
      else if dc = 0x0A then ([dc], fp)
      else case f_gets_loop n fp of (p, fp) \<Rightarrow> (dc # p, fp))"

definition f_gets :: "nat \<Rightarrow> u8 list \<Rightarrow> u8 list option \<times> u8 list" where
  "f_gets len fp = (case f_gets_loop (len - 1) fp of (p, fp) \<Rightarrow>
     (if p = [] then None else Some (p @ [0]), fp))"

lemma f_gets_loop_line:
  assumes "f_gets_loop n fp = (p, r)"
  shows "filter (\<lambda>c. c \<noteq> 0x0D) fp = p @ filter (\<lambda>c. c \<noteq> 0x0D) r \<and> length p + length r \<le> length fp
    \<and> (0 < n \<and> p = [] \<longrightarrow> r = [])"
  using assms
proof (induction n fp arbitrary: p r rule: f_gets_loop.induct)
  case (3 n dc fp)
  obtain q r' where "f_gets_loop n fp = (q, r')"
    by (cases "f_gets_loop n fp")
  moreover obtain q2 r2 where "f_gets_loop (Suc n) fp = (q2, r2)"
    by (cases "f_gets_loop (Suc n) fp")
  ultimately show ?case
    using "3.IH" "3.prems" by (auto split: if_splits)
qed auto

lemma f_gets_Some:
  assumes "f_gets len fp = (Some buf, r)"
  shows "\<exists>p. buf = p @ [0] \<and> p \<noteq> [] \<and> filter (\<lambda>c. c \<noteq> 0x0D) fp = p @ filter (\<lambda>c. c \<noteq> 0x0D) r
    \<and> length r < length fp"
proof -
  obtain p where p: "f_gets_loop (len - 1) fp = (p, r)" "buf = p @ [0]" "p \<noteq> []"
    using assms by (auto simp: f_gets_def split: prod.splits if_splits)
  then show ?thesis
    using f_gets_loop_line [OF p(1)] by (cases p) auto
qed

lemma f_gets_None: "f_gets len fp = (None, r) \<Longrightarrow> 1 < len \<Longrightarrow> filter (\<lambda>c. c \<noteq> 0x0D) fp = []"
  by (auto simp: f_gets_def split: prod.splits if_splits dest!: f_gets_loop_line)

section \<open>Loader\<close>

definition ihex_start :: "ihex_sys \<Rightarrow> ihex_sys" where
  "ihex_start h = ihex_read_at_address 0 h"

function ihex_load_lines :: "ihex_err option \<Rightarrow> u8 list \<Rightarrow> ihex_sys \<Rightarrow> ihex_err option \<times> ihex_sys" where
  "ihex_load_lines err infile h =
     (case f_gets 256 infile of
        (None, _) \<Rightarrow> (err, h)
      | (Some buf, infile) \<Rightarrow>
          (case ihex_read_bytes (c_string buf) h of
             (None, h) \<Rightarrow> (None, h)
           | (Some err, h) \<Rightarrow>
               if err \<noteq> IHEX_NO_ERR then (Some err, h) else ihex_load_lines (Some err) infile h))"
  by pat_completeness auto
termination
  by (relation "measure (\<lambda>(_, infile, _). length infile)")
    (auto dest: f_gets_Some [OF sym])

declare ihex_load_lines.simps [simp del]

text \<open>The argument is the file that \<open>f_open\<close> finds, if any, or the text at \<open>ptr\<close>.\<close>

definition ihex_load :: "ihex_source \<Rightarrow> u8 list option \<Rightarrow> ihex_sys \<Rightarrow> ihex_err option \<times> ihex_sys" where
  "ihex_load type ptr h =
     (case type of
        IHEX_SD_CARD \<Rightarrow>
          (case ptr of
             None \<Rightarrow> (Some IHEX_NO_FILE, h)
           | Some infile \<Rightarrow> ihex_load_lines (Some IHEX_NO_FILE) infile h)
      | IHEX_UART \<Rightarrow>
          (case ptr of
             None \<Rightarrow> (None, h)
           | Some text \<Rightarrow> ihex_read_bytes (c_string text) h)
      | IHEX_WIFI \<Rightarrow> (Some IHEX_NO_FILE, h))"

section \<open>Reading a file in lines\<close>

text \<open>
  The lines and the pieces of at most 255 characters that \<open>f_gets\<close> cuts a file into make no
  difference: a file without NUL bytes is read as if it came in one piece, without its carriage
  returns.
\<close>

lemma ihex_read_loop_append:
  "ihex_read_loop err (as @ bs) h =
     (case ihex_read_loop err as h of (r, h') \<Rightarrow>
        if as = [] \<or> r = Some IHEX_NO_ERR then ihex_read_loop r bs h' else (r, h'))"
proof (induction as arbitrary: err h)
  case (Cons c cs)
  then show ?case
    by (cases cs) (auto split: prod.splits)
qed simp

lemma ihex_read_loop_init: "cs \<noteq> [] \<Longrightarrow> ihex_read_loop err cs h = ihex_read_bytes cs h"
  by (cases cs) (simp_all add: ihex_read_bytes_def)

lemma ihex_read_loop_Some: "ihex_read_loop (Some e) cs h = (r, h') \<Longrightarrow> r \<noteq> None"
  by (induction cs arbitrary: e h) (auto split: prod.splits if_splits)

lemma ihex_load_lines_eq:
  "0 \<notin> set infile \<Longrightarrow> ihex_load_lines err infile h = ihex_read_loop err (filter (\<lambda>c. c \<noteq> 0x0D) infile) h"
proof (induction err infile h rule: ihex_load_lines.induct)
  case (1 err infile h)
  show ?case
  proof (cases "f_gets 256 infile")
    case (Pair line r)
    show ?thesis
    proof (cases line)
      case None
      then show ?thesis
        using Pair f_gets_None [of 256 infile r] by (simp add: ihex_load_lines.simps)
    next
      case (Some buf)
      then obtain p where p: "buf = p @ [0]" "p \<noteq> []"
          "filter (\<lambda>c. c \<noteq> 0x0D) infile = p @ filter (\<lambda>c. c \<noteq> 0x0D) r"
        using f_gets_Some [of 256 infile buf r] Pair by auto
      have sub: "set p \<union> set (filter (\<lambda>c. c \<noteq> 0x0D) r) \<subseteq> set infile"
        using arg_cong [OF p(3), of set] by auto
      then have nul: "0 \<notin> set p" "0 \<notin> set r"
        using "1.prems" by auto
      obtain e h' where e: "ihex_read_bytes p h = (e, h')"
        by (cases "ihex_read_bytes p h")
      then have "e \<noteq> None"
        using p(2) by (cases p) (auto simp: ihex_read_bytes_def split: prod.splits if_splits dest: ihex_read_loop_Some)
      then show ?thesis
        using "1.IH" [OF Pair [symmetric], OF Some] Pair Some p nul e
        by (cases "e = Some IHEX_NO_ERR")
          (auto simp: ihex_load_lines.simps [of err infile h] ihex_read_loop_append ihex_read_loop_init
            split: if_splits)
    qed
  qed
qed

section \<open>The format\<close>

text \<open>
  A record of the format is a type, a 16-bit load offset and its data; its text is a colon, then
  the number of data bytes, the offset, the type, the data and the two's complement of the sum of
  all these bytes, each byte in two hexadecimal digits. An image is loaded by storing the data of
  each data record at its offset in the 64K page that the last extended linear address record
  selected; the other types have no effect.
\<close>

datatype ihex_record = Ihex_Record (rec_type: u8) (rec_offset: u16) (rec_data: "u8 list")

definition ihex_record_ok :: "ihex_record \<Rightarrow> bool" where
  "ihex_record_ok r \<longleftrightarrow> rec_type r < 8 \<and> rec_type r \<noteq> 1 \<and> length (rec_data r) \<le> 255 \<and>
     (rec_type r = 4 \<longrightarrow> length (rec_data r) = 2)"

definition record_bytes :: "ihex_record \<Rightarrow> u8 list" where
  "record_bytes r =
     [of_nat (length (rec_data r)), ucast (drop_bit 8 (rec_offset r)), ucast (rec_offset r), rec_type r] @ rec_data r"

definition hex_digit :: "u8 \<Rightarrow> u8" where
  "hex_digit n = (if n < 10 then 0x30 + n else 0x37 + n)"

definition hex_byte :: "u8 \<Rightarrow> u8 list" where
  "hex_byte b = [hex_digit (drop_bit 4 b), hex_digit (b AND 15)]"

definition hex_record :: "ihex_record \<Rightarrow> u8 \<Rightarrow> u8 list" where
  "hex_record r checksum = 0x3A # concat (map hex_byte (record_bytes r @ [checksum]))"

definition record_checksum :: "ihex_record \<Rightarrow> u8" where
  "record_checksum r = - sum_list (record_bytes r)"

definition hex_text :: "u8 list \<Rightarrow> ihex_record list \<Rightarrow> u8 list" where
  "hex_text eol rs = concat (map (\<lambda>r. hex_record r (record_checksum r) @ eol) rs)"

definition end_of_file_record :: ihex_record where
  "end_of_file_record = Ihex_Record 1 0 []"

definition store_bytes :: "mem \<Rightarrow> u32 \<Rightarrow> u8 list \<Rightarrow> mem" where
  "store_bytes m a bs = (\<lambda>x. if unat (x - a) < length bs then bs ! unat (x - a) else m x)"

definition linear_address :: "u16 \<Rightarrow> u16 \<Rightarrow> u32" where
  "linear_address page offset = push_bit 16 (ucast page) OR ucast offset"

fun load_image :: "ihex_record list \<Rightarrow> u16 \<Rightarrow> mem \<Rightarrow> mem" where
  "load_image [] page m = m"
| "load_image (Ihex_Record t a bs # rs) page m =
     (if t = 0 then load_image rs page (store_bytes m (linear_address page a) bs)
      else if t = 4 then load_image rs (push_bit 8 (ucast (bs ! 0)) OR ucast (bs ! 1)) m
      else load_image rs page m)"

section \<open>Reading a record\<close>

lemma mem_put_store: "length bs < 2 ^ 32 \<Longrightarrow> mem_put m a bs = store_bytes m a bs"
proof (induction bs arbitrary: m a)
  case Nil
  then show ?case by (simp add: store_bytes_def)
next
  case (Cons b bs)
  have "store_bytes (m(a := b)) (a + 1) bs x = store_bytes m a (b # bs) x" for x
  proof (cases "x = a")
    case True
    have "unat (- 1 :: u32) = 2 ^ 32 - 1" by (simp add: unsigned_minus_1_eq_mask mask_eq_exp_minus_1)
    then show ?thesis using True Cons.prems by (simp add: store_bytes_def)
  next
    case False
    then have "x - a \<noteq> 0" "0 < unat (x - a)"
      by (simp_all add: unat_gt_0)
    then have "unat (x - a) = Suc (unat (x - (a + 1)))"
      using unat_minus_one [of "x - a"] by (simp add: diff_diff_eq)
    then show ?thesis using False by (simp add: store_bytes_def)
  qed
  then show ?case using Cons by (simp add: fun_eq_iff)
qed

lemma and_15: "(b :: u8) AND 15 = take_bit 4 b"
  by (simp add: take_bit_eq_mask mask_eq_exp_minus_1)

lemma nibble_less: "drop_bit 4 (b :: u8) < 16" "(b :: u8) AND 15 < 16"
proof -
  have "unat b < 2 ^ LENGTH(8)"
    by (rule unsigned_less)
  then have "unat (drop_bit 4 b) < 16"
    by (simp add: drop_bit_eq_div unat_div)
  then show "drop_bit 4 b < 16"
    by (simp add: word_less_nat_alt)
  have "unat (b AND 15) < 2 ^ 4"
    unfolding and_15 unsigned_take_bit_eq by (rule take_bit_nat_less_exp)
  then show "b AND 15 < 16"
    by (simp add: word_less_nat_alt)
qed

lemma nibble_cases: "n < 16 \<Longrightarrow> n \<in> {0, 1, 2, 3, 4, 5, 6, 7, 8, 9, 10, 11, 12, 13, 14, 15 :: u8}"
proof -
  assume "n < 16"
  then have "n \<in> of_nat ` {..<16}"
    by (auto simp: word_less_nat_alt intro: image_eqI [of _ _ "unat n"])
  then show ?thesis
    by (simp add: lessThan_nat_numeral lessThan_Suc) blast
qed

lemma ihex_digit_hex: "n < 16 \<Longrightarrow> ihex_digit (ucast (hex_digit n)) = Some (ucast n)"
  using nibble_cases [of n] by (auto simp: hex_digit_def ihex_digit_def)

lemma nibbles_byte:
  "ucast (push_bit 4 (ucast (drop_bit 4 b) :: u32)) OR ucast (ucast (b AND 15) :: u32) = (b :: u8)"
  unfolding and_15 by (auto intro!: bit_word_eqI simp: bit_simps)

text \<open>
  The flags while a byte is expected: the state and, in the data part, the record type. Two digits
  put the byte at the end of the data and run the \<open>switch\<close>.
\<close>

abbreviation byte_flags :: "u8 set" where
  "byte_flags \<equiv> {0x08, 0x18, 0x28, 0x38, 0x48, 0x49, 0x4A, 0x4B, 0x4C, 0x4D, 0x4E, 0x4F}"

lemma read_hex_byte:
  assumes "ih_flags h \<in> byte_flags" and "unat (ih_length h) < length (ih_data h)"
  shows "ihex_read_loop err (hex_byte b @ cs) h =
    (case ihex_low_nibble (drop_bit 3 (ucast (ih_flags h)) + 2) b
         (h\<lparr>ih_flags := ih_flags h AND 7, ih_data := (ih_data h)[unat (ih_length h) := b]\<rparr>) of
       (e, h) \<Rightarrow> if e \<noteq> IHEX_NO_ERR then (Some e, h) else ihex_read_loop (Some e) cs h)"
proof -
  have "ihex_digit (ucast (hex_digit (drop_bit 4 b))) = Some (ucast (drop_bit 4 b))"
    "ihex_digit (ucast (hex_digit (b AND 15))) = Some (ucast (b AND 15))"
    by (simp_all add: ihex_digit_hex nibble_less)
  then show ?thesis
    using assms nibbles_byte [of b]
    by (auto simp: hex_byte_def ihex_read_byte_def save_read_state_def Let_def)
qed

definition idle :: "ihex_sys \<Rightarrow> bool" where
  "idle h \<longleftrightarrow> ih_flags h = 0 \<and> ih_length h = 0 \<and> length (ih_data h) = 256"

lemma ucast_byte: "ucast (ucast (c :: u8) :: u32) = c"
  by (auto intro!: bit_word_eqI simp: bit_simps)

lemma ucast_eq_58: "(ucast (c :: u8) :: u32) = 0x3A \<Longrightarrow> c = 0x3A"
  using ucast_byte [of c] by simp

lemma read_junk:
  assumes "idle h" and "c \<noteq> 0x3A"
  shows "\<exists>d. ihex_read_byte c h = (IHEX_NO_ERR, h\<lparr>ih_data := d\<rparr>) \<and> length d = 256"
proof -
  have "(ucast c :: u32) \<noteq> 0x3A"
    using assms(2) by (metis ucast_eq_58)
  then show ?thesis
    using assms(1)
    by (cases h) (auto simp: idle_def ihex_read_byte_def save_read_state_def ihex_low_nibble_def Let_def
        split: option.splits)
qed

lemma type_cases: "t < 8 \<Longrightarrow> t \<in> {0, 1, 2, 3, 4, 5, 6, 7 :: u8}"
proof -
  assume "t < 8"
  then have "t \<in> of_nat ` {..<8}"
    by (auto simp: word_less_nat_alt intro: image_eqI [of _ _ "unat t"])
  then show ?thesis
    by (simp add: lessThan_nat_numeral lessThan_Suc) blast
qed

lemma address_bytes:
  fixes a :: u16
  shows "push_bit 8 (ucast (ucast (drop_bit 8 a) :: u8)) OR ucast (ucast a :: u8) = (ucast a :: u32)"
proof (rule bit_word_eqI)
  fix n
  have "bit a n \<Longrightarrow> n < 16"
    using bit_imp_le_length [of a n] by simp
  then show "bit (push_bit 8 (ucast (ucast (drop_bit 8 a) :: u8)) OR ucast (ucast a :: u8) :: u32) n = bit (ucast a :: u32) n"
    by (auto simp: bit_simps)
qed

text \<open>The four header bytes, each with the data still empty.\<close>

lemma read_header_bytes:
  assumes "ih_length h = 0" and "length (ih_data h) = 256"
  shows "ih_flags h = 0x08 \<Longrightarrow> ihex_read_loop err (hex_byte b @ cs) h =
      ihex_read_loop (Some IHEX_NO_ERR) cs (h\<lparr>ih_data := (ih_data h)[0 := b], ih_line_length := b, ih_flags := 0x18\<rparr>)"
    and "ih_flags h = 0x18 \<Longrightarrow> ihex_read_loop err (hex_byte b @ cs) h =
      ihex_read_loop (Some IHEX_NO_ERR) cs (h\<lparr>ih_data := (ih_data h)[0 := b],
        ih_address := (ih_address h AND 0xFFFF0000) OR push_bit 8 (ucast b), ih_flags := 0x28\<rparr>)"
    and "ih_flags h = 0x28 \<Longrightarrow> ihex_read_loop err (hex_byte b @ cs) h =
      ihex_read_loop (Some IHEX_NO_ERR) cs (h\<lparr>ih_data := (ih_data h)[0 := b],
        ih_address := ih_address h OR ucast b, ih_flags := 0x38\<rparr>)"
    and "ih_flags h = 0x38 \<Longrightarrow> b < 8 \<Longrightarrow> ihex_read_loop err (hex_byte b @ cs) h =
      ihex_read_loop (Some IHEX_NO_ERR) cs (h\<lparr>ih_data := (ih_data h)[0 := b], ih_flags := 0x48 OR b\<rparr>)"
  using assms by (simp_all add: read_hex_byte ihex_low_nibble_def save_read_state_def)
    (use type_cases [of b] in \<open>auto\<close>)

lemma read_header:
  fixes a :: u16
  assumes "idle h" and "t < 8"
  shows "ihex_read_loop err (0x3A # hex_byte n @ hex_byte (ucast (drop_bit 8 a)) @ hex_byte (ucast a) @ hex_byte t @ cs) h =
    ihex_read_loop (Some IHEX_NO_ERR) cs
      (h\<lparr>ih_line_length := n, ih_address := (ih_address h AND 0xFFFF0000) OR ucast a,
         ih_data := (ih_data h)[0 := t], ih_flags := 0x48 OR t\<rparr>)"
proof -
  have start: "ihex_read_byte 0x3A h = (IHEX_NO_ERR, h\<lparr>ih_flags := 0x08\<rparr>)"
    using assms(1)
    by (simp add: idle_def ihex_read_byte_def ihex_digit_def ihex_end_read_def save_read_state_def Let_def)
  show ?thesis
    using assms by (simp add: start idle_def read_header_bytes or.assoc address_bytes)
qed

lemma data_flags: "t < 8 \<Longrightarrow> 0x48 OR t \<in> byte_flags \<and> (0x48 OR t) AND 7 = t
    \<and> drop_bit 3 (ucast (0x48 OR t) :: u32) = 9"
  using type_cases [of t] by auto

lemma read_data:
  assumes "ih_flags h = 0x48 OR t" and "t < 8" and "length (ih_data h) = 256"
    and "unat (ih_length h) + length bs \<le> unat (ih_line_length h)"
  shows "ihex_read_loop (Some IHEX_NO_ERR) (concat (map hex_byte bs) @ cs) h =
    ihex_read_loop (Some IHEX_NO_ERR) cs
      (h\<lparr>ih_data := take (unat (ih_length h)) (ih_data h) @ bs @ drop (unat (ih_length h) + length bs) (ih_data h),
         ih_length := ih_length h + of_nat (length bs), ih_flags := 0x48 OR t\<rparr>)"
  using assms
proof (induction bs arbitrary: h)
  case Nil
  then show ?case by (cases h) simp
next
  case (Cons b bs)
  let ?n = "unat (ih_length h)"
  have n: "?n < unat (ih_line_length h)"
    using Cons.prems(4) by simp
  moreover have "unat (ih_line_length h) < 2 ^ LENGTH(8)"
    by (rule unsigned_less)
  ultimately have len: "ih_length h < ih_line_length h" "unat (ih_length h + 1) = Suc ?n" "?n < 256"
    by (simp_all add: word_less_nat_alt unat_word_ariths)
  let ?h = "h\<lparr>ih_data := (ih_data h)[?n := b], ih_length := ih_length h + 1, ih_flags := 0x48 OR t\<rparr>"
  have "ihex_read_loop (Some IHEX_NO_ERR) (concat (map hex_byte (b # bs)) @ cs) h
      = ihex_read_loop (Some IHEX_NO_ERR) (concat (map hex_byte bs) @ cs) ?h"
    using Cons.prems(1-3) len data_flags [OF Cons.prems(2)]
    by (simp add: read_hex_byte ihex_low_nibble_def save_read_state_def or.commute)
  also have "\<dots> = ihex_read_loop (Some IHEX_NO_ERR) cs
      (?h\<lparr>ih_data := take (Suc ?n) ((ih_data h)[?n := b]) @ bs @ drop (Suc ?n + length bs) ((ih_data h)[?n := b]),
         ih_length := ih_length h + 1 + of_nat (length bs), ih_flags := 0x48 OR t\<rparr>)"
    using Cons.IH [of ?h] Cons.prems len by simp
  finally show ?case
    using len Cons.prems(3) by (simp add: take_Suc_conv_app_nth take_update_cancel ac_simps)
qed

lemma unat_of_length: "length bs \<le> 255 \<Longrightarrow> unat (of_nat (length bs) :: u8) = length bs"
  by (simp add: unat_of_nat)

lemma ucast_add_byte: "(ucast (a + b :: u32) :: u8) = ucast a + ucast b"
proof -
  have "take_bit 8 (take_bit 32 x + take_bit 32 y) = take_bit 8 (x + y)" for x y :: int
    using take_bit_add [of 8 "take_bit 32 x" "take_bit 32 y"] take_bit_add [of 8 x y] by simp
  then show ?thesis
    by transfer simp
qed

lemma foldl_sum: "(ucast (foldl (\<lambda>s r. s + ucast (r :: u8)) (s :: u32) bs) :: u8) = ucast s + sum_list bs"
  by (induction bs arbitrary: s) (simp_all add: ucast_add_byte ucast_byte ac_simps)

lemma checksum_ok:
  "(ucast ((NOT s + 1) XOR ucast (k :: u8) :: u32) :: u8) = 0 \<longleftrightarrow> k = - ucast (s :: u32)"
proof -
  have "(ucast (NOT s + 1) :: u8) = - ucast s"
    by (simp add: ucast_add_byte minus_eq_not_plus_1) (auto intro!: bit_word_eqI simp: bit_simps)
  moreover have "(ucast (x XOR ucast k :: u32) :: u8) = ucast x XOR k" for x
    by (auto intro!: bit_word_eqI simp: bit_simps)
  moreover have "(x XOR k = 0) = (k = x)" for x
    by (metis xor_self_eq xor.assoc xor.right_neutral xor.commute)
  ultimately show ?thesis by simp
qed

lemma address_sum:
  fixes a :: u16
  assumes "x = push_bit 16 page OR ucast a"
  shows "(ucast (x AND 0xFF :: u32) :: u8) = ucast a"
    and "(ucast (drop_bit 8 x AND 0xFF :: u32) :: u8) = ucast (drop_bit 8 a)"
proof -
  have ff: "y AND 0xFF = take_bit 8 y" for y :: u32
    by (simp add: take_bit_eq_mask mask_eq_exp_minus_1)
  show "(ucast (x AND 0xFF :: u32) :: u8) = ucast a"
    unfolding ff assms by (auto intro!: bit_word_eqI simp: bit_simps)
  show "(ucast (drop_bit 8 x AND 0xFF :: u32) :: u8) = ucast (drop_bit 8 a)"
    unfolding ff assms by (auto intro!: bit_word_eqI simp: bit_simps)
qed

lemma end_read_record:
  assumes r: "rec_type r < 8" "length (rec_data r) \<le> 255" "rec_type r \<noteq> 0 \<or> rec_data r \<noteq> []"
    and h: "ih_flags h = rec_type r" "ih_length h = of_nat (length (rec_data r))" "ih_line_length h = ih_length h"
      "ih_address h = push_bit 16 page OR ucast (rec_offset r)"
      "ih_data h = rec_data r @ k # rest"
  shows "ihex_end_read h =
    (if k \<noteq> record_checksum r then (IHEX_CHECKSUM_ERR, h\<lparr>ih_length := 0, ih_flags := 0\<rparr>)
     else if rec_type r = 0
     then (IHEX_NO_ERR, h\<lparr>ih_memory := store_bytes (ih_memory h) (ih_address h) (rec_data r), ih_length := 0, ih_flags := 0\<rparr>)
     else if rec_type r = 1 then (IHEX_END, h\<lparr>ih_length := 0, ih_flags := 0\<rparr>)
     else if rec_type r = 4
     then (IHEX_NO_ERR, h\<lparr>ih_address := (ih_address h AND 0xFFFF) OR
       (push_bit 24 (ucast (ih_data h ! 0)) OR push_bit 16 (ucast (ih_data h ! 1))), ih_length := 0, ih_flags := 0\<rparr>)
     else (IHEX_NO_ERR, h\<lparr>ih_length := 0, ih_flags := 0\<rparr>))"
proof -
  have n: "unat (ih_length h) = length (rec_data r)" "unat (ucast (ih_length h) :: u32) = length (rec_data r)"
    using r(2) h(2) by (simp_all add: unat_of_length unsigned_ucast_eq take_bit_nat_eq_self)
  let ?t = "ucast (ih_flags h) AND 7 :: u32"
  have t: "?t = ucast (rec_type r)" "ucast ?t = rec_type r" "?t = 0 \<longleftrightarrow> rec_type r = 0"
    "?t = 4 \<longleftrightarrow> rec_type r = 4" "(ucast (rec_type r) :: u32) = 1 \<longleftrightarrow> rec_type r = 1"
    "(ucast (rec_type r) :: u32) = 0 \<longleftrightarrow> rec_type r = 0"
    using type_cases [OF r(1)] h(1) by auto
  let ?s = "foldl (\<lambda>s r. s + ucast r)
    (ucast (ih_length h) + (?t + (ih_address h AND 0xFF) + (drop_bit 8 (ih_address h) AND 0xFF)))
    (rec_data r) :: u32"
  have "(ucast ?s :: u8) = sum_list (record_bytes r)"
    using t(2) h(2) address_sum [OF h(4)]
    by (simp add: foldl_sum ucast_add_byte ucast_byte record_bytes_def ac_simps)
  define e where "e = (ucast ((NOT ?s + 1) XOR ucast k) :: u8)"
  have sum: "e = 0 \<longleftrightarrow> k = record_checksum r"
    using \<open>ucast ?s = sum_list (record_bytes r)\<close> by (simp add: e_def checksum_ok record_checksum_def)
  have zero: "(ucast (ih_length h) :: u32) = 0 \<longleftrightarrow> rec_data r = []"
    using n(2) by (metis length_0_conv unat_eq_zero)
  have "ihex_end_read h = (case ihex_data_read (rec_type r) e h of (err, h) \<Rightarrow>
      (err, (if err = IHEX_NO_ERR \<and> rec_type r = 4
             then h\<lparr>ih_address := (ih_address h AND 0xFFFF) OR
               (push_bit 24 (ucast (ih_data h ! 0)) OR push_bit 16 (ucast (ih_data h ! 1)))\<rparr>
             else h)\<lparr>ih_length := 0, ih_flags := 0\<rparr>))"
    using r(3) t(2-4) zero n(2) h(5) by (auto simp: ihex_end_read_def Let_def e_def)
  then show ?thesis
    using sum t(5,6) n(1) h(3,5) r(2) by (simp add: ihex_data_read_def mem_put_store)
qed

lemma high_mask: "(x :: u32) AND 0xFFFF0000 = push_bit 16 (drop_bit 16 x)"
proof (rule bit_word_eqI)
  fix n
  assume n: "n < LENGTH(32)"
  have "(0xFFFF0000 :: u32) = push_bit 16 (mask 16)"
    by (simp add: mask_eq_exp_minus_1)
  moreover have "bit (push_bit 16 (mask 16 :: u32)) n \<longleftrightarrow> 16 \<le> n"
    using n by (simp only: bit_simps) auto
  ultimately have "bit (0xFFFF0000 :: u32) n \<longleftrightarrow> 16 \<le> n"
    by (simp only:)
  then show "bit (x AND 0xFFFF0000) n = bit (push_bit 16 (drop_bit 16 x)) n"
    using n by (auto simp: bit_simps)
qed

definition read_record :: "ihex_record \<Rightarrow> u8 \<Rightarrow> ihex_sys \<Rightarrow> ihex_sys" where
  "read_record r k h = h\<lparr>ih_line_length := of_nat (length (rec_data r)),
     ih_address := (ih_address h AND 0xFFFF0000) OR ucast (rec_offset r),
     ih_data := rec_data r @ k # drop (Suc (length (rec_data r))) (ih_data h)\<rparr>"

lemma read_hex_record:
  assumes "idle h" and r: "rec_type r < 8" "length (rec_data r) \<le> 255"
  shows "ihex_read_loop err (hex_record r k @ cs) h =
    (case ihex_end_read ((read_record r k h)\<lparr>ih_length := of_nat (length (rec_data r)), ih_flags := rec_type r\<rparr>) of
       (e, h') \<Rightarrow> if e \<noteq> IHEX_NO_ERR then (Some e, h') else ihex_read_loop (Some e) cs h')"
proof -
  let ?bs = "rec_data r" and ?t = "rec_type r"
  let ?h1 = "h\<lparr>ih_line_length := of_nat (length ?bs), ih_address := (ih_address h AND 0xFFFF0000) OR ucast (rec_offset r),
    ih_data := (ih_data h)[0 := ?t], ih_flags := 0x48 OR ?t\<rparr>"
  let ?h2 = "?h1\<lparr>ih_data := ?bs @ drop (length ?bs) ((ih_data h)[0 := ?t]),
    ih_length := of_nat (length ?bs), ih_flags := 0x48 OR ?t\<rparr>"
  have h: "length (ih_data h) = 256" "ih_length h = 0"
    using assms(1) by (simp_all add: idle_def)
  have n: "unat (of_nat (length ?bs) :: u8) = length ?bs"
    using r(2) by (rule unat_of_length)
  have "ihex_read_loop err (hex_record r k @ cs) h =
      ihex_read_loop (Some IHEX_NO_ERR) (concat (map hex_byte ?bs) @ hex_byte k @ cs) ?h1"
    using read_header [OF assms(1) r(1), of err "of_nat (length ?bs)" "rec_offset r" "concat (map hex_byte ?bs) @ hex_byte k @ cs"]
    by (simp add: hex_record_def record_bytes_def)
  also have "\<dots> = ihex_read_loop (Some IHEX_NO_ERR) (hex_byte k @ cs) ?h2"
    using read_data [of ?h1 ?t ?bs "hex_byte k @ cs"] r h n by simp
  also have "\<dots> = (case save_read_state 0 (ihex_end_read (?h2\<lparr>ih_flags := ?t, ih_data := (ih_data ?h2)[length ?bs := k]\<rparr>)) of
       (e, h') \<Rightarrow> if e \<noteq> IHEX_NO_ERR then (Some e, h') else ihex_read_loop (Some e) cs h')"
    using read_hex_byte [of ?h2 "Some IHEX_NO_ERR" k cs] data_flags [OF r(1)] h n r(2)
    by (simp add: ihex_low_nibble_def)
  also have "?h2\<lparr>ih_flags := ?t, ih_data := (ih_data ?h2)[length ?bs := k]\<rparr>
      = (read_record r k h)\<lparr>ih_length := of_nat (length ?bs), ih_flags := ?t\<rparr>"
    using Cons_nth_drop_Suc [of "length ?bs" "(ih_data h)[0 := ?t]", symmetric] h r(2)
    by (cases h) (simp add: read_record_def)
  finally show ?thesis
    by (simp add: save_read_state_def)
qed

section \<open>Loading an image\<close>

text \<open>Between two records the reader is idle and the upper half of the address selects the page.\<close>

definition at_page :: "ihex_sys \<Rightarrow> u16 \<Rightarrow> bool" where
  "at_page h page \<longleftrightarrow> idle h \<and> drop_bit 16 (ih_address h) = ucast page"

lemma read_junk_text:
  assumes "idle h" and "0x3A \<notin> set js"
  shows "\<exists>d. ihex_read_loop (Some IHEX_NO_ERR) (js @ cs) h = ihex_read_loop (Some IHEX_NO_ERR) cs (h\<lparr>ih_data := d\<rparr>)
    \<and> length d = 256"
  using assms
proof (induction js arbitrary: h)
  case Nil
  then show ?case by (intro exI [of _ "ih_data h"]) (simp add: idle_def)
next
  case (Cons j js)
  obtain d where d: "ihex_read_byte j h = (IHEX_NO_ERR, h\<lparr>ih_data := d\<rparr>)" "length d = 256"
    using read_junk [of h j] Cons.prems by auto
  then show ?case
    using Cons.IH [of "h\<lparr>ih_data := d\<rparr>"] Cons.prems by (simp add: idle_def)
qed

lemma drop_address: "drop_bit 16 (push_bit 16 (drop_bit 16 x) OR ucast (a :: u16) :: u32) = drop_bit 16 x"
proof (rule bit_word_eqI)
  fix n
  have "\<not> bit a (16 + n)"
    using bit_imp_le_length [of a "16 + n"] by auto
  then show "bit (drop_bit 16 (push_bit 16 (drop_bit 16 x) OR ucast a)) n = bit (drop_bit 16 x) n"
    by (auto simp: bit_simps dest: bit_imp_le_length)
qed

lemma drop_linear_address:
  fixes b0 b1 :: u8
  shows "drop_bit 16 ((x AND 0xFFFF) OR (push_bit 24 (ucast b0) OR push_bit 16 (ucast b1)) :: u32)
    = ucast (push_bit 8 (ucast b0) OR ucast b1 :: u16)"
proof (rule bit_word_eqI)
  fix n
  have low: "x AND 0xFFFF = take_bit 16 x"
    by (simp add: take_bit_eq_mask mask_eq_exp_minus_1)
  have "bit b0 m \<Longrightarrow> m < 8" "bit b1 m \<Longrightarrow> m < 8" for m
    using bit_imp_le_length [of b0 m] bit_imp_le_length [of b1 m] by auto
  then show "bit (drop_bit 16 ((x AND 0xFFFF) OR (push_bit 24 (ucast b0) OR push_bit 16 (ucast b1)))) n
      = bit (ucast (push_bit 8 (ucast b0) OR ucast b1 :: u16) :: u32) n"
    unfolding low by (auto simp: bit_simps)
qed

lemma read_record_fields:
  assumes "at_page h page" and "length (rec_data r) \<le> 255"
  shows "ih_address (read_record r k h) = linear_address page (rec_offset r)"
    and "at_page (read_record r k h) page" and "ih_memory (read_record r k h) = ih_memory h"
  using assms drop_address [of "ih_address h" "rec_offset r"]
  by (auto simp: read_record_def at_page_def idle_def linear_address_def high_mask)

lemma read_any_record:
  assumes "at_page h page" and r: "rec_type r < 8" "length (rec_data r) \<le> 255" "rec_type r \<noteq> 0 \<or> rec_data r \<noteq> []"
    "rec_type r = 4 \<longrightarrow> length (rec_data r) = 2"
  shows "ihex_read_loop err (hex_record r k @ cs) h =
    (let h' = read_record r k h; bs = rec_data r
     in if k \<noteq> record_checksum r then (Some IHEX_CHECKSUM_ERR, h')
     else if rec_type r = 1 then (Some IHEX_END, h')
     else ihex_read_loop (Some IHEX_NO_ERR) cs
       (if rec_type r = 0
        then h'\<lparr>ih_memory := store_bytes (ih_memory h) (linear_address page (rec_offset r)) bs\<rparr>
        else if rec_type r = 4
        then h'\<lparr>ih_address := (ih_address h' AND 0xFFFF) OR (push_bit 24 (ucast (bs ! 0)) OR push_bit 16 (ucast (bs ! 1)))\<rparr>
        else h'))"
proof -
  let ?h = "read_record r k h" and ?n = "of_nat (length (rec_data r)) :: u8"
  have idle: "idle h"
    using assms(1) by (simp add: at_page_def)
  have same: "(read_record r j h)\<lparr>ih_length := 0, ih_flags := 0\<rparr> = read_record r j h"
      "(read_record r j h)\<lparr>ih_memory := m, ih_length := 0, ih_flags := 0\<rparr> = (read_record r j h)\<lparr>ih_memory := m\<rparr>"
      "(read_record r j h)\<lparr>ih_address := x, ih_length := 0, ih_flags := 0\<rparr> = (read_record r j h)\<lparr>ih_address := x\<rparr>" for j m x
    using idle by (cases h, simp add: idle_def read_record_def)+
  have data: "ih_data ?h = rec_data r @ k # drop (Suc (length (rec_data r))) (ih_data h)"
    "ih_line_length ?h = ?n" "ih_address ?h = push_bit 16 (drop_bit 16 (ih_address h)) OR ucast (rec_offset r)"
    by (simp_all add: read_record_def high_mask)
  show ?thesis
    using r(4) data end_read_record [OF r(1-3), of "?h\<lparr>ih_length := ?n, ih_flags := rec_type r\<rparr>" "drop_bit 16 (ih_address h)" k
        "drop (Suc (length (rec_data r))) (ih_data h)"]
      read_record_fields [OF assms(1) r(2), of k]
    by (auto simp: read_hex_record [OF idle r(1,2)] same nth_append Let_def)
qed

lemma read_empty_record:
  assumes "at_page h page" and "rec_type r = 0" and "rec_data r = []"
  shows "ihex_read_loop err (hex_record r k @ cs) h = ihex_read_loop (Some IHEX_NO_ERR) cs (read_record r k h)"
proof -
  have idle: "idle h"
    using assms(1) by (simp add: at_page_def)
  then have "(read_record r k h)\<lparr>ih_length := 0, ih_flags := 0\<rparr> = read_record r k h"
    by (cases h) (simp add: idle_def read_record_def)
  moreover have "ihex_end_read ((read_record r k h)\<lparr>ih_length := 0, ih_flags := 0\<rparr>)
      = (IHEX_NO_ERR, (read_record r k h)\<lparr>ih_length := 0, ih_flags := 0\<rparr>)"
    by (simp add: ihex_end_read_def)
  ultimately show ?thesis
    using assms(2,3) read_hex_record [OF idle, of r err k cs] by simp
qed

lemma read_good_record:
  assumes "at_page h page" and "ihex_record_ok r"
  shows "\<exists>h' page'. ihex_read_loop err (hex_record r (record_checksum r) @ cs) h = ihex_read_loop (Some IHEX_NO_ERR) cs h'
    \<and> at_page h' page' \<and> (\<forall>rs. load_image (r # rs) page (ih_memory h) = load_image rs page' (ih_memory h'))"
proof -
  let ?h = "read_record r (record_checksum r) h"
  obtain t a bs where r: "r = Ihex_Record t a bs"
    by (cases r)
  have ok: "t < 8" "t \<noteq> 1" "length bs \<le> 255" "t = 4 \<longrightarrow> length bs = 2"
    using assms(2) r by (simp_all add: ihex_record_ok_def)
  note f = read_record_fields [OF assms(1), of r "record_checksum r", unfolded r, simplified, OF ok(3), folded r]
  consider "t = 0" "bs = []" | "t = 0" "bs \<noteq> []" | "t = 4" | "t \<noteq> 0" "t \<noteq> 4"
    by blast
  then show ?thesis
  proof cases
    case 1
    then show ?thesis
      using read_empty_record [OF assms(1), of r err "record_checksum r" cs] r f
      by (intro exI [of _ ?h] exI [of _ page]) (simp add: store_bytes_def)
  next
    case 2
    then show ?thesis
      using read_any_record [OF assms(1), of r err "record_checksum r" cs] r ok f
      by (intro exI [of _ "?h\<lparr>ih_memory := store_bytes (ih_memory h) (linear_address page a) bs\<rparr>"] exI [of _ page])
        (simp add: at_page_def idle_def)
  next
    case 3
    then show ?thesis
      using read_any_record [OF assms(1), of r err "record_checksum r" cs] r ok f
      by (intro exI [of _ "?h\<lparr>ih_address := (ih_address ?h AND 0xFFFF) OR
          (push_bit 24 (ucast (bs ! 0)) OR push_bit 16 (ucast (bs ! 1)))\<rparr>"]
          exI [of _ "push_bit 8 (ucast (bs ! 0)) OR ucast (bs ! 1)"])
        (simp add: at_page_def idle_def drop_linear_address del: drop_bit_or)
  next
    case 4
    then show ?thesis
      using read_any_record [OF assms(1), of r err "record_checksum r" cs] r ok f
      by (intro exI [of _ ?h] exI [of _ page]) simp
  qed
qed

lemma read_text:
  assumes "at_page h page" and "list_all ihex_record_ok rs" and "0x3A \<notin> set eol"
  shows "\<exists>err' h' page'. ihex_read_loop err (hex_text eol rs @ cs) h = ihex_read_loop err' cs h'
    \<and> at_page h' page' \<and> ih_memory h' = load_image rs page (ih_memory h)"
  using assms(1,2)
proof (induction rs arbitrary: err h page)
  case Nil
  then show ?case by (auto simp: hex_text_def)
next
  case (Cons r rs)
  obtain h1 page1 where h1: "ihex_read_loop err (hex_record r (record_checksum r) @ eol @ hex_text eol rs @ cs) h
        = ihex_read_loop (Some IHEX_NO_ERR) (eol @ hex_text eol rs @ cs) h1"
      "at_page h1 page1" "load_image (r # rs) page (ih_memory h) = load_image rs page1 (ih_memory h1)"
    using read_good_record [OF Cons.prems(1), of r err "eol @ hex_text eol rs @ cs"] Cons.prems(2) by auto
  obtain d where d: "ihex_read_loop (Some IHEX_NO_ERR) (eol @ hex_text eol rs @ cs) h1
        = ihex_read_loop (Some IHEX_NO_ERR) (hex_text eol rs @ cs) (h1\<lparr>ih_data := d\<rparr>)" "length d = 256"
    using read_junk_text [of h1 eol "hex_text eol rs @ cs"] h1(2) assms(3) by (auto simp: at_page_def)
  moreover have "at_page (h1\<lparr>ih_data := d\<rparr>) page1"
    using h1(2) d(2) by (simp add: at_page_def idle_def)
  ultimately show ?case
    using Cons.IH [of "h1\<lparr>ih_data := d\<rparr>" page1 "Some IHEX_NO_ERR"] Cons.prems(2) h1
    by (simp add: hex_text_def)
qed

lemma hex_digit_range: "n < 16 \<Longrightarrow> hex_digit n \<notin> {0, 0x0D, 0x3A}"
  using nibble_cases [of n] by (auto simp: hex_digit_def)

lemma hex_record_chars: "0 \<notin> set (hex_record r k) \<and> 0x0D \<notin> set (hex_record r k)"
  using hex_digit_range nibble_less by (fastforce simp: hex_record_def hex_byte_def)

lemma hex_text_chars:
  "filter (\<lambda>c. c \<noteq> 0x0D) (hex_text eol rs) = hex_text (filter (\<lambda>c. c \<noteq> 0x0D) eol) rs"
  "0 \<notin> set eol \<Longrightarrow> 0 \<notin> set (hex_text eol rs)"
  using hex_record_chars by (induction rs) (auto simp: hex_text_def filter_id_conv)

lemma read_text_then:
  assumes "length (ih_data h) = 256" and "list_all ihex_record_ok rs" and "0x3A \<notin> set eol"
    and "rec_type r < 8" "length (rec_data r) \<le> 255" "rec_type r \<noteq> 0 \<or> rec_data r \<noteq> []"
      "rec_type r = 4 \<longrightarrow> length (rec_data r) = 2"
    and stops: "k \<noteq> record_checksum r \<or> rec_type r = 1"
  shows "\<exists>h'. ihex_read_loop err (hex_text eol rs @ hex_record r k @ rest) (ihex_start h) =
      (Some (if k \<noteq> record_checksum r then IHEX_CHECKSUM_ERR else IHEX_END), h')
    \<and> ih_memory h' = load_image rs 0 (ih_memory h)"
proof -
  have "at_page (ihex_start h) 0" "ih_memory (ihex_start h) = ih_memory h"
    using assms(1)
    by (simp_all add: at_page_def idle_def ihex_start_def ihex_read_at_address_def ihex_begin_read_def)
  then obtain err' h' page' where h': "ihex_read_loop err (hex_text eol rs @ hex_record r k @ rest) (ihex_start h)
        = ihex_read_loop err' (hex_record r k @ rest) h'"
      "at_page h' page'" "ih_memory h' = load_image rs 0 (ih_memory h)"
    using read_text [of "ihex_start h" 0 rs eol err "hex_record r k @ rest"] assms(2,3) by auto
  then show ?thesis
    using read_any_record [OF h'(2) assms(4-7), of err' k rest] stops read_record_fields(3) [OF h'(2) assms(5)]
    by (auto simp: Let_def)
qed

lemma load_text_then:
  assumes "length (ih_data h) = 256" and "list_all ihex_record_ok rs" and "0x3A \<notin> set eol"
    and "rec_type r < 8" "length (rec_data r) \<le> 255" "rec_type r \<noteq> 0 \<or> rec_data r \<noteq> []"
      "rec_type r = 4 \<longrightarrow> length (rec_data r) = 2"
    and "k \<noteq> record_checksum r \<or> rec_type r = 1" and "0 \<notin> set eol" and "0 \<notin> set rest"
  shows "\<exists>h'. ihex_load IHEX_SD_CARD (Some (hex_text eol rs @ hex_record r k @ rest)) (ihex_start h) =
      (Some (if k \<noteq> record_checksum r then IHEX_CHECKSUM_ERR else IHEX_END), h')
    \<and> ih_memory h' = load_image rs 0 (ih_memory h)"
proof -
  have "filter (\<lambda>c. c \<noteq> 0x0D) (hex_record r k) = hex_record r k"
    using hex_record_chars [of r k] by (auto simp: filter_id_conv)
  then show ?thesis
    using assms hex_record_chars [of r k]
      read_text_then [of h rs "filter (\<lambda>c. c \<noteq> 0x0D) eol" r k "Some IHEX_NO_FILE" "filter (\<lambda>c. c \<noteq> 0x0D) rest"]
    by (simp add: ihex_load_def ihex_load_lines_eq hex_text_chars)
qed

definition image_file :: "u8 list \<Rightarrow> ihex_record list \<Rightarrow> u8 list" where
  "image_file eol rs = hex_text eol rs @ hex_record end_of_file_record (record_checksum end_of_file_record)"

definition demo_ihex :: ihex_sys where
  "demo_ihex = \<lparr>ih_address = 0, ih_flags = 0, ih_line_length = 0, ih_length = 0, ih_data = replicate 256 0,
     ih_memory = \<lambda>_. 0\<rparr>"

section \<open>Properties\<close>

text \<open>C21. Loading is the inverse of printing: from any memory and any earlier contents of the
  buffer, \<open>ihex_start\<close> followed by \<open>ihex_load\<close> on the text of well-formed records and an end of
  file record, whatever separates the lines and whatever follows the end, reports the end of the
  file and leaves the memory with exactly the data of the records at their linear addresses, both
  for a file read through \<open>f_gets\<close> and for a string in memory.\<close>

theorem ihex_load_image:
  assumes "list_all ihex_record_ok rs" and "0x3A \<notin> set eol" and "0 \<notin> set eol" and "0 \<notin> set rest"
    and "length (ih_data h) = 256"
  shows "(\<exists>h'. ihex_load IHEX_SD_CARD (Some (image_file eol rs @ rest)) (ihex_start h) = (Some IHEX_END, h')
      \<and> ih_memory h' = load_image rs 0 (ih_memory h))
    \<and> (\<exists>h'. ihex_load IHEX_UART (Some (image_file eol rs @ rest @ 0 # junk)) (ihex_start h) = (Some IHEX_END, h')
      \<and> ih_memory h' = load_image rs 0 (ih_memory h))"
proof
  let ?r = end_of_file_record
  show "\<exists>h'. ihex_load IHEX_SD_CARD (Some (image_file eol rs @ rest)) (ihex_start h) = (Some IHEX_END, h')
      \<and> ih_memory h' = load_image rs 0 (ih_memory h)"
    using load_text_then [of h rs eol ?r "record_checksum ?r" rest] assms
    by (simp add: image_file_def end_of_file_record_def)
  have "0 \<notin> set (image_file eol rs @ rest)"
    using assms(3,4) hex_record_chars [of ?r] by (simp add: image_file_def hex_text_chars)
  then have "c_string ((image_file eol rs @ rest) @ 0 # junk) = image_file eol rs @ rest"
    by (rule c_string_append_0)
  then show "\<exists>h'. ihex_load IHEX_UART (Some (image_file eol rs @ rest @ 0 # junk)) (ihex_start h) = (Some IHEX_END, h')
      \<and> ih_memory h' = load_image rs 0 (ih_memory h)"
    using read_text_then [of h rs eol ?r "record_checksum ?r" None rest] assms
    by (simp add: ihex_load_def ihex_read_bytes_def image_file_def end_of_file_record_def)
qed

theorem ihex_load_image_witness:
  "\<exists>h'. ihex_load IHEX_SD_CARD
      (Some (image_file [0x0D, 0x0A] [Ihex_Record 4 0 [0x10, 0x00], Ihex_Record 0 0x100 [7, 9]] @ [0x0A]))
      (ihex_start demo_ihex) = (Some IHEX_END, h')
    \<and> ih_memory h' 0x10000101 = 9 \<and> ih_memory h' 0x10000102 = 0"
  using ihex_load_image [of "[Ihex_Record 4 0 [0x10, 0x00], Ihex_Record 0 0x100 [7, 9]]" "[0x0D, 0x0A]" "[0x0A]" demo_ihex,
      THEN conjunct1]
  by (auto simp: demo_ihex_def ihex_record_ok_def store_bytes_def linear_address_def)

text \<open>C22. A record whose checksum does not match is never loaded: when a file of good records is
  followed by a record whose bytes do not sum to zero (of any known type, except a data record
  without data), the loader stops with the checksum error, and the memory holds the records before
  it and nothing of the record or of what follows.\<close>

theorem ihex_load_checksum:
  assumes "list_all ihex_record_ok rs" and "0x3A \<notin> set eol" and "0 \<notin> set eol" and "0 \<notin> set rest"
    and "length (ih_data h) = 256"
    and "rec_type r < 8" and "length (rec_data r) \<le> 255" and "rec_type r \<noteq> 0 \<or> rec_data r \<noteq> []"
    and "rec_type r = 4 \<longrightarrow> length (rec_data r) = 2"
    and "sum_list (record_bytes r) + k \<noteq> 0"
  shows "\<exists>h'. ihex_load IHEX_SD_CARD (Some (hex_text eol rs @ hex_record r k @ rest)) (ihex_start h)
      = (Some IHEX_CHECKSUM_ERR, h')
    \<and> ih_memory h' = load_image rs 0 (ih_memory h)"
proof -
  have "k \<noteq> record_checksum r"
    using assms(10) by (auto simp: record_checksum_def)
  then show ?thesis
    using load_text_then [OF assms(5,1,2,6-9) _ assms(3,4), of k] by simp
qed

theorem ihex_load_checksum_witness:
  "\<exists>h'. ihex_load IHEX_SD_CARD (Some (hex_text [0x0A] [Ihex_Record 0 4 [1]] @ hex_record (Ihex_Record 0 5 [2]) 0 @ []))
      (ihex_start demo_ihex) = (Some IHEX_CHECKSUM_ERR, h')
    \<and> ih_memory h' 4 = 1 \<and> ih_memory h' 5 = 0"
  using ihex_load_checksum [of "[Ihex_Record 0 4 [1]]" "[0x0A]" "[]" demo_ihex "Ihex_Record 0 5 [2]" 0]
  by (auto simp: demo_ihex_def ihex_record_ok_def record_bytes_def store_bytes_def linear_address_def)

text \<open>A data record without data is accepted with any checksum.\<close>

lemma ihex_empty_record_unchecked:
  assumes "at_page h page"
  shows "ihex_read_bytes (hex_record (Ihex_Record 0 a []) k) h = (Some IHEX_NO_ERR, read_record (Ihex_Record 0 a []) k h)"
  using read_empty_record [OF assms, of "Ihex_Record 0 a []" None k "[]"] by (simp add: ihex_read_bytes_def)

end
