(* ===== verification/Spec2Isabelle.thy ===== *)
theory Spec2Isabelle
  imports Ringbuffer Arc_Cache Arc_Exception Ss_Guard Nt_Shell Ihex
begin

text \<open>
  Verification of the embARC Open Software Platform. The development covers four parts of it:
  the SecureShield runtime, which isolates the containers of an application on an ARC EM core;
  the parts of the ARC hardware abstraction layer it runs on; the NT-Shell command line; and two
  components of the middleware, the ring buffer and the Intel HEX loader of the boot loader.

  \<^bold>\<open>How the parts interact.\<close> The runtime divides the application into containers. A container
  reaches it by a trap (version 1) or a secure jump (version 2) for a call into another container
  or for a service, and by exceptions and interrupts; before it returns to a container the runtime
  loads the memory protection unit with the regions of that container through the driver in the
  hardware abstraction layer. The shell receives characters, runs them through the terminal parser,
  whose client it is, and keeps the line under the cursor and the history of lines. The loader
  reads lines through FatFs and stores them in memory.

  \<^bold>\<open>Theories and sources\<close> (paths below \<open>src/\<close>; a definition has the name of its C function):
  \<^item> \<open>Emb_Prelude\<close>: machine words, results of code that may stop (\<open>res_bind\<close>), byte memory and
    the bit macros of \<open>include/embARC_toolchain.h\<close>.
  \<^item> \<open>Arc_Core\<close>: the features of a build (\<open>build\<close>), the core as its auxiliary registers and memory
    (\<open>arc_core\<close>), and the register access of \<open>include/arc/arc_builtin.h\<close>. \<open>Arc_Frame\<close>: the
    frames of \<open>include/arc/arc_exception.h\<close> for every set of features. \<open>Arc_Mpu\<close>:
    \<open>arc/arc_mpu.c\<close>, versions 2, 3 and 4. \<open>Arc_Cache\<close>: \<open>arc/arc_cache.c\<close>. \<open>Arc_Exception\<close>:
    \<open>arc/arc_exception.c\<close>.
  \<^item> \<open>Ss_State\<close> (\<open>ss_build\<close>, the configuration; \<open>ss_state\<close>, the global variables on top of the
    core; the container stack), \<open>Ss_Vmpu\<close> (regions, switches, faults), \<open>Ss_Int\<close> (interrupts and
    exceptions), \<open>Ss_Sys\<close> (services), \<open>Ss_Call\<close> (container calls of both versions) and
    \<open>Ss_Setup\<close> (start-up): \<open>library/secureshield/core\<close>.
  \<^item> \<open>Ss_Inv\<close>, \<open>Ss_Run\<close>, \<open>Ss_Region\<close>, \<open>Ss_Boot\<close>, \<open>Ss_Props\<close>, \<open>Ss_Guard\<close>: the theory of the
    runtime; \<open>Ss_Demo\<close> is a concrete system that the properties are evaluated on.
  \<^item> \<open>Ringbuffer\<close>: \<open>middleware/common/ringbuffer\<close>. \<open>Ihex\<close>: \<open>middleware/ihex\<close> and \<open>f_gets\<close> of
    \<open>middleware/fatfs/source/ff.c\<close>.
  \<^item> \<open>Nt_Libc\<close>, \<open>Nt_Opt\<close>, \<open>Nt_Editor\<close>, \<open>Nt_History\<close>, \<open>Nt_Vttable\<close>, \<open>Nt_Vtrecv\<close>, \<open>Nt_Vtsend\<close>,
    \<open>Nt_Shell\<close>: the files of \<open>middleware/ntshell/src\<close> with these names.

  \<^bold>\<open>What is shown.\<close>
  \<^item> Runtime, all of it: start-up performs no undefined access and establishes the invariant
    \<open>ss_inv\<close>; every entry point keeps it and stays defined; so in every reachable state no
    entry of the protection unit that a switch loads covers private memory of another container,
    for builds without secure identifiers and blocks that the unit represents exactly.
    The argument goes from the checks on regions (\<open>Ss_Region\<close>) over start-up (\<open>Ss_Boot\<close>) and
    the step relation \<open>ss_run\<close> (\<open>Ss_Run\<close>) to this theory.
  \<^item> Runtime, single operations: which container calls are accepted, where they enter, and that
    they return to the caller whatever runs in between; what a switch and a fault load; which
    interrupts and auxiliary registers a container can use. Three shortcomings are shown with them:
    the two cases in which the checks of regions miss an overlap, and the missing bound on the
    arguments of a call, which can replace the callee's return address.
  \<^item> Hardware abstraction: an entry of the protection unit matches exactly the configured block and
    is decoded again (on version 2 of the unit, except for blocks at the top of memory); handlers,
    priorities and vectors are read back as installed (the locale \<open>cell_bank\<close>, interpreted on both
    tables); cache loops end, except at the top of memory.
  \<^item> Ring buffer: it implements the locale \<open>bounded_fifo\<close>.
  \<^item> NT-Shell: string functions and word splitting against their specifications; the editor refines
    two texts around a cursor (locale \<open>line_editor\<close>); the history returns the last lines; both
    transition tables agree; parsing inverts sending; the parser keeps the invariant of any client
    (locale \<open>vt_client\<close>, interpreted on the shell), hence the shell stays within its buffers, if the
    parser starts in memory that ends in a zero byte, and a typed line reaches the callback
    unchanged. Two overflows, and the access that the zero byte prevents, are shown as well.
  \<^item> Intel HEX: the loader inverts the printer of records, however the file is cut into lines, and
    a wrong checksum stops it before the record is stored.

  \<^bold>\<open>Modelling decisions.\<close> Integers have the width of the source. The variables of the runtime are
  fields of the state and not bytes of \<open>memory\<close>; that containers cannot write them is what the
  reserved entries of the protection unit are for, and is not derived. Code of a container between
  two events is any change of memory and registers that leaves the entries of the protection unit
  alone (\<open>core_step\<close>), which only the runtime's mode can write. An interrupt handler that the runtime
  calls is any run of the system. Halting is a result (\<open>Inl\<close>) and so is an access C does not define:
  an index outside an array of the runtime, a null pointer in its tables, a null pointer to the frame
  an entry point is given (\<open>frame_ref\<close>), a shift by the width of a word. The runtime can access all
  of \<open>memory\<close>, so that other frame addresses, and the argument copy of a call, are always defined.
  In NT-Shell a pointer is the list of bytes up to the end of its array, and an access outside has
  no result; characters written and lines passed to the callback are recorded in the state; what an
  uninitialised local array holds is one parameter, the same for every call. The loader's own variables are not part of the
  memory it loads.

  \<^bold>\<open>Bounds.\<close> No definition uses fuel. The loops of the cache driver and the digit loop of
  \<open>ntlibc_utoa\<close>, which need not end, are partial functions whose result is \<open>None\<close> if they do not;
  how long the cache is busy with a command (\<open>dc_busy\<close>) is a parameter.
  \<open>ntshell_execute\<close> never returns; it is modelled over the characters read so far, for
  any finite number of them. The capacities (8 lines of 64 bytes, 16 parameters, 255 data bytes,
  the table sizes of the runtime) are those of the sources.

  \<^bold>\<open>Not modelled.\<close> Of the runtime, code that nothing calls (\<open>vmpu_region_bits\<close>) or that is a constant
  (\<open>vmpu_fault_find_ac\<close>), and messages. Assembly (start-up code, exception entries, context
  switches): the C handlers are modelled from the saved frame on. The second level cache, timers, the connect unit and the DMA
  controller: sequences of accesses to hardware whose behaviour is not in the sources. Drivers and
  boards, for the same reason. The port and the commands of NT-Shell: tasks, serial ports and
  demonstration programs. Operating systems and third-party libraries: they are used as they are.
\<close>

section \<open>The running system\<close>

text \<open>The states that the system reaches from reset, through start-up and any run after it.\<close>

definition reachable :: "'b ss_build_scheme \<Rightarrow> ss_state \<Rightarrow> ss_state \<Rightarrow> bool" where
  "reachable b s0 s \<longleftrightarrow> (\<exists>t. secureshield_init b s0 = Inr t \<and> ss_run b 0 t s)"

lemma reachable_keeps:
  assumes "config_ok b" "ss_cleared b s0" "reachable b s0 s"
  obtains t where "secureshield_init b s0 = Inr t" "booted b t" "keeps b 0 t s" "ss_inv b s" "ids_agree s"
proof -
  obtain t where t: "secureshield_init b s0 = Inr t" "ss_run b 0 t s"
    using assms(3) unfolding reachable_def by blast
  have b: "mpu_build_ok b"
    using assms(1) by (simp add: config_ok_def)
  have bt: "booted b t"
    using safe_Inr [OF secureshield_init_safe [OF assms(1,2)] t(1)] .
  then show ?thesis
    using that [OF t(1) bt] ss_run_keeps [OF t(2) b] keeps_inv [of b 0 t s] by (auto simp: booted_def)
qed

lemma container_regionE:
  assumes "mpu_tables_ok s" "c < SECURESHIELD_MAX_CONTAINERS" "r \<in> set (container_regions s c)"
  obtains i k where "mc_region (g_mpu_container s ! c) = Some k" "k \<le> i" "i < k + mc_count (g_mpu_container s ! c)"
    "i < g_mpu_region_count s" "r = g_mpu_list s ! i"
proof -
  obtain k where k: "mc_region (g_mpu_container s ! c) = Some k"
      "r \<in> set (take (mc_count (g_mpu_container s ! c)) (drop k (g_mpu_list s)))"
    using assms(3) by (cases "mc_region (g_mpu_container s ! c)") (auto simp: container_regions_def block_items_def)
  have le: "k + mc_count (g_mpu_container s ! c) \<le> g_mpu_region_count s" "g_mpu_region_count s \<le> length (g_mpu_list s)"
    using mpu_tables_blocks [OF assms(1,2)] k(1) by (simp_all add: block_ok_def)
  obtain m where "m < mc_count (g_mpu_container s ! c)" "r = g_mpu_list s ! (k + m)"
    using k(2) le by (auto simp: in_set_conv_nth)
  then show ?thesis
    using that [OF k(1), of "k + m"] le by simp
qed

text \<open>The regions of different containers have no address in common.\<close>

lemma containers_apart:
  assumes tables: "mpu_tables_ok s" and blocks: "blocks_apart (g_mpu_container s)"
    and apart: "regions_apart b (g_mpu_list s) (g_mpu_region_count s)"
    and c: "c < SECURESHIELD_MAX_CONTAINERS" "c' < SECURESHIELD_MAX_CONTAINERS" "c \<noteq> c'"
    and r: "r \<in> set (container_regions s c)" "r' \<in> set (container_regions s c')" "\<not> has (rg_ac r) AC_SHARED"
  shows "\<not> (region_in r a \<and> region_in r' a)" "region_exact b r'"
proof -
  obtain i k where i: "mc_region (g_mpu_container s ! c) = Some k" "k \<le> i" "i < k + mc_count (g_mpu_container s ! c)"
      "i < g_mpu_region_count s" "r = g_mpu_list s ! i"
    by (rule container_regionE [OF tables c(1) r(1)])
  obtain i' k' where i': "mc_region (g_mpu_container s ! c') = Some k'" "k' \<le> i'"
      "i' < k' + mc_count (g_mpu_container s ! c')" "i' < g_mpu_region_count s" "r' = g_mpu_list s ! i'"
    by (rule container_regionE [OF tables c(2) r(2)])
  have "i \<noteq> i'"
    using blocks [unfolded blocks_apart_def, rule_format, of c c' k k'] blocks [unfolded blocks_apart_def, rule_format, of c' c k' k]
      i i' c by (cases "c < c'") auto
  then show "\<not> (region_in r a \<and> region_in r' a)" "region_exact b r'"
    using apart i i' r(3) by (auto simp: regions_apart_def both_shared_def)
qed

lemma tables_regions:
  assumes "same_tables s t"
  shows "container_regions t c = container_regions s c"
  using assms by (simp add: same_tables_def container_regions_def)

text \<open>
  C1. Isolation. In a build without secure identifiers whose configuration asks only for blocks
  that the protection unit represents exactly, take any state the system can reach, an address
  of a region of some container, not marked as shared, where the container is neither the active
  one nor the background container, and, if the active container is secure, is secure too. Then
  no entry of the protection unit, apart from the two that hold the runtime's own memory, matches
  the address. It does not matter which container calls, interrupts, faults and services have
  led to the state, or what the code of the containers did in between.
\<close>

theorem containers_isolated:
  assumes "config_ok b" "config_exact b" "\<not> ss_sid b" "ss_cleared b s0" "reachable b s0 s"
    and c: "c < g_vmpu_container_count s" "c \<noteq> g_active_container s" "c \<noteq> 0"
    and sec: "is_secure s (g_active_container s) \<longrightarrow> is_secure s c"
    and r: "r \<in> set (container_regions s c)" "\<not> has (rg_ac r) AC_SHARED" "region_in r a"
    and j: "ARC_MPU_RESERVED_REGIONS \<le> j" "j < mpu_regions b"
  shows "\<not> mpu_entry_covers b (mpu_entry b s j) a"
proof
  assume cov: "mpu_entry_covers b (mpu_entry b s j) a"
  have b: "mpu_build_ok b"
    using assms(1) by (simp add: config_ok_def)
  obtain t where t: "booted b t" "keeps b 0 t s" "ss_inv b s"
    by (rule reachable_keeps [OF assms(1,4,5)])
  have tab: "mpu_tables_ok s" "g_vmpu_container_count s \<le> SECURESHIELD_MAX_CONTAINERS"
    using t(3) by (simp_all add: ss_inv_def wf_defs)
  have apart: "blocks_apart (g_mpu_container s)" "regions_apart b (g_mpu_list s) (g_mpu_region_count s)"
    using t(1,2) assms(2,3) by (auto simp: booted_def keeps_def same_tables_def)
  have "mpu_entry b s j = empty_entry b \<or> mpu_entry b s j \<in> encode_region b ` allowed_regions s"
    using t(3) assms(3) j by (simp add: ss_inv_def mpu_confined_def)
  then obtain r' where r': "mpu_entry b s j = encode_region b r'" "r' \<in> allowed_regions s"
    using cov empty_covers [OF b, of a] by auto
  then obtain c' where c': "c' < g_vmpu_container_count s" "r' \<in> set (container_regions s c')" "c' \<noteq> c"
    using sec c(2,3) by (auto simp: allowed_regions_def)
  have lt: "c < SECURESHIELD_MAX_CONTAINERS" "c' < SECURESHIELD_MAX_CONTAINERS" "c \<noteq> c'"
    using c(1) c'(1,3) tab(2) by simp_all
  note iso = containers_apart [OF tab(1) apart lt r(1) c'(2) r(2)]
  show False
    using iso(1) region_covers [OF b iso(2), of a] cov r(3) r'(1) by simp
qed

lemma demo_reachable: "reachable demo_ss demo_reset demo_booted"
  unfolding reachable_def using demo_init run_refl [of 0 demo_booted demo_ss] by auto

theorem containers_isolated_witness:
  "reachable demo_ss demo_reset demo_booted \<and> g_active_container demo_booted = 0 \<and>
   \<not> mpu_entry_covers demo_ss (mpu_entry demo_ss demo_booted 2) 0x20010004"
proof -
  let ?s = demo_booted and ?r = "\<lparr>rg_base = 0x20010000, rg_attr = 0x168, rg_size = 0x1000, rg_ac = ACDEF_UTEXT\<rparr>"
  have s: "ss_inv demo_ss ?s" "g_active_container ?s = 0" "g_vmpu_container_count ?s = 2"
    using demo_booted_ok by (simp_all add: booted_def demo_fields)
  have t: "cx_cfg (g_container_context ?s ! 0) = Some demo_cfg" "g_mpu_container ?s ! 1 = \<lparr>mc_region = Some 2, mc_count = 2\<rparr>"
      "g_mpu_list ?s ! 2 = ?r"
    using demo_init_tables demo_init by auto
  have len: "length (g_mpu_list ?s) = MPU_REGION_COUNT" "length (g_container_context ?s) = SECURESHIELD_MAX_CONTAINERS"
    using s(1) by (simp_all add: ss_inv_def wf_defs)
  have "\<not> is_secure ?s 0"
    using t(1) len(2) by (simp add: is_secure_def container_is_secure_def arr_get_def demo_cfg_def)
  moreover have "?r \<in> set (container_regions ?s 1)"
    using t(2,3) len(1) by (auto simp: container_regions_def block_items_def in_set_conv_nth intro!: exI [of _ 0])
  moreover have "\<not> ss_sid demo_ss" "2 < mpu_regions demo_ss"
    by (simp_all add: demo_defs)
  ultimately show ?thesis
    using containers_isolated [OF demo_config demo_exact _ demo_cleared demo_reachable, of 1 ?r "0x20010004" 2] s
      demo_reachable
    by (simp add: has_def region_in_def)
qed

text \<open>
  C5. Start-up. From cleared variables and a configuration that the build can produce, the
  initialisation never performs an access that C does not define; when it returns, every
  container of the configuration has been entered, the background container is active, the
  container stack is empty, and the invariant of the runtime holds.
\<close>

theorem secureshield_init_establishes:
  assumes "config_ok b" "ss_cleared b s"
  shows "secureshield_init b s \<noteq> Inl Undefined \<and>
    (\<forall>t. secureshield_init b s = Inr t \<longrightarrow>
       ss_inv b t \<and> g_active_container t = 0 \<and> g_container_stack_curr_id t = 0 \<and> g_container_stack_ptr t = 0 \<and>
       g_vmpu_container_count t = length (cfgtbl b))"
  using secureshield_init_safe [OF assms]
  by (cases "secureshield_init b s") (auto simp: booted_def ids_agree_def)

theorem secureshield_init_establishes_witness:
  "secureshield_init demo_ss demo_reset = Inr demo_booted \<and> ss_inv demo_ss demo_booted \<and>
   g_active_container demo_booted = 0"
  using secureshield_init_establishes [OF demo_config demo_cleared] demo_init by blast

text \<open>
  C6. Definedness of the runtime. In every reachable state and for every way in which the processor
  can enter the runtime, with any contents of registers and memory, the runtime never indexes one
  of its arrays outside of the bounds, uses a null pointer to a configuration or to a block of one
  of its tables, follows a null pointer to the frame it is called with, or shifts by the width of a
  word. The two entry points that follow the frame without a check of their own are assumed to be
  given one. Other addresses in frames and saved stack pointers are addresses of memory, all of
  which is accessible to the runtime: accesses through them are not part of the claim.
\<close>

theorem ss_handle_defined:
  assumes "config_ok b" "ss_cleared b s0" "reachable b s0 s"
    and run: "\<forall>run f h v. ev = Ev_interrupt run f \<longrightarrow> ss_run b 0 v (run h v)"
    and frame: "frame_given b ev"
  shows "ss_handle b ev s \<noteq> Inl Undefined"
proof -
  have b: "mpu_build_ok b"
    using assms(1) by (simp add: config_ok_def)
  have inv: "ss_inv b s"
    by (rule reachable_keeps [OF assms(1-3)])
  have "safe (step_ok b 0 s) (ss_handle b ev s)"
  proof (rule ss_handle_safe [OF b inv])
    fix handler f h u assume ev: "ev = Ev_interrupt handler f" and "ss_inv b u"
    have "ss_run b 0 u (handler h u)"
      using run ev by blast
    then show "step_ok b 0 u (handler h u)"
      using ss_run_keeps [of b 0 u "handler h u"] b \<open>ss_inv b u\<close> by (simp add: step_ok_def)
  qed (rule frame)
  then show ?thesis
    by (auto simp: safe_def split: sum.splits)
qed

theorem ss_handle_defined_witness:
  "ss_handle demo_ss (Ev_interrupt (\<lambda>h v. v\<lparr>memory := demo_mem\<rparr>) 0x40000800) demo_booted \<noteq> Inl Undefined \<and>
   ss_handle demo_ss (Ev_trap 0) demo_booted \<noteq> Inl Undefined"
proof
  have "ss_run demo_ss 0 v (v\<lparr>memory := demo_mem\<rparr>)" for v
    by (rule run_container [OF run_refl]) (simp_all add: core_intros)
  then show "ss_handle demo_ss (Ev_interrupt (\<lambda>h v. v\<lparr>memory := demo_mem\<rparr>) 0x40000800) demo_booted \<noteq> Inl Undefined"
    by (intro ss_handle_defined [OF demo_config demo_cleared demo_reachable]) (simp_all add: frame_given_def)
  show "ss_handle demo_ss (Ev_trap 0) demo_booted \<noteq> Inl Undefined"
    by (intro ss_handle_defined [OF demo_config demo_cleared demo_reachable]) (simp_all add: frame_given_def)
qed

text \<open>
  C7. What start-up has set up stays. After any run the region, interface and register tables and
  the containers' types are those of start-up, and so are the two entries of the protection unit
  that hold the runtime's own memory.
\<close>

theorem ss_run_preserves_setup:
  assumes "config_ok b" "ss_cleared b s0" "secureshield_init b s0 = Inr t" "ss_run b 0 t s"
  shows "g_mpu_list s = g_mpu_list t \<and> g_mpu_container s = g_mpu_container t \<and>
    g_interface_list s = g_interface_list t \<and> g_interface_container s = g_interface_container t \<and>
    g_aux_list s = g_aux_list t \<and> g_aux_container s = g_aux_container t \<and>
    map cx_cfg (g_container_context s) = map cx_cfg (g_container_context t) \<and>
    (\<forall>j < ARC_MPU_RESERVED_REGIONS. mpu_entry b s j = mpu_entry b t j)"
proof -
  have "reachable b s0 s"
    using assms(3,4) by (auto simp: reachable_def)
  then obtain t' where "secureshield_init b s0 = Inr t'" "keeps b 0 t' s"
    by (rule reachable_keeps [OF assms(1,2)])
  then show ?thesis
    using assms(3) by (simp add: keeps_def same_tables_def same_entries_def)
qed

theorem ss_run_preserves_setup_witness:
  "ss_run demo_ss 0 demo_booted (demo_booted\<lparr>memory := demo_mem\<rparr>) \<and>
   g_mpu_list (demo_booted\<lparr>memory := demo_mem\<rparr>) = g_mpu_list demo_booted"
proof -
  have "ss_run demo_ss 0 demo_booted (demo_booted\<lparr>memory := demo_mem\<rparr>)"
    by (rule run_container [OF run_refl]) (simp_all add: core_intros)
  then show ?thesis
    using ss_run_preserves_setup [OF demo_config demo_cleared demo_init] by blast
qed

end
